theory Spec2Isabelle
  imports Main
begin

section \<open>The signaling relay and room registry (server/index.js)\<close>

text \<open>
  The relay keeps three process-wide tables: \<open>rooms\<close>, \<open>users\<close> and
  \<open>connectionMetrics\<close>, all keyed by strings. Every handler runs to completion before the
  next message is dispatched, so a handler is a function from the state before to the state
  after, together with the list of emissions it makes, in program order.

  A user object is created once per connection and is shared by reference between the
  \<open>users\<close> table and the \<open>users\<close> map of the room it joined. The model keeps the objects in
  a store \<open>objs\<close> addressed by the socket id of the connection that allocated them; the
  \<open>users\<close> table is the set of its keys, and the map of a room is the list of its keys in
  insertion order (the order in which a JavaScript Map is iterated).
\<close>

type_synonym socket_id = string
type_synonym room_id = string
type_synonym payload = string
type_synonym timestamp = nat

record ice_server =
  ice_urls :: "string list"
  ice_username :: "string option"
  ice_credential :: "string option"

record webrtc_config =
  iceServers :: "ice_server list"
  iceCandidatePoolSize :: nat
  bundlePolicy :: string
  rtcpMuxPolicy :: string
  iceTransportPolicy :: string

definition stun :: "string \<Rightarrow> ice_server" where
  "stun u = \<lparr>ice_urls = [u], ice_username = None, ice_credential = None\<rparr>"

definition turn :: "string \<Rightarrow> ice_server" where
  "turn u = \<lparr>ice_urls = [u], ice_username = Some ''openrelayproject'',
              ice_credential = Some ''openrelayproject''\<rparr>"

definition getWebRTCConfig :: webrtc_config where
  "getWebRTCConfig =
     \<lparr>iceServers =
        [stun ''stun:stun.l.google.com:19302'',
         stun ''stun:stun1.l.google.com:19302'',
         stun ''stun:stun2.l.google.com:19302'',
         stun ''stun:stun3.l.google.com:19302'',
         stun ''stun:stun4.l.google.com:19302'',
         stun ''stun:stun.stunprotocol.org:3478'',
         stun ''stun:stun.ekiga.net'',
         stun ''stun:stun.antisip.com'',
         stun ''stun:stun.bluesip.net'',
         turn ''turn:openrelay.metered.ca:80'',
         turn ''turn:openrelay.metered.ca:443'',
         turn ''turn:openrelay.metered.ca:443?transport=tcp''],
      iceCandidatePoolSize = 10,
      bundlePolicy = ''max-bundle'',
      rtcpMuxPolicy = ''require'',
      iceTransportPolicy = ''all''\<rparr>"

text \<open>
  The user object of \<open>io.on('connection')\<close>. \<open>name\<close> and \<open>roomId\<close> start as
  \<open>null\<close> (\<open>None\<close>).
\<close>

record user =
  user_id :: socket_id
  user_name :: "string option"
  user_roomId :: "room_id option"
  user_joinedAt :: timestamp
  user_clientIP :: string
  user_isAudioEnabled :: bool
  user_isVideoEnabled :: bool
  user_isScreenSharing :: bool
  user_connectionQuality :: string
  user_networkType :: string
  user_pendingOffers :: "payload list"

record room =
  room_id :: room_id
  room_users :: "socket_id list"
  room_createdAt :: timestamp
  room_roomType :: string
  room_webrtcConfig :: webrtc_config

record metrics =
  m_connectTime :: timestamp
  m_lastPing :: timestamp
  m_reconnectCount :: nat
  m_iceFailures :: nat
  m_successfulConnections :: nat
  m_pendingOffers :: nat

text \<open>The entries of the \<open>users\<close> array of a \<open>joined-room\<close> reply.\<close>

record user_info =
  info_id :: socket_id
  info_name :: "string option"
  info_isAudioEnabled :: bool
  info_isVideoEnabled :: bool

datatype out_msg =
    ErrorMsg string
  | JoinedRoom room_id socket_id "string option" string "user_info list" webrtc_config
  | UserJoined socket_id "string option" bool bool
  | UserLeft socket_id "string option" nat string timestamp
  | RoomDeleted room_id
  | RoomUpdated room_id nat timestamp string
  | NewRoomCreated room_id string timestamp
  | OfferMsg payload socket_id "string option" timestamp webrtc_config
  | AnswerMsg payload socket_id "string option" timestamp
  | IceCandidateMsg payload socket_id "string option" timestamp
  | CallFailed string
  | UserMediaStateChange socket_id "string option" bool bool bool
  | UserAudioToggle socket_id bool
  | UserVideoToggle socket_id bool
  | ChatMessage timestamp socket_id "string option" string timestamp
  | WebrtcConfigMsg webrtc_config
  | ConnectionTestResponse payload timestamp webrtc_config

text \<open>
  What a handler asks of the transport, as the call it makes:
  \<open>SocketEmit t m\<close> is \<open>emit\<close> on the socket \<open>t\<close> (the sender's own socket or
  \<open>targetSocket\<close>), \<open>SocketTo s r m\<close> is \<open>socket.to(r).emit\<close> on the socket \<open>s\<close> (every
  member of the transport room \<open>r\<close> except \<open>s\<close>), \<open>IoTo r m\<close> is \<open>io.to(r).emit\<close>,
  \<open>IoEmit m\<close> is \<open>io.emit\<close> (every connected socket), and \<open>SocketJoin\<close> and
  \<open>SocketLeave\<close> are \<open>socket.join\<close> and \<open>socket.leave\<close>.
\<close>

datatype effect =
    SocketEmit socket_id out_msg
  | SocketTo socket_id room_id out_msg
  | IoTo room_id out_msg
  | IoEmit out_msg
  | SocketJoin socket_id room_id
  | SocketLeave socket_id room_id

record server_state =
  rooms :: "room_id \<rightharpoonup> room"
  users :: "socket_id set"
  objs :: "socket_id \<rightharpoonup> user"
  connectionMetrics :: "socket_id \<rightharpoonup> metrics"
  sockets :: "socket_id set"

definition init_state :: server_state where
  "init_state = \<lparr>rooms = Map.empty, users = {}, objs = Map.empty,
                 connectionMetrics = Map.empty, sockets = {}\<rparr>"

text \<open>\<open>users.get(id)\<close>: the object stored under the key, \<open>undefined\<close> when the key is absent.\<close>

definition users_get :: "server_state \<Rightarrow> socket_id \<Rightarrow> user option" where
  "users_get s k = (if k \<in> users s then objs s k else None)"

text \<open>
  JavaScript truthiness of a \<open>roomId\<close> field: \<open>null\<close> and the empty string are falsy.
\<close>

definition truthy :: "string option \<Rightarrow> bool" where
  "truthy v = (case v of None \<Rightarrow> False | Some x \<Rightarrow> x \<noteq> [])"

text \<open>\<open>Map.prototype.set\<close> and \<open>delete\<close> on the keys of a room's user map.\<close>

definition keys_set :: "socket_id list \<Rightarrow> socket_id \<Rightarrow> socket_id list" where
  "keys_set ks k = (if k \<in> set ks then ks else ks @ [k])"

definition keys_delete :: "socket_id list \<Rightarrow> socket_id \<Rightarrow> socket_id list" where
  "keys_delete ks k = filter (\<lambda>x. x \<noteq> k) ks"

text \<open>
  \<open>Array.from(room.users.values())\<close>: the objects the keys refer to, in insertion order.
  Every key of a room's map refers to an allocated object (\<open>wf_state\<close> below), so no key
  is skipped.
\<close>

definition room_values :: "server_state \<Rightarrow> room \<Rightarrow> user list" where
  "room_values s r = List.map_filter (objs s) (room_users r)"

subsection \<open>Connection, leave and disconnect\<close>

definition connection :: "timestamp \<Rightarrow> socket_id \<Rightarrow> string \<Rightarrow> server_state \<Rightarrow> server_state" where
  "connection now sid clientIP s =
     s\<lparr>sockets := insert sid (sockets s),
       users := insert sid (users s),
       objs := (objs s)(sid \<mapsto>
         \<lparr>user_id = sid, user_name = None, user_roomId = None, user_joinedAt = now,
          user_clientIP = clientIP, user_isAudioEnabled = True, user_isVideoEnabled = False,
          user_isScreenSharing = False, user_connectionQuality = ''unknown'',
          user_networkType = ''unknown'', user_pendingOffers = []\<rparr>),
       connectionMetrics := (connectionMetrics s)(sid \<mapsto>
         \<lparr>m_connectTime = now, m_lastPing = now, m_reconnectCount = 0, m_iceFailures = 0,
          m_successfulConnections = 0, m_pendingOffers = 0\<rparr>)\<rparr>"

text \<open>
  The part of \<open>handleUserLeave\<close> guarded by \<open>if (user && user.roomId)\<close> and
  \<open>if (room)\<close>: the membership is removed, the others are notified, and the room is
  deleted when its map became empty.
\<close>

definition leave_room_of :: "timestamp \<Rightarrow> socket_id \<Rightarrow> server_state \<Rightarrow> server_state \<times> effect list" where
  "leave_room_of now sid s =
     (case users_get s sid of
        None \<Rightarrow> (s, [])
      | Some u \<Rightarrow>
          (case user_roomId u of
             None \<Rightarrow> (s, [])
           | Some roomId \<Rightarrow>
               if roomId = [] then (s, [])
               else
                 (case rooms s roomId of
                    None \<Rightarrow> (s, [])
                  | Some r \<Rightarrow>
                      let ks = keys_delete (room_users r) sid;
                          left = SocketTo sid roomId
                                   (UserLeft sid (user_name u) (length ks) ''user-left'' now)
                      in if length ks = 0
                         then (s\<lparr>rooms := (rooms s)(roomId := None)\<rparr>,
                               [left, IoEmit (RoomDeleted roomId)])
                         else (s\<lparr>rooms := (rooms s)(roomId \<mapsto> r\<lparr>room_users := ks\<rparr>)\<rparr>,
                               [left, IoEmit (RoomUpdated roomId (length ks)
                                                (room_createdAt r) (room_roomType r))]))))"

definition handleUserLeave :: "timestamp \<Rightarrow> socket_id \<Rightarrow> server_state \<Rightarrow> server_state \<times> effect list" where
  "handleUserLeave now sid s =
     (let (s1, out) = leave_room_of now sid s
      in (s1\<lparr>users := users s1 - {sid},
             connectionMetrics := (connectionMetrics s1)(sid := None)\<rparr>, out))"

definition leave_room :: "timestamp \<Rightarrow> socket_id \<Rightarrow> server_state \<Rightarrow> server_state \<times> effect list" where
  "leave_room now sid s = handleUserLeave now sid s"

text \<open>
  The transport removes a closing socket from \<open>io.sockets.sockets\<close> before it runs the
  \<open>disconnect\<close> listener.
\<close>

definition disconnect :: "timestamp \<Rightarrow> socket_id \<Rightarrow> server_state \<Rightarrow> server_state \<times> effect list" where
  "disconnect now sid s = handleUserLeave now sid (s\<lparr>sockets := sockets s - {sid}\<rparr>)"

subsection \<open>join-room\<close>

definition existingUsersInRoom :: "server_state \<Rightarrow> room \<Rightarrow> socket_id \<Rightarrow> user_info list" where
  "existingUsersInRoom s r sid =
     map (\<lambda>u. \<lparr>info_id = user_id u, info_name = user_name u,
               info_isAudioEnabled = user_isAudioEnabled u,
               info_isVideoEnabled = user_isVideoEnabled u\<rparr>)
         (filter (\<lambda>u. user_id u \<noteq> sid) (room_values s r))"

text \<open>
  The handler, block by block: leaving the old room when the user switches rooms
  (\<open>user.roomId && user.roomId !== roomId\<close>), updating the user object, creating
  the room when it does not exist, and admitting the user. \<open>roomType\<close> is \<open>None\<close> when the
  message has no such field; the handler's parameter default makes it \<open>'video'\<close>. With a
  payload of strings nothing in the \<open>try\<close> block throws, so the \<open>catch\<close> branch has no
  counterpart here.
\<close>

definition leave_old_room ::
  "timestamp \<Rightarrow> socket_id \<Rightarrow> user \<Rightarrow> room_id \<Rightarrow> server_state \<Rightarrow> server_state \<times> effect list" where
  "leave_old_room now sid u roomId s =
     (case user_roomId u of
        None \<Rightarrow> (s, [])
      | Some old \<Rightarrow>
          if old \<noteq> [] \<and> old \<noteq> roomId
          then (let (s', out') = handleUserLeave now sid s
                in (s', SocketLeave sid old # out'))
          else (s, []))"

definition update_user :: "user \<Rightarrow> room_id \<Rightarrow> string \<Rightarrow> string \<Rightarrow> user" where
  "update_user u roomId userName roomType =
     u\<lparr>user_roomId := Some roomId, user_name := Some userName,
       user_isAudioEnabled := True, user_isVideoEnabled := (roomType = ''video'')\<rparr>"

definition init_room ::
  "timestamp \<Rightarrow> room_id \<Rightarrow> string \<Rightarrow> server_state \<Rightarrow> server_state \<times> effect list" where
  "init_room now roomId roomType s =
     (if rooms s roomId = None
      then (s\<lparr>rooms := (rooms s)(roomId \<mapsto>
                \<lparr>room_id = roomId, room_users = [], room_createdAt = now,
                 room_roomType = roomType, room_webrtcConfig = getWebRTCConfig\<rparr>)\<rparr>,
            [IoEmit (NewRoomCreated roomId roomType now)])
      else (s, []))"

text \<open>
  From \<open>const room = rooms.get(roomId)\<close> to the end of the handler. The room exists at
  this point, \<open>init_room\<close> has just made sure of it.
\<close>

definition admit ::
  "socket_id \<Rightarrow> room_id \<Rightarrow> user \<Rightarrow> server_state \<Rightarrow> server_state \<times> effect list" where
  "admit sid roomId u s =
     (case rooms s roomId of
        None \<Rightarrow> (s, [])
      | Some r \<Rightarrow>
          let existing = existingUsersInRoom s r sid;
              ks = keys_set (room_users r) sid
          in (s\<lparr>rooms := (rooms s)(roomId \<mapsto> r\<lparr>room_users := ks\<rparr>)\<rparr>,
              [SocketEmit sid (JoinedRoom roomId sid (user_name u) (room_roomType r)
                                 existing getWebRTCConfig),
               SocketTo sid roomId (UserJoined sid (user_name u)
                                 (user_isAudioEnabled u) (user_isVideoEnabled u)),
               IoEmit (RoomUpdated roomId (length ks) (room_createdAt r) (room_roomType r))]))"

definition join_room ::
  "timestamp \<Rightarrow> socket_id \<Rightarrow> room_id \<Rightarrow> string \<Rightarrow> string option \<Rightarrow> server_state
     \<Rightarrow> server_state \<times> effect list" where
  "join_room now sid roomId userName roomTypeOpt s =
     (let roomType = (case roomTypeOpt of None \<Rightarrow> ''video'' | Some t \<Rightarrow> t)
      in (case users_get s sid of
            None \<Rightarrow> (s, [SocketEmit sid (ErrorMsg ''User data not initialized. Please refresh.'')])
          | Some u \<Rightarrow>
              let (s1, out1) = leave_old_room now sid u roomId s;
                  u' = update_user u roomId userName roomType;
                  s2 = s1\<lparr>objs := (objs s1)(sid \<mapsto> u'), users := insert sid (users s1)\<rparr>;
                  (s3, out3) = init_room now roomId roomType s2;
                  (s4, out4) = admit sid roomId u' s3
              in (s4, out1 @ [SocketJoin sid roomId] @ out3 @ out4)))"

subsection \<open>Negotiation relay\<close>

text \<open>
  The guard of the three relay handlers:
  \<open>targetSocket && targetUser && fromUser.roomId === targetUser.roomId\<close>. Two \<open>null\<close>
  room ids are strictly equal.
\<close>

definition can_relay :: "server_state \<Rightarrow> user \<Rightarrow> socket_id \<Rightarrow> bool" where
  "can_relay s fromUser targetUserId =
     (targetUserId \<in> sockets s \<and>
      (case users_get s targetUserId of
         None \<Rightarrow> False
       | Some targetUser \<Rightarrow> user_roomId fromUser = user_roomId targetUser))"

definition offer :: "timestamp \<Rightarrow> socket_id \<Rightarrow> payload \<Rightarrow> socket_id \<Rightarrow> server_state
     \<Rightarrow> server_state \<times> effect list" where
  "offer now sid off targetUserId s =
     (case users_get s sid of
        None \<Rightarrow> (s, [])
      | Some fromUser \<Rightarrow>
          if can_relay s fromUser targetUserId
          then ((case connectionMetrics s sid of
                   None \<Rightarrow> s
                 | Some m \<Rightarrow> s\<lparr>connectionMetrics := (connectionMetrics s)(sid \<mapsto>
                                 m\<lparr>m_pendingOffers := m_pendingOffers m + 1\<rparr>)\<rparr>),
                [SocketEmit targetUserId
                   (OfferMsg off sid (user_name fromUser) now getWebRTCConfig)])
          else (s, [SocketEmit sid (CallFailed (''Could not send offer to '' @ targetUserId @
                      ''. User not available or in a different room.''))]))"

definition answer :: "timestamp \<Rightarrow> socket_id \<Rightarrow> payload \<Rightarrow> socket_id \<Rightarrow> server_state
     \<Rightarrow> server_state \<times> effect list" where
  "answer now sid ans targetUserId s =
     (case users_get s sid of
        None \<Rightarrow> (s, [])
      | Some fromUser \<Rightarrow>
          if can_relay s fromUser targetUserId
          then ((case connectionMetrics s targetUserId of
                   None \<Rightarrow> s
                 | Some m \<Rightarrow>
                     if m_pendingOffers m > 0
                     then s\<lparr>connectionMetrics := (connectionMetrics s)(targetUserId \<mapsto>
                             m\<lparr>m_pendingOffers := m_pendingOffers m - 1,
                               m_successfulConnections := m_successfulConnections m + 1\<rparr>)\<rparr>
                     else s),
                [SocketEmit targetUserId (AnswerMsg ans sid (user_name fromUser) now)])
          else (s, [SocketEmit sid (CallFailed (''Could not send answer to '' @ targetUserId @
                      ''. User not available or in a different room.''))]))"

definition ice_candidate :: "timestamp \<Rightarrow> socket_id \<Rightarrow> payload \<Rightarrow> socket_id \<Rightarrow> server_state
     \<Rightarrow> server_state \<times> effect list" where
  "ice_candidate now sid cand targetUserId s =
     (case users_get s sid of
        None \<Rightarrow> (s, [])
      | Some fromUser \<Rightarrow>
          if can_relay s fromUser targetUserId
          then (s, [SocketEmit targetUserId
                      (IceCandidateMsg cand sid (user_name fromUser) now)])
          else (s, []))"

subsection \<open>The remaining listeners\<close>

definition get_webrtc_config :: "socket_id \<Rightarrow> server_state \<Rightarrow> server_state \<times> effect list" where
  "get_webrtc_config sid s = (s, [SocketEmit sid (WebrtcConfigMsg getWebRTCConfig)])"

definition connection_status :: "timestamp \<Rightarrow> socket_id \<Rightarrow> string \<Rightarrow> server_state
     \<Rightarrow> server_state \<times> effect list" where
  "connection_status now sid status s =
     (case users_get s sid of
        None \<Rightarrow> (s, [])
      | Some u \<Rightarrow>
          if truthy (user_roomId u)
          then (case connectionMetrics s sid of
                  None \<Rightarrow> (s, [])
                | Some m \<Rightarrow>
                    let m1 = m\<lparr>m_lastPing := now\<rparr>;
                        m2 = (if status = ''failed''
                              then m1\<lparr>m_iceFailures := m_iceFailures m1 + 1\<rparr>
                              else if status = ''connected''
                              then m1\<lparr>m_successfulConnections := m_successfulConnections m1 + 1\<rparr>
                              else m1)
                    in (s\<lparr>connectionMetrics := (connectionMetrics s)(sid \<mapsto> m2)\<rparr>, []))
          else (s, []))"

definition media_state_change :: "socket_id \<Rightarrow> bool \<Rightarrow> bool \<Rightarrow> bool \<Rightarrow> server_state
     \<Rightarrow> server_state \<times> effect list" where
  "media_state_change sid a v sc s =
     (case users_get s sid of
        None \<Rightarrow> (s, [])
      | Some u \<Rightarrow>
          (case user_roomId u of
             None \<Rightarrow> (s, [])
           | Some roomId \<Rightarrow>
               if roomId = [] then (s, [])
               else (s\<lparr>objs := (objs s)(sid \<mapsto> u\<lparr>user_isAudioEnabled := a,
                                                   user_isVideoEnabled := v,
                                                   user_isScreenSharing := sc\<rparr>)\<rparr>,
                     [SocketTo sid roomId (UserMediaStateChange sid (user_name u) a v sc)])))"

definition audio_toggle :: "socket_id \<Rightarrow> bool \<Rightarrow> server_state \<Rightarrow> server_state \<times> effect list" where
  "audio_toggle sid isEnabled s =
     (case users_get s sid of
        None \<Rightarrow> (s, [])
      | Some u \<Rightarrow>
          (case user_roomId u of
             None \<Rightarrow> (s, [])
           | Some roomId \<Rightarrow>
               if roomId = [] then (s, [])
               else (s\<lparr>objs := (objs s)(sid \<mapsto> u\<lparr>user_isAudioEnabled := isEnabled\<rparr>)\<rparr>,
                     [SocketTo sid roomId (UserAudioToggle sid isEnabled)])))"

definition video_toggle :: "socket_id \<Rightarrow> bool \<Rightarrow> server_state \<Rightarrow> server_state \<times> effect list" where
  "video_toggle sid isEnabled s =
     (case users_get s sid of
        None \<Rightarrow> (s, [])
      | Some u \<Rightarrow>
          (case user_roomId u of
             None \<Rightarrow> (s, [])
           | Some roomId \<Rightarrow>
               if roomId = [] then (s, [])
               else (s\<lparr>objs := (objs s)(sid \<mapsto> u\<lparr>user_isVideoEnabled := isEnabled\<rparr>)\<rparr>,
                     [SocketTo sid roomId (UserVideoToggle sid isEnabled)])))"

definition chat_message :: "timestamp \<Rightarrow> socket_id \<Rightarrow> string \<Rightarrow> room_id \<Rightarrow> server_state
     \<Rightarrow> server_state \<times> effect list" where
  "chat_message now sid message roomId s =
     (case users_get s sid of
        None \<Rightarrow> (s, [])
      | Some u \<Rightarrow>
          if user_roomId u = Some roomId
          then (s, [IoTo roomId (ChatMessage now sid (user_name u) message now)])
          else (s, []))"

definition connection_test :: "timestamp \<Rightarrow> socket_id \<Rightarrow> payload \<Rightarrow> server_state
     \<Rightarrow> server_state \<times> effect list" where
  "connection_test now sid d s =
     (s, [SocketEmit sid (ConnectionTestResponse d now getWebRTCConfig)])"

subsection \<open>The dispatch loop\<close>

text \<open>
  One inbound event per step. The transport gives every connection an id of its own, so a
  \<open>Connection\<close> is taken only for an id never seen before; the listeners of a socket exist
  from its connection to its disconnection, so any other event is taken only from a
  connected socket.
\<close>

datatype event =
    Connection socket_id string
  | JoinRoom socket_id room_id string "string option"
  | OfferEv socket_id payload socket_id
  | AnswerEv socket_id payload socket_id
  | IceCandidateEv socket_id payload socket_id
  | GetWebrtcConfig socket_id
  | ConnectionStatus socket_id string
  | MediaStateChange socket_id bool bool bool
  | AudioToggle socket_id bool
  | VideoToggle socket_id bool
  | ChatMessageEv socket_id string room_id
  | LeaveRoom socket_id
  | Disconnect socket_id
  | ConnectionTest socket_id payload

fun sender :: "event \<Rightarrow> socket_id" where
  "sender (Connection sid _) = sid"
| "sender (JoinRoom sid _ _ _) = sid"
| "sender (OfferEv sid _ _) = sid"
| "sender (AnswerEv sid _ _) = sid"
| "sender (IceCandidateEv sid _ _) = sid"
| "sender (GetWebrtcConfig sid) = sid"
| "sender (ConnectionStatus sid _) = sid"
| "sender (MediaStateChange sid _ _ _) = sid"
| "sender (AudioToggle sid _) = sid"
| "sender (VideoToggle sid _) = sid"
| "sender (ChatMessageEv sid _ _) = sid"
| "sender (LeaveRoom sid) = sid"
| "sender (Disconnect sid) = sid"
| "sender (ConnectionTest sid _) = sid"

fun handle :: "timestamp \<Rightarrow> event \<Rightarrow> server_state \<Rightarrow> server_state \<times> effect list" where
  "handle now (Connection sid ip) s = (connection now sid ip s, [])"
| "handle now (JoinRoom sid roomId userName roomType) s = join_room now sid roomId userName roomType s"
| "handle now (OfferEv sid p t) s = offer now sid p t s"
| "handle now (AnswerEv sid p t) s = answer now sid p t s"
| "handle now (IceCandidateEv sid p t) s = ice_candidate now sid p t s"
| "handle now (GetWebrtcConfig sid) s = get_webrtc_config sid s"
| "handle now (ConnectionStatus sid st) s = connection_status now sid st s"
| "handle now (MediaStateChange sid a v sc) s = media_state_change sid a v sc s"
| "handle now (AudioToggle sid b) s = audio_toggle sid b s"
| "handle now (VideoToggle sid b) s = video_toggle sid b s"
| "handle now (ChatMessageEv sid m r) s = chat_message now sid m r s"
| "handle now (LeaveRoom sid) s = leave_room now sid s"
| "handle now (Disconnect sid) s = disconnect now sid s"
| "handle now (ConnectionTest sid d) s = connection_test now sid d s"

definition enabled :: "event \<Rightarrow> server_state \<Rightarrow> bool" where
  "enabled ev s =
     (case ev of
        Connection sid _ \<Rightarrow> sid \<notin> sockets s \<and> objs s sid = None
      | _ \<Rightarrow> sender ev \<in> sockets s)"

definition step :: "timestamp \<Rightarrow> event \<Rightarrow> server_state \<Rightarrow> server_state \<times> effect list" where
  "step now ev s = (if enabled ev s then handle now ev s else (s, []))"

fun run :: "(timestamp \<times> event) list \<Rightarrow> server_state \<Rightarrow> server_state" where
  "run [] s = s"
| "run ((now, ev) # evs) s = run evs (fst (step now ev s))"

subsection \<open>Invariants of the registry\<close>

definition wf_state :: "server_state \<Rightarrow> bool" where
  "wf_state s =
     ((\<forall>k u. objs s k = Some u \<longrightarrow> user_id u = k) \<and>
      (\<forall>rid r. rooms s rid = Some r \<longrightarrow>
         distinct (room_users r) \<and> (\<forall>k \<in> set (room_users r). objs s k \<noteq> None)))"

definition no_empty_room :: "server_state \<Rightarrow> bool" where
  "no_empty_room s = (\<forall>rid r. rooms s rid = Some r \<longrightarrow> room_users r \<noteq> [])"

definition members_of :: "server_state \<Rightarrow> room_id \<Rightarrow> socket_id list" where
  "members_of s rid = (case rooms s rid of None \<Rightarrow> [] | Some r \<Rightarrow> room_users r)"


text \<open>The \<open>joined-room\<close> replies among the emissions of a handler.\<close>

fun is_joined_room :: "effect \<Rightarrow> bool" where
  "is_joined_room (SocketEmit _ (JoinedRoom _ _ _ _ _ _)) = True"
| "is_joined_room (SocketTo _ _ (JoinedRoom _ _ _ _ _ _)) = True"
| "is_joined_room (IoTo _ (JoinedRoom _ _ _ _ _ _)) = True"
| "is_joined_room (IoEmit (JoinedRoom _ _ _ _ _ _)) = True"
| "is_joined_room _ = False"

subsection \<open>Example runs of the relay\<close>


text \<open>
  \<open>a\<close> and \<open>b\<close> joined the room \<open>abc\<close>, and \<open>a\<close> left it again: its socket is still
  connected, but its user record is gone.
\<close>

definition last_leaves :: "(timestamp \<times> event) list" where
  "last_leaves =
     [(1, Connection ''a'' ''10.0.0.1''), (2, Connection ''b'' ''10.0.0.2''),
      (3, JoinRoom ''a'' ''abc'' ''Ann'' (Some ''video'')), (4, JoinRoom ''b'' ''abc'' ''Bob'' None),
      (5, LeaveRoom ''a'')]"

text \<open>\<open>a\<close> and \<open>b\<close> are in the room \<open>abc\<close>; \<open>c\<close> is connected and in no room.\<close>

definition third_joins :: "(timestamp \<times> event) list" where
  "third_joins =
     [(1, Connection ''a'' ''10.0.0.1''), (2, Connection ''b'' ''10.0.0.2''),
      (3, Connection ''c'' ''10.0.0.3''),
      (4, JoinRoom ''a'' ''abc'' ''Ann'' (Some ''video'')), (5, JoinRoom ''b'' ''abc'' ''Bob'' None)]"


section \<open>The peer negotiation engine (usePeerConnection and the listeners of VideoCall)\<close>

text \<open>
  The hook keeps its per-peer data in parallel tables keyed by the remote peer id: three
  React states (\<open>remotePeers\<close>, \<open>remoteStreams\<close>, \<open>connectionStatus\<close>), the error
  string \<open>connectionError\<close>, and four refs (\<open>peerConnectionsRef\<close>,
  \<open>iceCandidatesQueueRef\<close>, \<open>remoteStreamsRef\<close>, \<open>connectionTimeoutsRef\<close>). The
  connection objects live in the browser; the tables hold references to them, and so do the
  closures of the timers and of the event handlers. The model keeps the objects in a store
  \<open>pcs\<close> and the pending timers in a table \<open>timers\<close>.

  An \<open>async\<close> function is modelled as running to completion: no other message is taken
  while it waits for the browser.
\<close>

type_synonym peer_id = string
type_synonym candidate = string
type_synonym pc_ref = nat
type_synonym timer_id = nat

record description =
  desc_type :: string
  desc_sdp :: string

record track =
  track_id :: string
  track_kind :: string

record stream =
  stream_id :: string
  stream_tracks :: "track list"

text \<open>The calls the hook makes on a connection object, each with whether it succeeded.\<close>

datatype pc_call =
    Close
  | AddTrack track
  | ReplaceTrack nat track
  | CreateOffer
  | CreateAnswer
  | SetLocalDescription description
  | SetRemoteDescription description
  | AddIceCandidate candidate
  | RestartIce

text \<open>
  An \<open>RTCPeerConnection\<close>, as far as the hook reads it: the two descriptions, the four
  state attributes, and the tracks of its senders (\<open>None\<close> for a sender without a track).
  \<open>peer\<close> is the \<open>peerId\<close> that the handlers installed by \<open>createPeerConnection\<close>
  have captured, and \<open>calls\<close> records the calls made on the object, in program order.
\<close>

record pc =
  peer :: peer_id
  remoteDescription :: "description option"
  localDescription :: "description option"
  signalingState :: string
  connectionState :: string
  iceConnectionState :: string
  iceGatheringState :: string
  senders :: "track option list"
  calls :: "(pc_call \<times> bool) list"

text \<open>
  The browser is a parameter. Each field says whether a call on a connection in a given
  state succeeds: \<open>None\<close> (or \<open>Inr\<close> with the result) when it does, the message of the
  error it throws otherwise. What a successful call does to the object is fixed by the
  WebRTC interface and written out in the functions \<open>pc_\<dots>\<close> below.
\<close>

record browser =
  supported :: bool
  construct_error :: "string option"
  create_offer :: "pc \<Rightarrow> string + string"
  create_answer :: "pc \<Rightarrow> string + string"
  set_local :: "pc \<Rightarrow> description \<Rightarrow> string option"
  set_remote :: "pc \<Rightarrow> description \<Rightarrow> string option"
  add_candidate :: "pc \<Rightarrow> candidate \<Rightarrow> string option"
  add_track :: "pc \<Rightarrow> track \<Rightarrow> string option"
  replace_track :: "pc \<Rightarrow> nat \<Rightarrow> track \<Rightarrow> string option"

datatype timer_action =
    ConnectionTimeout peer_id pc_ref
  | IceGatheringTimeout peer_id pc_ref
  | IceRestart pc_ref

record timer =
  timer_delay :: nat
  timer_action :: timer_action

record remote_peer =
  rp_type :: "string option"
  rp_connected :: bool

datatype client_emit =
    EmitOffer description peer_id
  | EmitAnswer description peer_id
  | EmitIceCandidate candidate peer_id

record client_state =
  remotePeers :: "peer_id \<rightharpoonup> remote_peer"
  remoteStreams :: "peer_id \<rightharpoonup> stream"
  connectionStatus :: "peer_id \<rightharpoonup> string"
  connectionError :: "string option"
  peerConnectionsRef :: "peer_id \<rightharpoonup> pc_ref"
  iceCandidatesQueueRef :: "peer_id \<rightharpoonup> candidate list"
  remoteStreamsRef :: "peer_id \<rightharpoonup> stream"
  connectionTimeoutsRef :: "string \<rightharpoonup> timer_id"
  participants :: "(peer_id \<times> string option) list"
  isConnected :: bool
  pcs :: "pc_ref \<rightharpoonup> pc"
  next_pc :: pc_ref
  timers :: "timer_id \<rightharpoonup> timer"
  next_timer :: timer_id

definition CONNECTION_TIMEOUT :: nat where
  "CONNECTION_TIMEOUT = 30000"

definition ICE_GATHERING_TIMEOUT :: nat where
  "ICE_GATHERING_TIMEOUT = 10000"

text \<open>
  The state of a freshly mounted component whose socket is connected. Timer ids are
  positive, as \<open>setTimeout\<close> returns them.
\<close>

definition init_client :: client_state where
  "init_client =
     \<lparr>remotePeers = Map.empty, remoteStreams = Map.empty, connectionStatus = Map.empty,
      connectionError = None, peerConnectionsRef = Map.empty,
      iceCandidatesQueueRef = Map.empty, remoteStreamsRef = Map.empty,
      connectionTimeoutsRef = Map.empty, participants = [], isConnected = True,
      pcs = Map.empty, next_pc = 0, timers = Map.empty, next_timer = 1\<rparr>"

subsection \<open>The browser's side of the calls\<close>

definition log_call :: "pc_call \<Rightarrow> bool \<Rightarrow> pc \<Rightarrow> pc" where
  "log_call c ok p = p\<lparr>calls := calls p @ [(c, ok)]\<rparr>"

definition new_pc :: "peer_id \<Rightarrow> pc" where
  "new_pc peerId =
     \<lparr>peer = peerId, remoteDescription = None, localDescription = None,
      signalingState = ''stable'', connectionState = ''new'', iceConnectionState = ''new'',
      iceGatheringState = ''new'', senders = [], calls = []\<rparr>"

definition pc_close :: "pc \<Rightarrow> pc" where
  "pc_close p =
     log_call Close True
       (p\<lparr>signalingState := ''closed'', connectionState := ''closed'',
          iceConnectionState := ''closed''\<rparr>)"

definition pc_addTrack :: "browser \<Rightarrow> track \<Rightarrow> pc \<Rightarrow> string option \<times> pc" where
  "pc_addTrack b t p =
     (case add_track b p t of
        Some err \<Rightarrow> (Some err, log_call (AddTrack t) False p)
      | None \<Rightarrow> (None, log_call (AddTrack t) True (p\<lparr>senders := senders p @ [Some t]\<rparr>)))"

definition pc_replaceTrack :: "browser \<Rightarrow> nat \<Rightarrow> track \<Rightarrow> pc \<Rightarrow> string option \<times> pc" where
  "pc_replaceTrack b i t p =
     (case replace_track b p i t of
        Some err \<Rightarrow> (Some err, log_call (ReplaceTrack i t) False p)
      | None \<Rightarrow> (None, log_call (ReplaceTrack i t) True
                          (p\<lparr>senders := (senders p)[i := Some t]\<rparr>)))"

definition pc_createOffer :: "browser \<Rightarrow> pc \<Rightarrow> (string + description) \<times> pc" where
  "pc_createOffer b p =
     (case create_offer b p of
        Inl err \<Rightarrow> (Inl err, log_call CreateOffer False p)
      | Inr sdp \<Rightarrow> (Inr \<lparr>desc_type = ''offer'', desc_sdp = sdp\<rparr>, log_call CreateOffer True p))"

definition pc_createAnswer :: "browser \<Rightarrow> pc \<Rightarrow> (string + description) \<times> pc" where
  "pc_createAnswer b p =
     (case create_answer b p of
        Inl err \<Rightarrow> (Inl err, log_call CreateAnswer False p)
      | Inr sdp \<Rightarrow> (Inr \<lparr>desc_type = ''answer'', desc_sdp = sdp\<rparr>, log_call CreateAnswer True p))"

definition pc_setLocalDescription :: "browser \<Rightarrow> description \<Rightarrow> pc \<Rightarrow> string option \<times> pc" where
  "pc_setLocalDescription b d p =
     (case set_local b p d of
        Some err \<Rightarrow> (Some err, log_call (SetLocalDescription d) False p)
      | None \<Rightarrow>
          (None, log_call (SetLocalDescription d) True
                   (p\<lparr>localDescription := Some d,
                      signalingState := (if desc_type d = ''offer'' then ''have-local-offer''
                                         else ''stable'')\<rparr>)))"

definition pc_setRemoteDescription :: "browser \<Rightarrow> description \<Rightarrow> pc \<Rightarrow> string option \<times> pc" where
  "pc_setRemoteDescription b d p =
     (case set_remote b p d of
        Some err \<Rightarrow> (Some err, log_call (SetRemoteDescription d) False p)
      | None \<Rightarrow>
          (None, log_call (SetRemoteDescription d) True
                   (p\<lparr>remoteDescription := Some d,
                      signalingState := (if desc_type d = ''offer'' then ''have-remote-offer''
                                         else ''stable'')\<rparr>)))"

definition pc_addIceCandidate :: "browser \<Rightarrow> candidate \<Rightarrow> pc \<Rightarrow> string option \<times> pc" where
  "pc_addIceCandidate b c p =
     (case add_candidate b p c of
        Some err \<Rightarrow> (Some err, log_call (AddIceCandidate c) False p)
      | None \<Rightarrow> (None, log_call (AddIceCandidate c) True p))"

definition pc_restartIce :: "pc \<Rightarrow> pc" where
  "pc_restartIce p = log_call RestartIce True p"

subsection \<open>Reading and writing the tables\<close>

text \<open>
  \<open>peerConnectionsRef.current[peerId]\<close> with the object it refers to; \<open>None\<close> when the
  table has no entry.
\<close>

definition get_pc :: "client_state \<Rightarrow> peer_id \<Rightarrow> (pc_ref \<times> pc) option" where
  "get_pc s peerId =
     (case peerConnectionsRef s peerId of
        None \<Rightarrow> None
      | Some r \<Rightarrow> (case pcs s r of None \<Rightarrow> None | Some p \<Rightarrow> Some (r, p)))"

definition put_pc :: "pc_ref \<Rightarrow> pc \<Rightarrow> client_state \<Rightarrow> client_state" where
  "put_pc r p s = s\<lparr>pcs := (pcs s)(r \<mapsto> p)\<rparr>"

text \<open>\<open>iceCandidatesQueueRef.current[peerId] || []\<close>\<close>

definition queue_of :: "client_state \<Rightarrow> peer_id \<Rightarrow> candidate list" where
  "queue_of s peerId = (case iceCandidatesQueueRef s peerId of None \<Rightarrow> [] | Some q \<Rightarrow> q)"

text \<open>\<open>setTimeout\<close> and \<open>clearTimeout\<close>.\<close>

definition setTimeout :: "timer_action \<Rightarrow> nat \<Rightarrow> client_state \<Rightarrow> timer_id \<times> client_state" where
  "setTimeout a d s =
     (next_timer s,
      s\<lparr>timers := (timers s)(next_timer s \<mapsto> \<lparr>timer_delay = d, timer_action = a\<rparr>),
        next_timer := Suc (next_timer s)\<rparr>)"

definition clearTimeout :: "timer_id \<Rightarrow> client_state \<Rightarrow> client_state" where
  "clearTimeout tid s = s\<lparr>timers := (timers s)(tid := None)\<rparr>"

text \<open>
  \<open>if (connectionTimeoutsRef.current[key]) { clearTimeout(...); delete ... }\<close>; a timer
  id of 0 would be falsy.
\<close>

definition clear_timeout_entry :: "string \<Rightarrow> client_state \<Rightarrow> client_state" where
  "clear_timeout_entry key s =
     (case connectionTimeoutsRef s key of
        None \<Rightarrow> s
      | Some tid \<Rightarrow>
          if tid = 0 then s
          else (clearTimeout tid s)\<lparr>connectionTimeoutsRef := (connectionTimeoutsRef s)(key := None)\<rparr>)"

subsection \<open>usePeerConnection\<close>

text \<open>The loop of \<open>processIceCandidateQueue\<close>: a candidate that fails is skipped.\<close>

fun add_queued :: "browser \<Rightarrow> candidate list \<Rightarrow> pc \<Rightarrow> pc" where
  "add_queued b [] p = p"
| "add_queued b (c # cs) p = add_queued b cs (snd (pc_addIceCandidate b c p))"

definition processIceCandidateQueue :: "browser \<Rightarrow> peer_id \<Rightarrow> client_state \<Rightarrow> client_state" where
  "processIceCandidateQueue b peerId s =
     (case get_pc s peerId of
        None \<Rightarrow> s
      | Some (r, p) \<Rightarrow>
          let queue = queue_of s peerId
          in if remoteDescription p \<noteq> None \<and> length queue > 0
             then (put_pc r (add_queued b queue p) s)
                    \<lparr>iceCandidatesQueueRef := (iceCandidatesQueueRef s)(peerId \<mapsto> [])\<rparr>
             else s)"

definition closePeerConnection :: "peer_id \<Rightarrow> client_state \<Rightarrow> bool \<times> client_state" where
  "closePeerConnection peerId s =
     (case get_pc s peerId of
        None \<Rightarrow> (False, s)
      | Some (r, p) \<Rightarrow>
          let s1 = clear_timeout_entry peerId s;
              s2 = clear_timeout_entry (peerId @ ''_ice'') s1;
              s3 = put_pc r (pc_close p) s2
          in (True,
              s3\<lparr>peerConnectionsRef := (peerConnectionsRef s3)(peerId := None),
                 iceCandidatesQueueRef := (iceCandidatesQueueRef s3)(peerId := None),
                 remoteStreamsRef := (remoteStreamsRef s3)(peerId := None),
                 remotePeers := (remotePeers s3)(peerId := None),
                 remoteStreams := (remoteStreams s3)(peerId := None),
                 connectionStatus := (connectionStatus s3)(peerId := None)\<rparr>))"

text \<open>\<open>localStream.getTracks()\<close>, or no track when there is no local stream.\<close>

definition local_tracks :: "stream option \<Rightarrow> track list" where
  "local_tracks localStream = (case localStream of None \<Rightarrow> [] | Some st \<Rightarrow> stream_tracks st)"

text \<open>The loop that adds the local tracks: an \<open>addTrack\<close> that throws is logged and skipped.\<close>

fun add_local_tracks :: "browser \<Rightarrow> track list \<Rightarrow> pc \<Rightarrow> pc" where
  "add_local_tracks b [] p = p"
| "add_local_tracks b (t # ts) p = add_local_tracks b ts (snd (pc_addTrack b t p))"

definition createPeerConnection ::
  "browser \<Rightarrow> peer_id \<Rightarrow> stream option \<Rightarrow> client_state \<Rightarrow> pc_ref option \<times> client_state" where
  "createPeerConnection b peerId localStream s =
     (if \<not> supported b
      then (None, s\<lparr>connectionError := Some ''WebRTC is not supported in this browser''\<rparr>)
      else
        let s1 = (case get_pc s peerId of
                    None \<Rightarrow> s
                  | Some (old, p) \<Rightarrow> put_pc old (pc_close p) s)
        in (case construct_error b of
              Some err \<Rightarrow> (None, s1\<lparr>connectionError := Some (''Connection failed: '' @ err)\<rparr>)
            | None \<Rightarrow>
                let r = next_pc s1;
                    s2 = s1\<lparr>next_pc := Suc r,
                            peerConnectionsRef := (peerConnectionsRef s1)(peerId \<mapsto> r),
                            iceCandidatesQueueRef :=
                              (iceCandidatesQueueRef s1)(peerId \<mapsto> queue_of s1 peerId),
                            connectionStatus := (connectionStatus s1)(peerId \<mapsto> ''connecting'')\<rparr>;
                    (tid, s3) = setTimeout (ConnectionTimeout peerId r) CONNECTION_TIMEOUT s2;
                    s4 = s3\<lparr>connectionTimeoutsRef := (connectionTimeoutsRef s3)(peerId \<mapsto> tid)\<rparr>;
                    p = add_local_tracks b (local_tracks localStream) (new_pc peerId)
                in (Some r, put_pc r p s4)))"

definition createOffer :: "browser \<Rightarrow> peer_id \<Rightarrow> client_state \<Rightarrow> description option \<times> client_state" where
  "createOffer b peerId s =
     (case get_pc s peerId of
        None \<Rightarrow> (None, s)
      | Some (r, p) \<Rightarrow>
          (case pc_createOffer b p of
             (Inl err, p1) \<Rightarrow>
               (None, (put_pc r p1 s)\<lparr>connectionError := Some (''Offer failed: '' @ err)\<rparr>)
           | (Inr off, p1) \<Rightarrow>
               (case pc_setLocalDescription b off p1 of
                  (Some err, p2) \<Rightarrow>
                    (None, (put_pc r p2 s)\<lparr>connectionError := Some (''Offer failed: '' @ err)\<rparr>)
                | (None, p2) \<Rightarrow>
                    let (tid, s1) = setTimeout (IceGatheringTimeout peerId r)
                                      ICE_GATHERING_TIMEOUT (put_pc r p2 s)
                    in (localDescription p2,
                        s1\<lparr>connectionTimeoutsRef :=
                             (connectionTimeoutsRef s1)(peerId @ ''_ice'' \<mapsto> tid),
                           remotePeers := (remotePeers s1)(peerId \<mapsto>
                             \<lparr>rp_type = Some ''offer'', rp_connected = False\<rparr>)\<rparr>))))"

text \<open>
  \<open>handleOffer\<close> after the connection object has been found or created: any of the three
  browser calls may throw, and the \<open>catch\<close> block stores the message and returns \<open>null\<close>.
\<close>

definition answer_offer ::
  "browser \<Rightarrow> peer_id \<Rightarrow> description \<Rightarrow> pc_ref \<Rightarrow> client_state \<Rightarrow> description option \<times> client_state" where
  "answer_offer b peerId off r s =
     (case pcs s r of
        None \<Rightarrow> (None, s)
      | Some p \<Rightarrow>
          (case pc_setRemoteDescription b off p of
             (Some err, p1) \<Rightarrow>
               (None, (put_pc r p1 s)\<lparr>connectionError := Some (''Offer processing failed: '' @ err)\<rparr>)
           | (None, p1) \<Rightarrow>
               (case pc_createAnswer b p1 of
                  (Inl err, p2) \<Rightarrow>
                    (None, (put_pc r p2 s)\<lparr>connectionError :=
                                              Some (''Offer processing failed: '' @ err)\<rparr>)
                | (Inr ans, p2) \<Rightarrow>
                    (case pc_setLocalDescription b ans p2 of
                       (Some err, p3) \<Rightarrow>
                         (None, (put_pc r p3 s)\<lparr>connectionError :=
                                                   Some (''Offer processing failed: '' @ err)\<rparr>)
                     | (None, p3) \<Rightarrow>
                         let s1 = processIceCandidateQueue b peerId (put_pc r p3 s);
                             s2 = s1\<lparr>remotePeers := (remotePeers s1)(peerId \<mapsto>
                                       \<lparr>rp_type = Some ''answer'', rp_connected = True\<rparr>)\<rparr>
                         in (case pcs s2 r of
                               None \<Rightarrow> (None, s2)
                             | Some p4 \<Rightarrow> (localDescription p4, s2))))))"

definition handleOffer ::
  "browser \<Rightarrow> peer_id \<Rightarrow> description \<Rightarrow> stream option \<Rightarrow> client_state
     \<Rightarrow> description option \<times> client_state" where
  "handleOffer b peerId off localStream s =
     (case get_pc s peerId of
        Some (r, p) \<Rightarrow> answer_offer b peerId off r s
      | None \<Rightarrow>
          (case createPeerConnection b peerId localStream s of
             (None, s1) \<Rightarrow> (None, s1)
           | (Some r, s1) \<Rightarrow> answer_offer b peerId off r s1))"

definition handleAnswer :: "browser \<Rightarrow> peer_id \<Rightarrow> description \<Rightarrow> client_state \<Rightarrow> bool \<times> client_state" where
  "handleAnswer b peerId ans s =
     (case get_pc s peerId of
        None \<Rightarrow> (False, s)
      | Some (r, p) \<Rightarrow>
          (case pc_setRemoteDescription b ans p of
             (Some err, p1) \<Rightarrow> (False, put_pc r p1 s)
           | (None, p1) \<Rightarrow>
               let s1 = processIceCandidateQueue b peerId (put_pc r p1 s)
               in (True,
                   s1\<lparr>remotePeers := (remotePeers s1)(peerId \<mapsto>
                        (case remotePeers s1 peerId of
                           None \<Rightarrow> \<lparr>rp_type = None, rp_connected = True\<rparr>
                         | Some rp \<Rightarrow> rp\<lparr>rp_connected := True\<rparr>))\<rparr>)))"

definition addIceCandidate :: "browser \<Rightarrow> peer_id \<Rightarrow> candidate \<Rightarrow> client_state \<Rightarrow> bool \<times> client_state" where
  "addIceCandidate b peerId c s =
     (let queued = (False, s\<lparr>iceCandidatesQueueRef :=
                               (iceCandidatesQueueRef s)(peerId \<mapsto> queue_of s peerId @ [c])\<rparr>)
      in (case get_pc s peerId of
            None \<Rightarrow> queued
          | Some (r, p) \<Rightarrow>
              if remoteDescription p = None then queued
              else (case pc_addIceCandidate b c p of
                      (None, p1) \<Rightarrow> (True, put_pc r p1 s)
                    | (Some err, p1) \<Rightarrow> (False, put_pc r p1 s))))"

text \<open>
  \<open>senders.find(s => s.track?.kind === track.kind)\<close> on the array that \<open>getSenders\<close>
  returned before the loop: the first of the first \<open>n\<close> senders whose current track has
  the kind.
\<close>

fun find_sender :: "track option list \<Rightarrow> string \<Rightarrow> nat \<Rightarrow> nat option" where
  "find_sender [] kind i = None"
| "find_sender (None # ss) kind i = find_sender ss kind (Suc i)"
| "find_sender (Some t # ss) kind i =
     (if track_kind t = kind then Some i else find_sender ss kind (Suc i))"

fun replace_tracks :: "browser \<Rightarrow> nat \<Rightarrow> track list \<Rightarrow> pc \<Rightarrow> bool \<times> pc" where
  "replace_tracks b n [] p = (True, p)"
| "replace_tracks b n (t # ts) p =
     (case find_sender (take n (senders p)) (track_kind t) 0 of
        Some i \<Rightarrow>
          (case pc_replaceTrack b i t p of
             (None, p1) \<Rightarrow> replace_tracks b n ts p1
           | (Some err, p1) \<Rightarrow> (False, p1))
      | None \<Rightarrow>
          (case pc_addTrack b t p of
             (None, p1) \<Rightarrow> replace_tracks b n ts p1
           | (Some err, p1) \<Rightarrow> (False, p1)))"

definition updateStream :: "browser \<Rightarrow> peer_id \<Rightarrow> stream \<Rightarrow> client_state \<Rightarrow> bool \<times> client_state" where
  "updateStream b peerId newStream s =
     (case get_pc s peerId of
        None \<Rightarrow> (False, s)
      | Some (r, p) \<Rightarrow>
          (case replace_tracks b (length (senders p)) (stream_tracks newStream) p of
             (ok, p1) \<Rightarrow> (ok, put_pc r p1 s)))"

definition hasPeerConnection :: "peer_id \<Rightarrow> client_state \<Rightarrow> bool" where
  "hasPeerConnection peerId s = (get_pc s peerId \<noteq> None)"

subsection \<open>The handlers that createPeerConnection installs, and the timers\<close>

text \<open>
  The browser sets the attribute and then calls the handler; \<open>r\<close> is the connection the
  handler was installed on.
\<close>

definition oniceconnectionstatechange :: "pc_ref \<Rightarrow> string \<Rightarrow> client_state \<Rightarrow> client_state" where
  "oniceconnectionstatechange r state s =
     (case pcs s r of
        None \<Rightarrow> s
      | Some p \<Rightarrow>
          let peerId = peer p;
              s1 = put_pc r (p\<lparr>iceConnectionState := state\<rparr>) s;
              s2 = s1\<lparr>connectionStatus := (connectionStatus s1)(peerId \<mapsto> state)\<rparr>
          in if state = ''connected'' \<or> state = ''completed''
             then clear_timeout_entry peerId s2
             else if state = ''failed''
             then snd (setTimeout (IceRestart r) 1000 s2)
             else s2)"

definition onconnectionstatechange :: "pc_ref \<Rightarrow> string \<Rightarrow> client_state \<Rightarrow> client_state" where
  "onconnectionstatechange r state s =
     (case pcs s r of
        None \<Rightarrow> s
      | Some p \<Rightarrow>
          let s1 = put_pc r (p\<lparr>connectionState := state\<rparr>) s
          in if state = ''failed''
             then s1\<lparr>connectionError := Some (''Connection failed for '' @ peer p)\<rparr>
             else s1)"

text \<open>\<open>ontrack\<close>, with the first stream of the event (\<open>None\<close> when the event has none).\<close>

definition ontrack :: "pc_ref \<Rightarrow> stream option \<Rightarrow> client_state \<Rightarrow> client_state" where
  "ontrack r remoteStream s =
     (case pcs s r of
        None \<Rightarrow> s
      | Some p \<Rightarrow>
          (case remoteStream of
             None \<Rightarrow> s
           | Some st \<Rightarrow>
               s\<lparr>remoteStreamsRef := (remoteStreamsRef s)(peer p \<mapsto> st),
                 remoteStreams := (remoteStreams s)(peer p \<mapsto> st)\<rparr>))"

text \<open>A pending timer fires: it leaves the table of pending timers and its callback runs.\<close>

definition fire_timer :: "timer_id \<Rightarrow> client_state \<Rightarrow> client_state" where
  "fire_timer tid s =
     (case timers s tid of
        None \<Rightarrow> s
      | Some t \<Rightarrow>
          let s1 = s\<lparr>timers := (timers s)(tid := None)\<rparr>
          in (case timer_action t of
                ConnectionTimeout peerId r \<Rightarrow>
                  (case pcs s1 r of
                     None \<Rightarrow> s1
                   | Some p \<Rightarrow>
                       if connectionState p = ''connecting'' \<or> connectionState p = ''new''
                       then snd (closePeerConnection peerId
                                   (s1\<lparr>connectionError :=
                                         Some (''Connection timeout for '' @ peerId)\<rparr>))
                       else s1)
              | IceGatheringTimeout peerId r \<Rightarrow> s1
              | IceRestart r \<Rightarrow>
                  (case pcs s1 r of
                     None \<Rightarrow> s1
                   | Some p \<Rightarrow>
                       if signalingState p = ''stable''
                       then put_pc r (pc_restartIce p) s1
                       else s1)))"

subsection \<open>The socket listeners of VideoCall\<close>

text \<open>\<open>emit\<close> of useSocket sends only while the socket is connected.\<close>

definition emit :: "client_emit \<Rightarrow> client_state \<Rightarrow> client_emit list" where
  "emit m s = (if isConnected s then [m] else [])"

text \<open>
  The listeners for \<open>offer\<close> and \<open>answer\<close> are declared inside the effect as
  \<open>const handleOffer\<close> (line 535) and \<open>const handleAnswer\<close> (line 572). Inside the effect
  these names hide the functions \<open>handleOffer\<close> and \<open>handleAnswer\<close> that the component
  takes from \<open>usePeerConnection\<close> (lines 380 and 381), so the call \<open>handleOffer(fromUserId, offer, localStream,
  handleIceCandidate)\<close> in the body of the listener is a call of the listener itself, with the
  string \<open>fromUserId\<close> as its message, and likewise \<open>handleAnswer(fromUserId, answer)\<close>.
  A listener is therefore a function of whatever value it is called with: a message of the
  relay, a string, or \<open>undefined\<close>.
\<close>

datatype listener_arg =
    Message description peer_id "string option"
  | Text string
  | Undefined

text \<open>
  The parameter of a listener is a destructuring pattern. Destructuring \<open>undefined\<close> throws
  a \<open>TypeError\<close>; a string has none of the properties \<open>offer\<close>, \<open>answer\<close>, \<open>fromUserId\<close>,
  \<open>fromUserName\<close>, so each of them is \<open>undefined\<close>. \<open>fromUserId_arg\<close> is the value of
  \<open>fromUserId\<close> then, and \<open>fromUserId_key\<close> the property name under which the tables of
  \<open>usePeerConnection\<close> are read with it (\<open>undefined\<close> as a property name is the
  string \<open>undefined\<close>).
\<close>

fun fromUserId_arg :: "listener_arg \<Rightarrow> listener_arg" where
  "fromUserId_arg (Message d fromUserId fromUserName) = Text fromUserId"
| "fromUserId_arg (Text t) = Undefined"
| "fromUserId_arg Undefined = Undefined"

fun fromUserId_key :: "listener_arg \<Rightarrow> peer_id" where
  "fromUserId_key (Message d fromUserId fromUserName) = fromUserId"
| "fromUserId_key (Text t) = ''undefined''"
| "fromUserId_key Undefined = ''undefined''"

fun nesting :: "listener_arg \<Rightarrow> nat" where
  "nesting (Message d fromUserId fromUserName) = 2"
| "nesting (Text t) = 1"
| "nesting Undefined = 0"

text \<open>
  The listener for \<open>offer\<close>. It is an async function: a \<open>TypeError\<close> of the destructuring
  rejects its promise (\<open>Inl\<close>); otherwise the body closes the connection to \<open>fromUserId\<close>
  if there is one and awaits the nested call. A rejection of the nested call is caught and
  logged. The listener has no \<open>return\<close>, so the awaited value is \<open>undefined\<close> whenever the
  nested call resolves: the branch \<open>if (answer)\<close>, which would send the answer and add the
  participant, is never taken. The result is the outcome of the promise, the state and the
  messages sent.
\<close>

function handleOffer_listener ::
  "listener_arg \<Rightarrow> client_state \<Rightarrow> (string + unit) \<times> client_state \<times> client_emit list" where
  "handleOffer_listener Undefined s = (Inl ''TypeError'', s, [])"
| "handleOffer_listener (Text t) s =
     (let s1 = (if hasPeerConnection (fromUserId_key (Text t)) s
                then snd (closePeerConnection (fromUserId_key (Text t)) s) else s)
      in (case handleOffer_listener (fromUserId_arg (Text t)) s1 of
            (Inl err, s2, out) \<Rightarrow> (Inr (), s2, out)
          | (Inr awaited, s2, out) \<Rightarrow> (Inr (), s2, out)))"
| "handleOffer_listener (Message off fromUserId fromUserName) s =
     (let s1 = (if hasPeerConnection (fromUserId_key (Message off fromUserId fromUserName)) s
                then snd (closePeerConnection
                            (fromUserId_key (Message off fromUserId fromUserName)) s)
                else s)
      in (case handleOffer_listener (fromUserId_arg (Message off fromUserId fromUserName)) s1 of
            (Inl err, s2, out) \<Rightarrow> (Inr (), s2, out)
          | (Inr awaited, s2, out) \<Rightarrow> (Inr (), s2, out)))"
  by pat_completeness auto
termination
  by (relation "measure (\<lambda>(a, s). nesting a)") auto

text \<open>
  The listener for \<open>answer\<close>. It is not async and has no \<open>try\<close>: it logs and calls itself,
  the \<open>TypeError\<close> of the innermost call leaves every call, and the state is never touched.
\<close>

function handleAnswer_listener :: "listener_arg \<Rightarrow> client_state \<Rightarrow> (string + unit) \<times> client_state" where
  "handleAnswer_listener Undefined s = (Inl ''TypeError'', s)"
| "handleAnswer_listener (Text t) s = handleAnswer_listener (fromUserId_arg (Text t)) s"
| "handleAnswer_listener (Message ans fromUserId fromUserName) s =
     handleAnswer_listener (fromUserId_arg (Message ans fromUserId fromUserName)) s"
  by pat_completeness auto
termination
  by (relation "measure (\<lambda>(a, s). nesting a)") auto

text \<open>What the relay's messages \<open>offer\<close> and \<open>answer\<close> do to the component.\<close>

definition on_offer ::
  "description \<Rightarrow> peer_id \<Rightarrow> string option \<Rightarrow> client_state \<Rightarrow> client_state \<times> client_emit list" where
  "on_offer off fromUserId fromUserName s =
     snd (handleOffer_listener (Message off fromUserId fromUserName) s)"

definition on_answer :: "description \<Rightarrow> peer_id \<Rightarrow> client_state \<Rightarrow> client_state" where
  "on_answer ans fromUserId s = snd (handleAnswer_listener (Message ans fromUserId None) s)"

definition on_ice_candidate :: "browser \<Rightarrow> candidate \<Rightarrow> peer_id \<Rightarrow> client_state \<Rightarrow> client_state" where
  "on_ice_candidate b c fromUserId s = snd (addIceCandidate b fromUserId c s)"

definition on_user_left :: "peer_id \<Rightarrow> client_state \<Rightarrow> client_state" where
  "on_user_left userId s =
     (let s1 = snd (closePeerConnection userId s)
      in s1\<lparr>participants := filter (\<lambda>p. fst p \<noteq> userId) (participants s1)\<rparr>)"

text \<open>
  The callback that \<open>handleUserJoined\<close> schedules: a connection is created, an offer
  is made and, if there is one, sent. \<open>createOffer\<close> runs whether or not the creation
  succeeded.
\<close>

definition on_user_joined ::
  "browser \<Rightarrow> stream option \<Rightarrow> peer_id \<Rightarrow> client_state \<Rightarrow> client_state \<times> client_emit list" where
  "on_user_joined b localStream userId s =
     (if localStream = None then (s, [])
      else
        let s1 = snd (createPeerConnection b userId localStream s)
        in (case createOffer b userId s1 of
              (None, s2) \<Rightarrow> (s2, [])
            | (Some off, s2) \<Rightarrow> (s2, emit (EmitOffer off userId) s2)))"

subsection \<open>The engine as a transition system\<close>

text \<open>
  What can happen to a mounted component: a message from the relay, an event of a
  connection, a timer that fires, or a new stream for a peer.
\<close>

datatype client_event =
    GotUserJoined peer_id
  | GotOffer description peer_id "string option"
  | GotAnswer description peer_id
  | GotIceCandidate candidate peer_id
  | GotUserLeft peer_id
  | IceConnectionStateChange pc_ref string
  | ConnectionStateChange pc_ref string
  | TrackEvent pc_ref "stream option"
  | TimerFires timer_id
  | UpdateStream peer_id stream

fun client_step :: "browser \<Rightarrow> stream option \<Rightarrow> client_event \<Rightarrow> client_state \<Rightarrow> client_state" where
  "client_step b ls (GotUserJoined userId) s = fst (on_user_joined b ls userId s)"
| "client_step b ls (GotOffer off fromUserId fromUserName) s =
     fst (on_offer off fromUserId fromUserName s)"
| "client_step b ls (GotAnswer ans fromUserId) s = on_answer ans fromUserId s"
| "client_step b ls (GotIceCandidate c fromUserId) s = on_ice_candidate b c fromUserId s"
| "client_step b ls (GotUserLeft userId) s = on_user_left userId s"
| "client_step b ls (IceConnectionStateChange r st) s = oniceconnectionstatechange r st s"
| "client_step b ls (ConnectionStateChange r st) s = onconnectionstatechange r st s"
| "client_step b ls (TrackEvent r st) s = ontrack r st s"
| "client_step b ls (TimerFires tid) s = fire_timer tid s"
| "client_step b ls (UpdateStream peerId st) s = snd (updateStream b peerId st s)"

fun client_run :: "browser \<Rightarrow> stream option \<Rightarrow> client_event list \<Rightarrow> client_state \<Rightarrow> client_state" where
  "client_run b ls [] s = s"
| "client_run b ls (ev # evs) s = client_run b ls evs (client_step b ls ev s)"

text \<open>
  References and timer ids are handed out in increasing order: no connection object has a
  reference that is still to be allocated, and the timer ids stored in
  \<open>connectionTimeoutsRef\<close> are positive and were allocated before.
\<close>

definition client_wf :: "client_state \<Rightarrow> bool" where
  "client_wf s =
     ((\<forall>r. next_pc s \<le> r \<longrightarrow> pcs s r = None) \<and>
      0 < next_timer s \<and>
      (\<forall>k tid. connectionTimeoutsRef s k = Some tid \<longrightarrow> 0 < tid \<and> tid < next_timer s))"

text \<open>The peer has a connection whose remote description is set.\<close>

definition has_remote :: "client_state \<Rightarrow> peer_id \<Rightarrow> bool" where
  "has_remote s peerId =
     (case get_pc s peerId of None \<Rightarrow> False | Some (r, p) \<Rightarrow> remoteDescription p \<noteq> None)"

text \<open>Candidates delivered one after the other to \<open>addIceCandidate\<close>.\<close>

fun deliver :: "browser \<Rightarrow> peer_id \<Rightarrow> candidate list \<Rightarrow> client_state \<Rightarrow> client_state" where
  "deliver b peerId [] s = s"
| "deliver b peerId (c # cs) s = deliver b peerId cs (snd (addIceCandidate b peerId c s))"

text \<open>
  The candidates handed to \<open>pc.addIceCandidate\<close> of a connection so far, in order, and the
  number of \<open>restartIce\<close> calls made on it.
\<close>

definition attempted :: "pc \<Rightarrow> candidate list" where
  "attempted p = concat (map (\<lambda>(c, ok). case c of AddIceCandidate x \<Rightarrow> [x] | _ \<Rightarrow> []) (calls p))"

definition restarts :: "pc \<Rightarrow> nat" where
  "restarts p = length (filter (\<lambda>(c, ok). c = RestartIce) (calls p))"

text \<open>A browser in which every call succeeds.\<close>

definition ok_browser :: browser where
  "ok_browser =
     \<lparr>supported = True, construct_error = None,
      create_offer = (\<lambda>p. Inr ''v=0 offer''), create_answer = (\<lambda>p. Inr ''v=0 answer''),
      set_local = (\<lambda>p d. None), set_remote = (\<lambda>p d. None),
      add_candidate = (\<lambda>p c. None), add_track = (\<lambda>p t. None),
      replace_track = (\<lambda>p i t. None)\<rparr>"

subsection \<open>Senders by kind\<close>

definition has_kind :: "string \<Rightarrow> track option \<Rightarrow> bool" where
  "has_kind k s = (case s of None \<Rightarrow> False | Some t \<Rightarrow> track_kind t = k)"

text \<open>The number of senders whose track has the kind.\<close>

definition kind_count :: "string \<Rightarrow> track option list \<Rightarrow> nat" where
  "kind_count k ss = length (filter (has_kind k) ss)"

text \<open>
  What the loop of \<open>updateStream\<close> does to the senders when every \<open>replaceTrack\<close> and
  \<open>addTrack\<close> succeeds (\<open>replace_tracks_ok\<close> below).
\<close>

fun update_senders :: "nat \<Rightarrow> track list \<Rightarrow> track option list \<Rightarrow> track option list" where
  "update_senders n [] ss = ss"
| "update_senders n (t # ts) ss =
     (case find_sender (take n ss) (track_kind t) 0 of
        Some i \<Rightarrow> update_senders n ts (ss[i := Some t])
      | None \<Rightarrow> update_senders n ts (ss @ [Some t]))"

subsection \<open>Example runs of the engine\<close>

text \<open>
  \<open>n\<close> rounds of: the ICE connection state of the connection \<open>r\<close> reports \<open>failed\<close>, the
  timer that the handler set fires, and the state reports \<open>checking\<close>.
\<close>

fun ice_fail_cycles :: "nat \<Rightarrow> pc_ref \<Rightarrow> client_state \<Rightarrow> client_state" where
  "ice_fail_cycles 0 r s = s"
| "ice_fail_cycles (Suc n) r s =
     ice_fail_cycles n r
       (oniceconnectionstatechange r ''checking''
          (fire_timer (next_timer s) (oniceconnectionstatechange r ''failed'' s)))"

text \<open>Streams: a camera with a microphone, a microphone alone, a screen capture, and a
  stream with two video tracks.\<close>

definition camera :: stream where
  "camera =
     \<lparr>stream_id = ''cam'',
      stream_tracks = [\<lparr>track_id = ''mic'', track_kind = ''audio''\<rparr>,
                       \<lparr>track_id = ''cam'', track_kind = ''video''\<rparr>]\<rparr>"

definition mic_only :: stream where
  "mic_only = \<lparr>stream_id = ''mic'', stream_tracks = [\<lparr>track_id = ''mic'', track_kind = ''audio''\<rparr>]\<rparr>"

definition screen :: stream where
  "screen =
     \<lparr>stream_id = ''scr'',
      stream_tracks = [\<lparr>track_id = ''scr'', track_kind = ''video''\<rparr>]\<rparr>"

definition two_videos :: stream where
  "two_videos =
     \<lparr>stream_id = ''s1'',
      stream_tracks = [\<lparr>track_id = ''v1'', track_kind = ''video''\<rparr>,
                       \<lparr>track_id = ''v2'', track_kind = ''video''\<rparr>]\<rparr>"

definition an_answer :: description where
  "an_answer = \<lparr>desc_type = ''answer'', desc_sdp = ''v=0 remote answer''\<rparr>"

definition an_offer :: description where
  "an_offer = \<lparr>desc_type = ''offer'', desc_sdp = ''v=0 remote offer''\<rparr>"

text \<open>
  The peer \<open>q\<close> joined the room and was sent an offer; and the same after
  \<open>handleAnswer\<close> of \<open>usePeerConnection\<close> has been called with the answer of \<open>q\<close>.
\<close>

definition calling :: client_state where
  "calling = client_run ok_browser (Some camera) [GotUserJoined ''q''] init_client"

definition answered :: client_state where
  "answered = snd (handleAnswer ok_browser ''q'' an_answer calling)"

text \<open>
  The peer \<open>q\<close> joined, its answer arrived at the listener, and the ICE connection state of
  the connection to \<open>q\<close> reported \<open>checking\<close> and \<open>connected\<close>; the local stream is the
  camera, or the microphone alone.
\<close>

definition connected_peer :: client_state where
  "connected_peer =
     client_run ok_browser (Some camera)
       [GotUserJoined ''q'', GotAnswer an_answer ''q'',
        IceConnectionStateChange 0 ''checking'', IceConnectionStateChange 0 ''connected'']
       init_client"

definition audio_peer :: client_state where
  "audio_peer =
     client_run ok_browser (Some mic_only)
       [GotUserJoined ''q'', GotAnswer an_answer ''q'',
        IceConnectionStateChange 0 ''checking'', IceConnectionStateChange 0 ''connected'']
       init_client"

text \<open>
  On the negotiated connection of \<open>answered\<close>: the ICE connection state failed, the restart
  timer fired, the state went back to \<open>checking\<close> and failed again, and the second restart
  timer fired.
\<close>

definition twice_failed :: client_state where
  "twice_failed =
     client_run ok_browser (Some camera)
       [IceConnectionStateChange 0 ''checking'', IceConnectionStateChange 0 ''failed'',
        TimerFires 3,
        IceConnectionStateChange 0 ''checking'', IceConnectionStateChange 0 ''failed'',
        TimerFires 4]
       answered"

text \<open>
  A browser whose \<open>createOffer\<close> fails, and the same two rounds of failure on the
  connection that the listener for \<open>user-joined\<close> then leaves: it was created, no offer was
  made, and its signaling state is still \<open>stable\<close>.
\<close>

definition no_offer_browser :: browser where
  "no_offer_browser = ok_browser\<lparr>create_offer := (\<lambda>p. Inl ''OperationError'')\<rparr>"

definition twice_failed_unoffered :: client_state where
  "twice_failed_unoffered =
     client_run no_offer_browser (Some camera)
       [GotUserJoined ''q'',
        IceConnectionStateChange 0 ''checking'', IceConnectionStateChange 0 ''failed'',
        TimerFires 2,
        IceConnectionStateChange 0 ''checking'', IceConnectionStateChange 0 ''failed'',
        TimerFires 3]
       init_client"

text \<open>A browser whose \<open>createAnswer\<close> fails.\<close>

definition no_answer_browser :: browser where
  "no_answer_browser = ok_browser\<lparr>create_answer := (\<lambda>p. Inl ''OperationError'')\<rparr>"

text \<open>
  Two candidates of the peer \<open>q\<close> arrived before its offer, when there was no connection
  to \<open>q\<close>; and two candidates of \<open>q\<close> arrived after \<open>q\<close> had been sent an offer.
\<close>

definition early_candidates :: client_state where
  "early_candidates =
     client_run ok_browser (Some camera)
       [GotIceCandidate ''c1'' ''q'', GotIceCandidate ''c2'' ''q''] init_client"

definition glare :: client_state where
  "glare =
     client_run ok_browser (Some camera)
       [GotUserJoined ''q'', GotIceCandidate ''c1'' ''q'', GotIceCandidate ''c2'' ''q'']
       init_client"

section \<open>Properties of the relay and the registry\<close>

lemmas handler_defs = join_room_def handleUserLeave_def leave_room_of_def leave_room_def
  disconnect_def connection_def offer_def answer_def ice_candidate_def users_get_def truthy_def
  keys_set_def keys_delete_def existingUsersInRoom_def room_values_def can_relay_def step_def
  enabled_def init_state_def leave_old_room_def update_user_def init_room_def admit_def
  List.map_filter_def Let_def

subsection \<open>Leaving a room\<close>

lemma leave_room_of_objs: "objs (fst (leave_room_of now sid s)) = objs s"
  by (simp add: leave_room_of_def Let_def split: option.splits)

lemma leave_room_of_rooms:
  "rooms (fst (leave_room_of now sid s)) rid = Some r' \<Longrightarrow>
   \<exists>r. rooms s rid = Some r \<and>
       (r' = r \<or> (r' = r\<lparr>room_users := keys_delete (room_users r) sid\<rparr> \<and> room_users r' \<noteq> []))"
  by (auto simp: leave_room_of_def Let_def split: option.splits if_splits)

lemma leave_room_of_other:
  "users_get s sid = Some u \<Longrightarrow> user_roomId u \<noteq> Some rid \<Longrightarrow>
   rooms (fst (leave_room_of now sid s)) rid = rooms s rid"
  by (auto simp: leave_room_of_def Let_def split: option.splits if_splits)

lemma leave_room_of_no_joined: "filter is_joined_room (snd (leave_room_of now sid s)) = []"
  by (simp add: leave_room_of_def Let_def split: option.splits)

lemma handleUserLeave_objs: "objs (fst (handleUserLeave now sid s)) = objs s"
  by (simp add: handleUserLeave_def split_beta leave_room_of_objs)

lemma handleUserLeave_rooms:
  "rooms (fst (handleUserLeave now sid s)) = rooms (fst (leave_room_of now sid s))"
  by (simp add: handleUserLeave_def split_beta)

lemma handleUserLeave_no_joined: "filter is_joined_room (snd (handleUserLeave now sid s)) = []"
  by (simp add: handleUserLeave_def split_beta leave_room_of_no_joined)

lemma wf_leave_room_of:
  assumes "wf_state s"
  shows "wf_state (fst (leave_room_of now sid s))"
  unfolding wf_state_def
proof (intro conjI allI impI)
  fix k u assume "objs (fst (leave_room_of now sid s)) k = Some u"
  with assms show "user_id u = k" by (simp add: leave_room_of_objs wf_state_def)
next
  fix rid r' assume r': "rooms (fst (leave_room_of now sid s)) rid = Some r'"
  from leave_room_of_rooms[OF r'] obtain r where r: "rooms s rid = Some r"
    and sub: "set (room_users r') \<subseteq> set (room_users r)"
    and d: "distinct (room_users r) \<longrightarrow> distinct (room_users r')"
    by (auto simp: keys_delete_def)
  from assms r have "distinct (room_users r)" and "\<forall>k \<in> set (room_users r). objs s k \<noteq> None"
    unfolding wf_state_def by blast+
  with sub d show "distinct (room_users r')"
    and "\<forall>k\<in>set (room_users r'). objs (fst (leave_room_of now sid s)) k \<noteq> None"
    by (auto simp: leave_room_of_objs)
qed

lemma wf_handleUserLeave: "wf_state s \<Longrightarrow> wf_state (fst (handleUserLeave now sid s))"
  using wf_leave_room_of[of s now sid]
  by (simp add: handleUserLeave_def split_beta wf_state_def)

lemma ne_leave_room_of: "no_empty_room s \<Longrightarrow> no_empty_room (fst (leave_room_of now sid s))"
  unfolding no_empty_room_def
  using leave_room_of_rooms[of now sid s] by fastforce

lemma ne_handleUserLeave: "no_empty_room s \<Longrightarrow> no_empty_room (fst (handleUserLeave now sid s))"
  using ne_leave_room_of[of s now sid]
  by (simp add: handleUserLeave_def split_beta no_empty_room_def)

subsection \<open>join-room, block by block\<close>

lemma leave_old_room_objs: "objs (fst (leave_old_room now sid u roomId s)) = objs s"
  by (simp add: leave_old_room_def split_beta handleUserLeave_objs split: option.splits)

lemma leave_old_room_target:
  "users_get s sid = Some u \<Longrightarrow> rooms (fst (leave_old_room now sid u roomId s)) roomId = rooms s roomId"
  by (auto simp: leave_old_room_def split_beta handleUserLeave_rooms leave_room_of_other split: option.splits)

lemma leave_old_room_no_joined: "filter is_joined_room (snd (leave_old_room now sid u roomId s)) = []"
  by (simp add: leave_old_room_def split_beta handleUserLeave_no_joined split: option.splits)

lemma wf_leave_old_room: "wf_state s \<Longrightarrow> wf_state (fst (leave_old_room now sid u roomId s))"
  by (simp add: leave_old_room_def split_beta wf_handleUserLeave split: option.splits)

lemma ne_leave_old_room: "no_empty_room s \<Longrightarrow> no_empty_room (fst (leave_old_room now sid u roomId s))"
  by (simp add: leave_old_room_def split_beta ne_handleUserLeave split: option.splits)

lemma join_room_unfold:
  assumes "users_get s sid = Some u"
  shows "join_room now sid roomId userName rt s =
     (let roomType = (case rt of None \<Rightarrow> ''video'' | Some t \<Rightarrow> t);
          l = leave_old_room now sid u roomId s;
          u' = update_user u roomId userName roomType;
          s2 = (fst l)\<lparr>objs := (objs (fst l))(sid \<mapsto> u'), users := insert sid (users (fst l))\<rparr>;
          i = init_room now roomId roomType s2;
          a = admit sid roomId u' (fst i)
      in (fst a, snd l @ [SocketJoin sid roomId] @ snd i @ snd a))"
  using assms by (simp add: join_room_def Let_def split_beta)

lemma init_room_rooms:
  "rooms (fst (init_room now roomId roomType s)) =
     (case rooms s roomId of
        None \<Rightarrow> (rooms s)(roomId \<mapsto> \<lparr>room_id = roomId, room_users = [], room_createdAt = now,
                 room_roomType = roomType, room_webrtcConfig = getWebRTCConfig\<rparr>)
      | Some r \<Rightarrow> rooms s)"
  by (auto simp: init_room_def split: option.splits)

lemma init_room_objs: "objs (fst (init_room now roomId roomType s)) = objs s"
  by (simp add: init_room_def)

lemma init_room_no_joined: "filter is_joined_room (snd (init_room now roomId roomType s)) = []"
  by (simp add: init_room_def)

lemma init_room_members: "members_of (fst (init_room now roomId roomType s)) roomId = members_of s roomId"
  by (simp add: members_of_def init_room_rooms split: option.splits)

lemma init_room_exists: "rooms (fst (init_room now roomId roomType s)) roomId \<noteq> None"
  by (simp add: init_room_rooms split: option.splits)

lemma wf_init_room: "wf_state s \<Longrightarrow> wf_state (fst (init_room now roomId roomType s))"
  by (auto simp: init_room_def wf_state_def)

lemma admit_rooms:
  "rooms s roomId = Some r \<Longrightarrow>
   rooms (fst (admit sid roomId u s)) = (rooms s)(roomId \<mapsto> r\<lparr>room_users := keys_set (room_users r) sid\<rparr>)"
  by (simp add: admit_def Let_def)

lemma admit_objs: "objs (fst (admit sid roomId u s)) = objs s"
  by (simp add: admit_def Let_def split: option.splits)

lemma keys_set_ne: "keys_set ks k \<noteq> []"
  by (simp add: keys_set_def) auto

lemma keys_set_distinct: "distinct ks \<Longrightarrow> distinct (keys_set ks k)"
  by (simp add: keys_set_def)

lemma keys_set_set: "set (keys_set ks k) = insert k (set ks)"
  by (auto simp: keys_set_def)

lemma wf_admit:
  "wf_state s \<Longrightarrow> objs s sid \<noteq> None \<Longrightarrow> wf_state (fst (admit sid roomId u s))"
  by (auto simp: admit_def Let_def wf_state_def keys_set_distinct keys_set_set split: option.splits)

lemma wf_join_room: 
  assumes "wf_state s"
  shows "wf_state (fst (join_room now sid roomId userName rt s))"
proof (cases "users_get s sid")
  case None
  with assms show ?thesis by (simp add: join_room_def)
next
  case (Some u)
  define roomType where "roomType = (case rt of None \<Rightarrow> ''video'' | Some t \<Rightarrow> t)"
  define l where "l = leave_old_room now sid u roomId s"
  define u' where "u' = update_user u roomId userName roomType"
  define s2 where "s2 = (fst l)\<lparr>objs := (objs (fst l))(sid \<mapsto> u'), users := insert sid (users (fst l))\<rparr>"
  have uid: "user_id u = sid" using Some assms by (auto simp: users_get_def wf_state_def split: if_splits)
  have "wf_state (fst l)" unfolding l_def using assms by (rule wf_leave_old_room)
  then have "wf_state s2"
    unfolding s2_def u'_def update_user_def using uid by (auto simp: wf_state_def)
  then have "wf_state (fst (init_room now roomId roomType s2))" by (rule wf_init_room)
  moreover have "objs (fst (init_room now roomId roomType s2)) sid \<noteq> None"
    by (simp add: init_room_objs s2_def)
  ultimately have "wf_state (fst (admit sid roomId u' (fst (init_room now roomId roomType s2))))"
    by (rule wf_admit)
  then show ?thesis
    by (simp add: join_room_unfold[OF Some] Let_def roomType_def l_def u'_def s2_def)
qed

lemma ne_join_room: 
  assumes "no_empty_room s"
  shows "no_empty_room (fst (join_room now sid roomId userName rt s))"
proof (cases "users_get s sid")
  case None
  with assms show ?thesis by (simp add: join_room_def)
next
  case (Some u)
  define roomType where "roomType = (case rt of None \<Rightarrow> ''video'' | Some t \<Rightarrow> t)"
  define l where "l = leave_old_room now sid u roomId s"
  define u' where "u' = update_user u roomId userName roomType"
  define s2 where "s2 = (fst l)\<lparr>objs := (objs (fst l))(sid \<mapsto> u'), users := insert sid (users (fst l))\<rparr>"
  define s3 where "s3 = fst (init_room now roomId roomType s2)"
  have "no_empty_room (fst l)" unfolding l_def using assms by (rule ne_leave_old_room)
  then have ne2: "no_empty_room s2" by (simp add: s2_def no_empty_room_def)
  obtain r where r: "rooms s3 roomId = Some r" using init_room_exists[of now roomId roomType s2]
    by (auto simp: s3_def)
  have other: "\<And>rid r'. rid \<noteq> roomId \<Longrightarrow> rooms s3 rid = Some r' \<Longrightarrow> room_users r' \<noteq> []"
    using ne2 by (auto simp: s3_def init_room_rooms no_empty_room_def split: option.splits)
  have "no_empty_room (fst (admit sid roomId u' s3))"
    unfolding no_empty_room_def using other
    by (auto simp: admit_rooms[OF r] keys_set_ne)
  then show ?thesis
    by (simp add: join_room_unfold[OF Some] Let_def roomType_def l_def u'_def s2_def s3_def)
qed

subsection \<open>Every handler keeps the invariants\<close>

lemma wf_handle: "wf_state s \<Longrightarrow> wf_state (fst (handle now ev s))"
proof (cases ev)
  case (Connection sid ip)
  assume "wf_state s"
  then show ?thesis using Connection by (auto simp: connection_def wf_state_def)
next
  case (JoinRoom sid roomId userName rt)
  assume "wf_state s" then show ?thesis using JoinRoom by (simp add: wf_join_room)
next
  case (OfferEv sid p t)
  assume "wf_state s" then show ?thesis using OfferEv
    by (auto simp: offer_def wf_state_def split: option.splits)
next
  case (AnswerEv sid p t)
  assume "wf_state s" then show ?thesis using AnswerEv
    by (auto simp: answer_def wf_state_def split: option.splits)
next
  case (IceCandidateEv sid p t)
  assume "wf_state s" then show ?thesis using IceCandidateEv
    by (auto simp: ice_candidate_def split: option.splits)
next
  case (GetWebrtcConfig sid)
  assume "wf_state s" then show ?thesis using GetWebrtcConfig by (simp add: get_webrtc_config_def)
next
  case (ConnectionStatus sid st)
  assume "wf_state s" then show ?thesis using ConnectionStatus
    by (auto simp: connection_status_def wf_state_def Let_def split: option.splits)
next
  case (MediaStateChange sid a v sc)
  assume "wf_state s" then show ?thesis using MediaStateChange
    by (auto simp: media_state_change_def wf_state_def users_get_def split: option.splits if_splits)
next
  case (AudioToggle sid b)
  assume "wf_state s" then show ?thesis using AudioToggle
    by (auto simp: audio_toggle_def wf_state_def users_get_def split: option.splits if_splits)
next
  case (VideoToggle sid b)
  assume "wf_state s" then show ?thesis using VideoToggle
    by (auto simp: video_toggle_def wf_state_def users_get_def split: option.splits if_splits)
next
  case (ChatMessageEv sid m r)
  assume "wf_state s" then show ?thesis using ChatMessageEv
    by (auto simp: chat_message_def split: option.splits)
next
  case (LeaveRoom sid)
  assume "wf_state s" then show ?thesis using LeaveRoom by (simp add: leave_room_def wf_handleUserLeave)
next
  case (Disconnect sid)
  assume "wf_state s"
  then have "wf_state (s\<lparr>sockets := sockets s - {sid}\<rparr>)" by (simp add: wf_state_def)
  then show ?thesis using Disconnect by (simp add: disconnect_def wf_handleUserLeave)
next
  case (ConnectionTest sid d)
  assume "wf_state s" then show ?thesis using ConnectionTest by (simp add: connection_test_def)
qed

lemma ne_handle: "no_empty_room s \<Longrightarrow> no_empty_room (fst (handle now ev s))"
proof (cases ev)
  case (Connection sid ip)
  assume "no_empty_room s"
  then show ?thesis using Connection by (auto simp: connection_def no_empty_room_def)
next
  case (JoinRoom sid roomId userName rt)
  assume "no_empty_room s" then show ?thesis using JoinRoom by (simp add: ne_join_room)
next
  case (OfferEv sid p t)
  assume "no_empty_room s" then show ?thesis using OfferEv
    by (auto simp: offer_def no_empty_room_def split: option.splits)
next
  case (AnswerEv sid p t)
  assume "no_empty_room s" then show ?thesis using AnswerEv
    by (auto simp: answer_def no_empty_room_def split: option.splits)
next
  case (IceCandidateEv sid p t)
  assume "no_empty_room s" then show ?thesis using IceCandidateEv
    by (auto simp: ice_candidate_def split: option.splits)
next
  case (GetWebrtcConfig sid)
  assume "no_empty_room s" then show ?thesis using GetWebrtcConfig by (simp add: get_webrtc_config_def)
next
  case (ConnectionStatus sid st)
  assume "no_empty_room s" then show ?thesis using ConnectionStatus
    by (auto simp: connection_status_def no_empty_room_def Let_def split: option.splits)
next
  case (MediaStateChange sid a v sc)
  assume "no_empty_room s" then show ?thesis using MediaStateChange
    by (auto simp: media_state_change_def no_empty_room_def split: option.splits if_splits)
next
  case (AudioToggle sid b)
  assume "no_empty_room s" then show ?thesis using AudioToggle
    by (auto simp: audio_toggle_def no_empty_room_def split: option.splits if_splits)
next
  case (VideoToggle sid b)
  assume "no_empty_room s" then show ?thesis using VideoToggle
    by (auto simp: video_toggle_def no_empty_room_def split: option.splits if_splits)
next
  case (ChatMessageEv sid m r)
  assume "no_empty_room s" then show ?thesis using ChatMessageEv
    by (auto simp: chat_message_def split: option.splits)
next
  case (LeaveRoom sid)
  assume "no_empty_room s" then show ?thesis using LeaveRoom by (simp add: leave_room_def ne_handleUserLeave)
next
  case (Disconnect sid)
  assume "no_empty_room s"
  then have "no_empty_room (s\<lparr>sockets := sockets s - {sid}\<rparr>)" by (simp add: no_empty_room_def)
  then show ?thesis using Disconnect by (simp add: disconnect_def ne_handleUserLeave)
next
  case (ConnectionTest sid d)
  assume "no_empty_room s" then show ?thesis using ConnectionTest by (simp add: connection_test_def)
qed

lemma wf_step: "wf_state s \<Longrightarrow> wf_state (fst (step now ev s))"
  by (simp add: step_def wf_handle)

lemma ne_step: "no_empty_room s \<Longrightarrow> no_empty_room (fst (step now ev s))"
  by (simp add: step_def ne_handle)

lemma wf_run: "wf_state s \<Longrightarrow> wf_state (run evs s)"
  by (induction evs arbitrary: s) (auto simp: wf_step)

lemma ne_run: "no_empty_room s \<Longrightarrow> no_empty_room (run evs s)"
  by (induction evs arbitrary: s) (auto simp: ne_step)

lemma wf_init: "wf_state init_state"
  by (simp add: wf_state_def init_state_def)

lemma ne_init: "no_empty_room init_state"
  by (simp add: no_empty_room_def init_state_def)

subsection \<open>The member list of a \<open>joined-room\<close> reply\<close>

lemma values_ids:
  assumes "\<forall>k u. m k = Some u \<longrightarrow> user_id u = k" and "\<forall>k \<in> set ks. m k \<noteq> None"
  shows "map user_id (filter (\<lambda>u. user_id u \<noteq> sid) (List.map_filter m ks)) = filter (\<lambda>k. k \<noteq> sid) ks"
  using assms(2)
proof (induction ks)
  case Nil
  then show ?case by (simp add: List.map_filter_def)
next
  case (Cons k ks)
  then obtain u where u: "m k = Some u" by auto
  with assms(1) have "user_id u = k" by blast
  with Cons u show ?case by (simp add: List.map_filter_def)
qed

lemma existing_ids:
  assumes "wf_state s" and "rooms s rid = Some r"
  shows "map info_id (existingUsersInRoom s r sid) = filter (\<lambda>k. k \<noteq> sid) (room_users r)"
proof -
  from assms have 1: "\<forall>k u. objs s k = Some u \<longrightarrow> user_id u = k"
    and 2: "\<forall>k \<in> set (room_users r). objs s k \<noteq> None"
    unfolding wf_state_def by blast+
  show ?thesis
    using values_ids[OF 1 2, of sid]
    by (simp add: existingUsersInRoom_def room_values_def comp_def)
qed

lemma admit_reply:
  assumes "rooms s roomId = Some r"
  shows "filter is_joined_room (snd (admit sid roomId u s)) =
           [SocketEmit sid (JoinedRoom roomId sid (user_name u) (room_roomType r)
                              (existingUsersInRoom s r sid) getWebRTCConfig)]"
  using assms by (simp add: admit_def Let_def)

subsection \<open>Facts about the example runs\<close>

lemma last_leaves_members: "members_of (run last_leaves init_state) ''abc'' = [''b'']"
  by (simp add: last_leaves_def members_of_def handler_defs)

lemma last_leaves_disconnect:
  "rooms (fst (handle 6 (Disconnect ''b'') (run last_leaves init_state))) ''abc'' = None"
  by (simp add: last_leaves_def members_of_def handler_defs)

lemma last_leaves_no_record: "''a'' \<notin> users (run last_leaves init_state)"
  by (simp add: last_leaves_def handler_defs)

lemma last_leaves_connected: "''a'' \<in> sockets (run last_leaves init_state)"
  by (simp add: last_leaves_def handler_defs)

lemma third_joins_reply:
  "filter is_joined_room (snd (join_room 6 ''c'' ''abc'' ''Cy'' None (run third_joins init_state))) =
   [SocketEmit ''c'' (JoinedRoom ''abc'' ''c'' (Some ''Cy'') ''video''
      [\<lparr>info_id = ''a'', info_name = Some ''Ann'', info_isAudioEnabled = True,
        info_isVideoEnabled = True\<rparr>,
       \<lparr>info_id = ''b'', info_name = Some ''Bob'', info_isAudioEnabled = True,
        info_isVideoEnabled = True\<rparr>]
      getWebRTCConfig)]"
  by (simp add: third_joins_def handler_defs)

lemma third_joins_members: "members_of (run third_joins init_state) ''abc'' = [''a'', ''b'']"
  by (simp add: third_joins_def members_of_def handler_defs)

lemma third_joins_c: "map_option user_id (users_get (run third_joins init_state) ''c'') = Some ''c''"
  by (simp add: third_joins_def handler_defs)


subsection \<open>The claims about the relay\<close>




text \<open>
  \<^bold>\<open>C3\<close>. In a well-formed registry, a \<open>join-room\<close> from a user with a user record
  makes exactly one \<open>joined-room\<close> reply, to the joining socket; the ids of its \<open>users\<close>
  list are the members the room had before the join, in their order, without the joining
  user and without duplicates (none when the room did not exist); and the room exists
  afterwards.
\<close>

theorem joined_room_lists_prior_members:
  assumes "wf_state s" and "users_get s sid = Some u"
  shows "\<exists>rtype L.
           filter is_joined_room (snd (join_room now sid roomId userName rt s)) =
             [SocketEmit sid (JoinedRoom roomId sid (Some userName) rtype L getWebRTCConfig)] \<and>
           map info_id L = filter (\<lambda>k. k \<noteq> sid) (members_of s roomId) \<and>
           set (map info_id L) = set (members_of s roomId) - {sid} \<and>
           distinct (map info_id L) \<and>
           rooms (fst (join_room now sid roomId userName rt s)) roomId \<noteq> None"
proof -
  define roomType where "roomType = (case rt of None \<Rightarrow> ''video'' | Some t \<Rightarrow> t)"
  define l where "l = leave_old_room now sid u roomId s"
  define u' where "u' = update_user u roomId userName roomType"
  define s2 where "s2 = (fst l)\<lparr>objs := (objs (fst l))(sid \<mapsto> u'), users := insert sid (users (fst l))\<rparr>"
  define s3 where "s3 = fst (init_room now roomId roomType s2)"
  have jr: "join_room now sid roomId userName rt s =
        (fst (admit sid roomId u' s3),
         snd l @ [SocketJoin sid roomId] @ snd (init_room now roomId roomType s2) @ snd (admit sid roomId u' s3))"
    by (simp add: join_room_unfold[OF assms(2)] Let_def roomType_def l_def u'_def s2_def s3_def)
  have uid: "user_id u = sid"
    using assms by (auto simp: users_get_def wf_state_def split: if_splits)
  have "wf_state (fst l)" unfolding l_def using assms(1) by (rule wf_leave_old_room)
  then have "wf_state s2"
    unfolding s2_def u'_def update_user_def using uid by (auto simp: wf_state_def)
  then have wf3: "wf_state s3" unfolding s3_def by (rule wf_init_room)
  have "rooms s2 roomId = rooms s roomId"
    by (simp add: s2_def l_def leave_old_room_target[OF assms(2)])
  then have "members_of s2 roomId = members_of s roomId" by (simp add: members_of_def)
  then have mem: "members_of s3 roomId = members_of s roomId"
    by (simp add: s3_def init_room_members)
  obtain r where r: "rooms s3 roomId = Some r"
    using init_room_exists[of now roomId roomType s2] by (auto simp: s3_def)
  have ru: "room_users r = members_of s roomId" using mem r by (simp add: members_of_def)
  have dist: "distinct (room_users r)" using wf3 r unfolding wf_state_def by blast
  let ?L = "existingUsersInRoom s3 r sid"
  have ids: "map info_id ?L = filter (\<lambda>k. k \<noteq> sid) (members_of s roomId)"
    using existing_ids[OF wf3 r, of sid] ru by simp
  have flt: "filter is_joined_room (snd (join_room now sid roomId userName rt s)) =
      [SocketEmit sid (JoinedRoom roomId sid (Some userName) (room_roomType r) ?L getWebRTCConfig)]"
    by (simp add: jr l_def leave_old_room_no_joined init_room_no_joined admit_reply[OF r]
        u'_def update_user_def)
  have ex: "rooms (fst (join_room now sid roomId userName rt s)) roomId \<noteq> None"
    by (simp add: jr admit_rooms[OF r])
  have st: "set (map info_id ?L) = set (members_of s roomId) - {sid}"
    unfolding ids by auto
  have di: "distinct (map info_id ?L)"
    unfolding ids using dist ru by simp
  from flt ids st di ex show ?thesis by blast
qed

theorem joined_room_lists_prior_members_witness:
  "wf_state (run third_joins init_state) \<and>
   users_get (run third_joins init_state) ''c'' \<noteq> None \<and>
   members_of (run third_joins init_state) ''abc'' = [''a'', ''b''] \<and>
   filter is_joined_room (snd (join_room 6 ''c'' ''abc'' ''Cy'' None (run third_joins init_state))) =
     [SocketEmit ''c'' (JoinedRoom ''abc'' ''c'' (Some ''Cy'') ''video''
        [\<lparr>info_id = ''a'', info_name = Some ''Ann'', info_isAudioEnabled = True,
          info_isVideoEnabled = True\<rparr>,
         \<lparr>info_id = ''b'', info_name = Some ''Bob'', info_isAudioEnabled = True,
          info_isVideoEnabled = True\<rparr>]
        getWebRTCConfig)]"
proof -
  have wf: "wf_state (run third_joins init_state)" by (rule wf_run[OF wf_init])
  obtain u where u: "users_get (run third_joins init_state) ''c'' = Some u"
    using third_joins_c by auto
  from joined_room_lists_prior_members[OF wf u, of 6 "''abc''" "''Cy''" None]
  show ?thesis using wf u by (simp add: third_joins_reply third_joins_members)
qed

text \<open>
  \<^bold>\<open>C4\<close>. Whatever events the relay has handled since it started, no room of the
  \<open>rooms\<close> table has an empty user map, and this is again so after any further handler
  has run (\<open>join-room\<close>, \<open>leave-room\<close> and \<open>disconnect\<close> among them): the handler that
  removes the last member of a room deletes the room.
\<close>

theorem no_empty_room_persists:
  "no_empty_room (run evs init_state) \<and>
   no_empty_room (fst (handle now ev (run evs init_state)))"
  using ne_run[OF ne_init, of evs] by (simp add: ne_handle)

theorem no_empty_room_persists_witness:
  "members_of (run last_leaves init_state) ''abc'' = [''b''] \<and>
   rooms (fst (handle 6 (Disconnect ''b'') (run last_leaves init_state))) ''abc'' = None \<and>
   no_empty_room (run last_leaves init_state) \<and>
   no_empty_room (fst (handle 6 (Disconnect ''b'') (run last_leaves init_state)))"
  using no_empty_room_persists[of last_leaves 6 "Disconnect ''b''"]
    last_leaves_members last_leaves_disconnect
  by simp

text \<open>
  \<^bold>\<open>C9\<close>. A \<open>join-room\<close> from a socket with no user record emits one \<open>error\<close>
  message, to that socket, and nothing else, and leaves the whole state of the relay as it
  was: no room is created, no membership changes, and the socket stays connected, so the
  request can be sent again.
\<close>

theorem join_without_user_record:
  "sid \<notin> users s \<Longrightarrow>
   join_room now sid roomId userName roomType s =
     (s, [SocketEmit sid (ErrorMsg ''User data not initialized. Please refresh.'')])"
  by (simp add: join_room_def users_get_def)

theorem join_without_user_record_witness:
  "''a'' \<in> sockets (run last_leaves init_state) \<and> ''a'' \<notin> users (run last_leaves init_state) \<and>
   join_room 6 ''a'' ''abc'' ''Ann'' None (run last_leaves init_state) =
     (run last_leaves init_state,
      [SocketEmit ''a'' (ErrorMsg ''User data not initialized. Please refresh.'')])"
  using join_without_user_record[OF last_leaves_no_record, of 6 "''abc''" "''Ann''" None]
    last_leaves_no_record last_leaves_connected
  by simp

text \<open>
  \<^bold>\<open>C10\<close>. An \<open>offer\<close>, \<open>answer\<close> or \<open>ice-candidate\<close> from a socket with no entry in
  the \<open>users\<close> table does nothing: no emission to anyone, and the state is unchanged.
\<close>

theorem relay_ignores_unregistered_sender:
  "sid \<notin> users s \<Longrightarrow>
   offer now sid p t s = (s, []) \<and> answer now sid p t s = (s, []) \<and>
   ice_candidate now sid p t s = (s, [])"
  by (simp add: offer_def answer_def ice_candidate_def users_get_def)

theorem relay_ignores_unregistered_sender_witness:
  "''a'' \<notin> users (run last_leaves init_state) \<and>
   offer 6 ''a'' ''sdp'' ''b'' (run last_leaves init_state) = (run last_leaves init_state, []) \<and>
   answer 6 ''a'' ''sdp'' ''b'' (run last_leaves init_state) = (run last_leaves init_state, []) \<and>
   ice_candidate 6 ''a'' ''cand'' ''b'' (run last_leaves init_state) =
     (run last_leaves init_state, [])"
  using relay_ignores_unregistered_sender[OF last_leaves_no_record, of 6 "''sdp''" "''b''"]
    relay_ignores_unregistered_sender[OF last_leaves_no_record, of 6 "''cand''" "''b''"]
    last_leaves_no_record
  by simp

section \<open>Properties of the negotiation engine\<close>

lemmas client_defs = createPeerConnection_def createOffer_def handleOffer_def answer_offer_def
  handleAnswer_def addIceCandidate_def processIceCandidateQueue_def closePeerConnection_def
  updateStream_def hasPeerConnection_def oniceconnectionstatechange_def
  onconnectionstatechange_def ontrack_def fire_timer_def on_offer_def emit_def
  get_pc_def put_pc_def queue_of_def setTimeout_def clearTimeout_def clear_timeout_entry_def
  pc_close_def pc_addTrack_def pc_replaceTrack_def pc_createOffer_def pc_createAnswer_def
  pc_setLocalDescription_def pc_setRemoteDescription_def pc_addIceCandidate_def
  pc_restartIce_def log_call_def new_pc_def init_client_def ok_browser_def has_remote_def
  attempted_def restarts_def local_tracks_def
  on_user_joined_def on_answer_def on_ice_candidate_def on_user_left_def
  CONNECTION_TIMEOUT_def ICE_GATHERING_TIMEOUT_def Let_def

lemma restarts_ice_state: "restarts (p\<lparr>iceConnectionState := x\<rparr>) = restarts p"
  by (simp add: restarts_def)

lemma restarts_restartIce: "restarts (pc_restartIce p) = Suc (restarts p)"
  by (simp add: restarts_def pc_restartIce_def log_call_def)

lemma ice_failed_step:
  assumes "pcs s r = Some p"
  shows "oniceconnectionstatechange r ''failed'' s =
           s\<lparr>pcs := (pcs s)(r \<mapsto> p\<lparr>iceConnectionState := ''failed''\<rparr>),
             connectionStatus := (connectionStatus s)(peer p \<mapsto> ''failed''),
             timers := (timers s)(next_timer s \<mapsto> \<lparr>timer_delay = 1000, timer_action = IceRestart r\<rparr>),
             next_timer := Suc (next_timer s)\<rparr>"
  using assms by (simp add: oniceconnectionstatechange_def Let_def put_pc_def setTimeout_def)

lemma fire_restart:
  assumes "timers s tid = Some \<lparr>timer_delay = d, timer_action = IceRestart r\<rparr>" and "pcs s r = Some p"
  shows "fire_timer tid s =
           s\<lparr>timers := (timers s)(tid := None),
             pcs := (if signalingState p = ''stable'' then (pcs s)(r \<mapsto> pc_restartIce p) else pcs s)\<rparr>"
  using assms by (simp add: fire_timer_def Let_def put_pc_def)

lemma one_cycle:
  assumes "pcs s r = Some p" and "signalingState p = ''stable''"
  shows "\<exists>p'. pcs (ice_fail_cycles (Suc 0) r s) r = Some p' \<and> signalingState p' = ''stable'' \<and>
              restarts p' = Suc (restarts p)"
proof -
  let ?s1 = "oniceconnectionstatechange r ''failed'' s"
  let ?p1 = "p\<lparr>iceConnectionState := ''failed''\<rparr>"
  have t1: "timers ?s1 (next_timer s) = Some \<lparr>timer_delay = 1000, timer_action = IceRestart r\<rparr>"
    and p1: "pcs ?s1 r = Some ?p1"
    by (simp_all add: ice_failed_step[OF assms(1)])
  have st: "signalingState ?p1 = ''stable''" using assms(2) by simp
  let ?s2 = "fire_timer (next_timer s) ?s1"
  have p2: "pcs ?s2 r = Some (pc_restartIce ?p1)"
    by (simp add: fire_restart[OF t1 p1] st)
  show ?thesis
    using p2 assms(2)
    by (simp add: oniceconnectionstatechange_def Let_def put_pc_def restarts_restartIce
        restarts_ice_state pc_restartIce_def log_call_def restarts_def)
qed

lemma many_cycles:
  assumes "pcs s r = Some p" and "signalingState p = ''stable''"
  shows "\<exists>p'. pcs (ice_fail_cycles n r s) r = Some p' \<and> signalingState p' = ''stable'' \<and>
              restarts p' = restarts p + n"
  using assms
proof (induction n arbitrary: s p)
  case 0
  then show ?case by simp
next
  case (Suc n)
  from one_cycle[OF Suc.prems] obtain p1 where
    p1: "pcs (ice_fail_cycles (Suc 0) r s) r = Some p1" "signalingState p1 = ''stable''"
        "restarts p1 = Suc (restarts p)" by blast
  from Suc.IH[OF p1(1,2)] obtain p' where
    "pcs (ice_fail_cycles n r (ice_fail_cycles (Suc 0) r s)) r = Some p'"
    "signalingState p' = ''stable''" "restarts p' = restarts p1 + n" by blast
  then show ?case using p1(3) by (intro exI[of _ p']) simp
qed

subsection \<open>The candidate queue\<close>

lemma attempted_log_call:
  "attempted (log_call c ok p) = attempted p @ (case c of AddIceCandidate x \<Rightarrow> [x] | _ \<Rightarrow> [])"
  by (simp add: attempted_def log_call_def)

lemma pc_addIceCandidate_attempted: "attempted (snd (pc_addIceCandidate b c p)) = attempted p @ [c]"
  by (simp add: pc_addIceCandidate_def attempted_log_call split: option.splits)

lemma pc_addIceCandidate_remote:
  "remoteDescription (snd (pc_addIceCandidate b c p)) = remoteDescription p"
  by (simp add: pc_addIceCandidate_def log_call_def split: option.splits)

lemma add_queued_attempted: "attempted (add_queued b cs p) = attempted p @ cs"
  by (induction cs arbitrary: p) (simp_all add: pc_addIceCandidate_attempted)

lemma add_queued_remote: "remoteDescription (add_queued b cs p) = remoteDescription p"
  by (induction cs arbitrary: p) (simp_all add: pc_addIceCandidate_remote)

lemma pc_setRemoteDescription_ok:
  "set_remote b p d = None \<Longrightarrow>
   fst (pc_setRemoteDescription b d p) = None \<and>
   remoteDescription (snd (pc_setRemoteDescription b d p)) = Some d \<and>
   attempted (snd (pc_setRemoteDescription b d p)) = attempted p"
  by (simp add: pc_setRemoteDescription_def attempted_log_call)
     (simp add: attempted_def log_call_def)

lemma addIceCandidate_queues:
  "\<not> has_remote s peerId \<Longrightarrow>
   addIceCandidate b peerId c s =
     (False, s\<lparr>iceCandidatesQueueRef := (iceCandidatesQueueRef s)(peerId \<mapsto> queue_of s peerId @ [c])\<rparr>)"
  by (auto simp: addIceCandidate_def has_remote_def Let_def split: option.splits)

lemma deliver_queues:
  "\<not> has_remote s peerId \<Longrightarrow>
   deliver b peerId cs s =
     (if cs = [] then s
      else s\<lparr>iceCandidatesQueueRef := (iceCandidatesQueueRef s)(peerId \<mapsto> queue_of s peerId @ cs)\<rparr>)"
proof (induction cs arbitrary: s)
  case Nil
  then show ?case by simp
next
  case (Cons c cs)
  let ?s1 = "s\<lparr>iceCandidatesQueueRef := (iceCandidatesQueueRef s)(peerId \<mapsto> queue_of s peerId @ [c])\<rparr>"
  have nr: "\<not> has_remote ?s1 peerId" using Cons.prems by (auto simp: has_remote_def get_pc_def split: option.splits)
  have q: "queue_of ?s1 peerId = queue_of s peerId @ [c]" by (simp add: queue_of_def)
  show ?case
    using Cons.IH[OF nr] by (simp add: addIceCandidate_queues[OF Cons.prems] q)
qed

lemma addIceCandidate_direct:
  assumes "get_pc s peerId = Some (r, p)" and "remoteDescription p \<noteq> None"
  shows "snd (addIceCandidate b peerId c s) = put_pc r (snd (pc_addIceCandidate b c p)) s"
  using assms by (auto simp: addIceCandidate_def Let_def split: option.splits prod.splits)

lemma get_pc_put_pc:
  "get_pc s peerId = Some (r, p) \<Longrightarrow> get_pc (put_pc r p' s) peerId = Some (r, p')"
  by (auto simp: get_pc_def put_pc_def split: option.splits)

lemma deliver_direct:
  assumes "get_pc s peerId = Some (r, p)" and "remoteDescription p \<noteq> None"
  shows "\<exists>p'. deliver b peerId cs s = put_pc r p' s \<and> attempted p' = attempted p @ cs \<and>
              remoteDescription p' = remoteDescription p"
  using assms
proof (induction cs arbitrary: s p)
  case Nil
  then show ?case by (intro exI[of _ p]) (auto simp: put_pc_def get_pc_def map_upd_triv split: option.splits)
next
  case (Cons c cs)
  let ?p1 = "snd (pc_addIceCandidate b c p)"
  let ?s1 = "put_pc r ?p1 s"
  have g: "get_pc ?s1 peerId = Some (r, ?p1)" by (rule get_pc_put_pc[OF Cons.prems(1)])
  have rd: "remoteDescription ?p1 \<noteq> None" using Cons.prems(2) by (simp add: pc_addIceCandidate_remote)
  from Cons.IH[OF g rd] obtain p' where p': "deliver b peerId cs ?s1 = put_pc r p' ?s1"
    "attempted p' = attempted ?p1 @ cs" "remoteDescription p' = remoteDescription ?p1" by blast
  have "put_pc r p' ?s1 = put_pc r p' s" by (simp add: put_pc_def)
  with p' show ?case
    by (intro exI[of _ p'])
       (simp add: addIceCandidate_direct[OF Cons.prems] pc_addIceCandidate_attempted pc_addIceCandidate_remote)
qed

lemma processIceCandidateQueue_flushes:
  assumes "get_pc s peerId = Some (r, p)" and "remoteDescription p \<noteq> None"
  shows "get_pc (processIceCandidateQueue b peerId s) peerId = Some (r, add_queued b (queue_of s peerId) p) \<and>
         queue_of (processIceCandidateQueue b peerId s) peerId = [] \<and>
         pcs (processIceCandidateQueue b peerId s) = (pcs s)(r \<mapsto> add_queued b (queue_of s peerId) p)"
  using assms
  by (auto simp: processIceCandidateQueue_def Let_def get_pc_def put_pc_def queue_of_def
      split: option.splits)

lemma get_pc_remotePeers: "get_pc (s\<lparr>remotePeers := x\<rparr>) peerId = get_pc s peerId"
  by (simp add: get_pc_def split: option.splits)

lemma queue_of_remotePeers: "queue_of (s\<lparr>remotePeers := x\<rparr>) peerId = queue_of s peerId"
  by (simp add: queue_of_def)

lemma queue_of_put_pc: "queue_of (put_pc r p s) peerId = queue_of s peerId"
  by (simp add: queue_of_def put_pc_def)

lemma handleAnswer_flushes:
  assumes g: "get_pc s peerId = Some (r, p)" and ok: "set_remote b p ans = None"
  shows "\<exists>p'. get_pc (snd (handleAnswer b peerId ans s)) peerId = Some (r, p') \<and>
              attempted p' = attempted p @ queue_of s peerId \<and>
              remoteDescription p' \<noteq> None \<and>
              queue_of (snd (handleAnswer b peerId ans s)) peerId = []"
proof -
  let ?p1 = "snd (pc_setRemoteDescription b ans p)"
  let ?s1 = "put_pc r ?p1 s"
  from pc_setRemoteDescription_ok[OF ok] have f: "fst (pc_setRemoteDescription b ans p) = None"
    and rd: "remoteDescription ?p1 \<noteq> None" and at: "attempted ?p1 = attempted p" by simp_all
  have g1: "get_pc ?s1 peerId = Some (r, ?p1)" by (rule get_pc_put_pc[OF g])
  have q1: "queue_of ?s1 peerId = queue_of s peerId" by (rule queue_of_put_pc)
  note fl = processIceCandidateQueue_flushes[OF g1 rd, of b]
  have ha: "snd (handleAnswer b peerId ans s) =
      (processIceCandidateQueue b peerId ?s1)\<lparr>remotePeers :=
         (remotePeers (processIceCandidateQueue b peerId ?s1))(peerId \<mapsto>
            (case remotePeers (processIceCandidateQueue b peerId ?s1) peerId of
               None \<Rightarrow> \<lparr>rp_type = None, rp_connected = True\<rparr>
             | Some rp \<Rightarrow> rp\<lparr>rp_connected := True\<rparr>))\<rparr>"
    using g f by (cases "pc_setRemoteDescription b ans p") (simp add: handleAnswer_def Let_def)
  show ?thesis
    apply (rule exI[of _ "add_queued b (queue_of s peerId) ?p1"])
    using fl
    by (simp add: ha get_pc_remotePeers queue_of_remotePeers q1 add_queued_attempted
        add_queued_remote at rd)
qed

subsection \<open>Closing a connection\<close>

lemma closePeerConnection_absent: "get_pc s peerId = None \<Longrightarrow> closePeerConnection peerId s = (False, s)"
  by (simp add: closePeerConnection_def)

lemma clear_timeout_entry_refs:
  "peerConnectionsRef (clear_timeout_entry k s) = peerConnectionsRef s \<and>
   pcs (clear_timeout_entry k s) = pcs s \<and>
   iceCandidatesQueueRef (clear_timeout_entry k s) = iceCandidatesQueueRef s"
  by (simp add: clear_timeout_entry_def clearTimeout_def split: option.splits)

lemma clear_timeout_entry_key:
  "connectionTimeoutsRef s k \<noteq> Some 0 \<Longrightarrow> connectionTimeoutsRef (clear_timeout_entry k s) k = None"
  by (simp add: clear_timeout_entry_def clearTimeout_def split: option.splits)

lemma clear_timeout_entry_other:
  "k' \<noteq> k \<Longrightarrow> connectionTimeoutsRef (clear_timeout_entry k s) k' = connectionTimeoutsRef s k'"
  by (simp add: clear_timeout_entry_def clearTimeout_def split: option.splits)

lemma clear_timeout_entry_timer:
  "connectionTimeoutsRef s k = Some tid \<Longrightarrow> tid \<noteq> 0 \<Longrightarrow> timers (clear_timeout_entry k s) tid = None"
  by (simp add: clear_timeout_entry_def clearTimeout_def)

lemma clear_timeout_entry_timers_mono:
  "timers s tid = None \<Longrightarrow> timers (clear_timeout_entry k s) tid = None"
  by (simp add: clear_timeout_entry_def clearTimeout_def split: option.splits)

lemma closePeerConnection_present:
  assumes "get_pc s peerId = Some (r, p)"
  shows "get_pc (snd (closePeerConnection peerId s)) peerId = None"
  using assms
  by (simp add: closePeerConnection_def Let_def get_pc_def put_pc_def split: option.splits)

subsection \<open>Replacing tracks\<close>

lemma find_sender_shift: "find_sender ss k j = map_option (\<lambda>i. i + j) (find_sender ss k 0)"
proof (induction ss arbitrary: j)
  case Nil
  then show ?case by simp
next
  case (Cons a ss)
  show ?case
  proof (cases a)
    case None
    then show ?thesis
      using Cons.IH[of "Suc j"] Cons.IH[of "Suc 0"] by (simp add: option.map_comp comp_def)
  next
    case (Some t)
    then show ?thesis
      using Cons.IH[of "Suc j"] Cons.IH[of "Suc 0"] by (simp add: option.map_comp comp_def)
  qed
qed

lemma find_sender_Some_iff:
  "find_sender ss k 0 = Some i \<longleftrightarrow>
     (i < length ss \<and> has_kind k (ss ! i) \<and> (\<forall>m < i. \<not> has_kind k (ss ! m)))"
proof (induction ss arbitrary: i)
  case Nil
  then show ?case by simp
next
  case (Cons a ss)
  have sh: "find_sender ss k (Suc 0) = map_option Suc (find_sender ss k 0)"
    using find_sender_shift[of ss k "Suc 0"] by simp
  show ?case
  proof (cases "has_kind k a")
    case True
    then obtain t where a: "a = Some t" "track_kind t = k" by (auto simp: has_kind_def split: option.splits)
    show ?thesis
    proof (cases i)
      case 0
      then show ?thesis using a True by simp
    next
      case (Suc i')
      then show ?thesis using a True by auto
    qed
  next
    case False
    then have fs: "find_sender (a # ss) k 0 = map_option Suc (find_sender ss k 0)"
      using sh by (cases a) (auto simp: has_kind_def)
    show ?thesis
    proof (cases i)
      case 0
      then show ?thesis using False fs by auto
    next
      case (Suc i')
      have "(\<forall>m<Suc i'. \<not> has_kind k ((a # ss) ! m)) \<longleftrightarrow> (\<forall>m<i'. \<not> has_kind k (ss ! m))"
        using False by (auto simp: less_Suc_eq_0_disj)
      then show ?thesis using Suc fs Cons.IH[of i'] by auto
    qed
  qed
qed

lemma find_sender_None_iff:
  "find_sender ss k 0 = None \<longleftrightarrow> (\<forall>x \<in> set ss. \<not> has_kind k x)"
proof (induction ss)
  case Nil
  then show ?case by simp
next
  case (Cons a ss)
  have sh: "find_sender ss k (Suc 0) = map_option Suc (find_sender ss k 0)"
    using find_sender_shift[of ss k "Suc 0"] by simp
  show ?case using Cons sh by (cases a) (auto simp: has_kind_def)
qed

lemma find_sender_take:
  assumes "find_sender (take n ss) k 0 = Some i"
  shows "find_sender ss k 0 = Some i" and "i < n" and "i < length ss"
  using assms by (auto simp: find_sender_Some_iff)

lemma has_kind_update:
  assumes "i < length ss" and "has_kind k (ss ! i)" and "track_kind t = k"
  shows "map (has_kind k') (ss[i := Some t]) = map (has_kind k') ss"
proof -
  have "has_kind k' (Some t) = has_kind k' (ss ! i)"
    using assms by (auto simp: has_kind_def split: option.splits)
  then show ?thesis
    using assms(1) by (simp add: map_update list_update_same_conv)
qed

lemma kind_count_map: "kind_count k ss = length (filter id (map (has_kind k) ss))"
  by (simp add: kind_count_def filter_map comp_def)

lemma kind_count_zero: "kind_count k ss = 0 \<longleftrightarrow> find_sender ss k 0 = None"
  by (auto simp: kind_count_def find_sender_None_iff filter_empty_conv)

lemma kind_count_steps:
  assumes "n \<le> length ss"
  shows "kind_count k (update_senders n ts ss) =
           kind_count k ss +
           (if kind_count k (take n ss) = 0 then length (filter (\<lambda>t. track_kind t = k) ts) else 0)"
  using assms
proof (induction ts arbitrary: ss)
  case Nil
  then show ?case by simp
next
  case (Cons t ts)
  show ?case
  proof (cases "find_sender (take n ss) (track_kind t) 0")
    case None
    have le: "n \<le> length (ss @ [Some t])" using Cons.prems by simp
    have tk: "take n (ss @ [Some t]) = take n ss" using Cons.prems by simp
    have z: "kind_count (track_kind t) (take n ss) = 0" using None by (simp add: kind_count_zero)
    have c: "kind_count k (ss @ [Some t]) = kind_count k ss + (if track_kind t = k then 1 else 0)"
      by (simp add: kind_count_def has_kind_def)
    show ?thesis
      using Cons.IH[OF le, unfolded tk] None z by (auto simp: c)
  next
    case (Some i)
    note f = find_sender_take[OF Some]
    have hk: "has_kind (track_kind t) (ss ! i)" using f(1) by (simp add: find_sender_Some_iff)
    have m: "map (has_kind k) (ss[i := Some t]) = map (has_kind k) ss"
      by (rule has_kind_update[OF f(3) hk refl])
    have c1: "kind_count k (ss[i := Some t]) = kind_count k ss"
      by (simp add: kind_count_map m)
    have "map (has_kind k) (take n (ss[i := Some t])) = map (has_kind k) (take n ss)"
      using m by (simp add: take_map[symmetric])
    then have c2: "kind_count k (take n (ss[i := Some t])) = kind_count k (take n ss)"
      by (simp add: kind_count_map)
    have nz: "kind_count (track_kind t) (take n ss) \<noteq> 0"
      using Some by (simp add: kind_count_zero)
    have le: "n \<le> length (ss[i := Some t])" using Cons.prems by simp
    show ?thesis
      using Cons.IH[OF le] Some nz by (auto simp: c1 c2)
  qed
qed

lemma kinds_in_place:
  assumes "n \<le> length ss"
  shows "length ss \<le> length (update_senders n ts ss) \<and>
         (\<forall>i < length ss. map_option track_kind (update_senders n ts ss ! i) = map_option track_kind (ss ! i))"
  using assms
proof (induction ts arbitrary: ss)
  case Nil
  then show ?case by simp
next
  case (Cons t ts)
  show ?case
  proof (cases "find_sender (take n ss) (track_kind t) 0")
    case None
    have le: "n \<le> length (ss @ [Some t])" using Cons.prems by simp
    show ?thesis using Cons.IH[OF le] None by (auto simp: nth_append)
  next
    case (Some i)
    note f = find_sender_take[OF Some]
    have hk: "has_kind (track_kind t) (ss ! i)" using f(1) by (simp add: find_sender_Some_iff)
    have le: "n \<le> length (ss[i := Some t])" using Cons.prems by simp
    have "\<forall>j < length ss. map_option track_kind (ss[i := Some t] ! j) = map_option track_kind (ss ! j)"
      using hk f(3) by (auto simp: nth_list_update has_kind_def split: option.splits)
    then show ?thesis using Cons.IH[OF le] Some by auto
  qed
qed

lemma first_kept:
  assumes "track_kind t \<notin> track_kind ` set ts" and "find_sender ss (track_kind t) 0 = Some i"
    and "ss ! i = Some t" and "n \<le> length ss"
  shows "find_sender (update_senders n ts ss) (track_kind t) 0 = Some i \<and>
         update_senders n ts ss ! i = Some t"
  using assms
proof (induction ts arbitrary: ss)
  case Nil
  then show ?case by simp
next
  case (Cons u us)
  from Cons.prems(1) have ne: "track_kind u \<noteq> track_kind t" and rest: "track_kind t \<notin> track_kind ` set us"
    by auto
  from Cons.prems(2) have il: "i < length ss" by (simp add: find_sender_Some_iff)
  show ?case
  proof (cases "find_sender (take n ss) (track_kind u) 0")
    case None
    let ?ss = "ss @ [Some u]"
    have 1: "find_sender ?ss (track_kind t) 0 = Some i"
      using Cons.prems(2) il ne by (auto simp: find_sender_Some_iff nth_append has_kind_def)
    have 2: "?ss ! i = Some t" using Cons.prems(3) il by (simp add: nth_append)
    have 3: "n \<le> length ?ss" using Cons.prems(4) by simp
    show ?thesis using Cons.IH[OF rest 1 2 3] None by simp
  next
    case (Some j)
    note f = find_sender_take[OF Some]
    have hk: "has_kind (track_kind u) (ss ! j)" using f(1) by (simp add: find_sender_Some_iff)
    have ji: "j \<noteq> i" using hk Cons.prems(3) ne by (auto simp: has_kind_def)
    let ?ss = "ss[j := Some u]"
    have m: "map (has_kind (track_kind t)) ?ss = map (has_kind (track_kind t)) ss"
      by (rule has_kind_update[OF f(3) hk refl])
    have nth: "\<And>m. m < length ss \<Longrightarrow> has_kind (track_kind t) (?ss ! m) = has_kind (track_kind t) (ss ! m)"
    proof -
      fix m assume "m < length ss"
      then have "map (has_kind (track_kind t)) ?ss ! m = map (has_kind (track_kind t)) ss ! m"
        using m by simp
      then show "has_kind (track_kind t) (?ss ! m) = has_kind (track_kind t) (ss ! m)"
        using \<open>m < length ss\<close> by simp
    qed
    have 1: "find_sender ?ss (track_kind t) 0 = Some i"
      using Cons.prems(2) il nth by (auto simp: find_sender_Some_iff)
    have 2: "?ss ! i = Some t" using Cons.prems(3) ji by simp
    have 3: "n \<le> length ?ss" using Cons.prems(4) by simp
    show ?thesis using Cons.IH[OF rest 1 2 3] Some by simp
  qed
qed

lemma every_track_sent:
  assumes "distinct (map track_kind ts)" and "n \<le> length ss"
    and "\<forall>j. n \<le> j \<and> j < length ss \<longrightarrow> (\<forall>t \<in> set ts. \<not> has_kind (track_kind t) (ss ! j))"
  shows "\<forall>t \<in> set ts. \<exists>i. find_sender (update_senders n ts ss) (track_kind t) 0 = Some i \<and>
                           update_senders n ts ss ! i = Some t"
  using assms
proof (induction ts arbitrary: ss)
  case Nil
  then show ?case by simp
next
  case (Cons u us)
  from Cons.prems(1) have nu: "track_kind u \<notin> track_kind ` set us" and d: "distinct (map track_kind us)"
    by auto
  show ?case
  proof (cases "find_sender (take n ss) (track_kind u) 0")
    case None
    let ?ss = "ss @ [Some u]"
    have none_all: "\<forall>x \<in> set ss. \<not> has_kind (track_kind u) x"
    proof
      fix x assume "x \<in> set ss"
      then obtain j where j: "j < length ss" "ss ! j = x" by (auto simp: in_set_conv_nth)
      show "\<not> has_kind (track_kind u) x"
      proof (cases "j < n")
        case True
        then have "x \<in> set (take n ss)" using j by (auto simp: in_set_conv_nth)
        then show ?thesis using None by (simp add: find_sender_None_iff)
      next
        case False
        then show ?thesis using Cons.prems(3) j by auto
      qed
    qed
    have 1: "find_sender ?ss (track_kind u) 0 = Some (length ss)"
      using none_all by (auto simp: find_sender_Some_iff nth_append has_kind_def)
    have 2: "?ss ! length ss = Some u" by simp
    have 3: "n \<le> length ?ss" using Cons.prems(2) by simp
    have 4: "\<forall>j. n \<le> j \<and> j < length ?ss \<longrightarrow> (\<forall>t \<in> set us. \<not> has_kind (track_kind t) (?ss ! j))"
      using Cons.prems(3) nu by (auto simp: nth_append has_kind_def less_Suc_eq)
    from first_kept[OF nu 1 2 3] Cons.IH[OF d 3 4] None show ?thesis by auto
  next
    case (Some j)
    note f = find_sender_take[OF Some]
    have hk: "has_kind (track_kind u) (ss ! j)" using f(1) by (simp add: find_sender_Some_iff)
    let ?ss = "ss[j := Some u]"
    have m: "\<And>k. map (has_kind k) ?ss = map (has_kind k) ss"
      by (rule has_kind_update[OF f(3) hk refl])
    have nth: "\<And>k m. m < length ss \<Longrightarrow> has_kind k (?ss ! m) = has_kind k (ss ! m)"
    proof -
      fix k m assume "m < length ss"
      then have "map (has_kind k) ?ss ! m = map (has_kind k) ss ! m" using m by simp
      then show "has_kind k (?ss ! m) = has_kind k (ss ! m)" using \<open>m < length ss\<close> by simp
    qed
    have 1: "find_sender ?ss (track_kind u) 0 = Some j"
      using f(1) nth by (auto simp: find_sender_Some_iff has_kind_def)
    have 2: "?ss ! j = Some u" using f(3) by simp
    have 3: "n \<le> length ?ss" using Cons.prems(2) by simp
    have 4: "\<forall>i. n \<le> i \<and> i < length ?ss \<longrightarrow> (\<forall>t \<in> set us. \<not> has_kind (track_kind t) (?ss ! i))"
      using Cons.prems(3) nth by auto
    from first_kept[OF nu 1 2 3] Cons.IH[OF d 3 4] Some show ?thesis by auto
  qed
qed

lemma update_again:
  assumes "\<forall>t \<in> set ts. \<exists>i. find_sender ss (track_kind t) 0 = Some i \<and> ss ! i = Some t"
  shows "update_senders (length ss) ts ss = ss"
  using assms
proof (induction ts)
  case Nil
  then show ?case by simp
next
  case (Cons t ts)
  then obtain i where i: "find_sender ss (track_kind t) 0 = Some i" "ss ! i = Some t" by auto
  then have "ss[i := Some t] = ss" by (metis list_update_id)
  then show ?case using Cons i by simp
qed

lemma replace_tracks_ok:
  assumes "\<forall>p i t. replace_track b p i t = None" and "\<forall>p t. add_track b p t = None"
  shows "fst (replace_tracks b n ts p) = True \<and>
         senders (snd (replace_tracks b n ts p)) = update_senders n ts (senders p)"
proof (induction ts arbitrary: p)
  case Nil
  then show ?case by simp
next
  case (Cons t ts)
  show ?case
  proof (cases "find_sender (take n (senders p)) (track_kind t) 0")
    case None
    have "pc_addTrack b t p = (None, log_call (AddTrack t) True (p\<lparr>senders := senders p @ [Some t]\<rparr>))"
      using assms(2) by (simp add: pc_addTrack_def)
    then show ?thesis using None Cons.IH by (simp add: log_call_def)
  next
    case (Some i)
    have "pc_replaceTrack b i t p =
            (None, log_call (ReplaceTrack i t) True (p\<lparr>senders := (senders p)[i := Some t]\<rparr>))"
      using assms(1) by (simp add: pc_replaceTrack_def)
    then show ?thesis using Some Cons.IH by (simp add: log_call_def)
  qed
qed

lemma updateStream_ok:
  assumes "\<forall>p i t. replace_track b p i t = None" and "\<forall>p t. add_track b p t = None"
    and "get_pc s peerId = Some (r, p)"
  shows "\<exists>p'. updateStream b peerId st s = (True, put_pc r p' s) \<and>
              senders p' = update_senders (length (senders p)) (stream_tracks st) (senders p)"
proof -
  let ?res = "replace_tracks b (length (senders p)) (stream_tracks st) p"
  from replace_tracks_ok[OF assms(1,2), of "length (senders p)" "stream_tracks st" p]
  have "fst ?res = True" and "senders (snd ?res) = update_senders (length (senders p)) (stream_tracks st) (senders p)"
    by simp_all
  then show ?thesis
    using assms(3) by (intro exI[of _ "snd ?res"]) (cases ?res, simp add: updateStream_def)
qed

subsection \<open>Answering an offer\<close>

lemma add_queued_calls: "map fst (calls (add_queued b cs p)) = map fst (calls p) @ map AddIceCandidate cs"
  by (induction cs arbitrary: p) (simp_all add: pc_addIceCandidate_def log_call_def split: option.splits)

lemma add_queued_fields:
  "remoteDescription (add_queued b cs p) = remoteDescription p \<and>
   localDescription (add_queued b cs p) = localDescription p"
  by (induction cs arbitrary: p) (simp_all add: pc_addIceCandidate_def log_call_def split: option.splits)

lemma add_local_tracks_calls:
  "map fst (calls (add_local_tracks b ts p)) = map fst (calls p) @ map AddTrack ts"
  by (induction ts arbitrary: p) (simp_all add: pc_addTrack_def log_call_def split: option.splits)

lemma closePeerConnection_clears:
  assumes g: "get_pc s peerId = Some (r, p)" and pos: "\<forall>k. connectionTimeoutsRef s k \<noteq> Some 0"
  shows "get_pc (snd (closePeerConnection peerId s)) peerId = None"
    and "queue_of (snd (closePeerConnection peerId s)) peerId = []"
    and "pcs (snd (closePeerConnection peerId s)) = (pcs s)(r \<mapsto> pc_close p)"
    and "next_pc (snd (closePeerConnection peerId s)) = next_pc s"
    and "next_timer (snd (closePeerConnection peerId s)) = next_timer s"
    and "isConnected (snd (closePeerConnection peerId s)) = isConnected s"
    and "\<forall>tid. connectionTimeoutsRef s peerId = Some tid \<or>
             connectionTimeoutsRef s (peerId @ ''_ice'') = Some tid \<longrightarrow>
             timers (snd (closePeerConnection peerId s)) tid = None"
    and "\<forall>tid. timers s tid = None \<longrightarrow> timers (snd (closePeerConnection peerId s)) tid = None"
proof -
  let ?s1 = "clear_timeout_entry peerId s"
  let ?s2 = "clear_timeout_entry (peerId @ ''_ice'') ?s1"
  have ne: "peerId @ ''_ice'' \<noteq> peerId" by simp
  have c: "snd (closePeerConnection peerId s) =
      (put_pc r (pc_close p) ?s2)\<lparr>peerConnectionsRef := (peerConnectionsRef ?s2)(peerId := None),
         iceCandidatesQueueRef := (iceCandidatesQueueRef ?s2)(peerId := None),
         remoteStreamsRef := (remoteStreamsRef ?s2)(peerId := None),
         remotePeers := (remotePeers ?s2)(peerId := None),
         remoteStreams := (remoteStreams ?s2)(peerId := None),
         connectionStatus := (connectionStatus ?s2)(peerId := None)\<rparr>"
    using g by (simp add: closePeerConnection_def Let_def put_pc_def)
  show "get_pc (snd (closePeerConnection peerId s)) peerId = None"
    by (rule closePeerConnection_present[OF g])
  show "queue_of (snd (closePeerConnection peerId s)) peerId = []"
    by (simp add: c queue_of_def put_pc_def)
  have same: "pcs ?s2 = pcs s" "next_pc ?s2 = next_pc s" "next_timer ?s2 = next_timer s"
    "isConnected ?s2 = isConnected s"
    by (simp_all add: clear_timeout_entry_def clearTimeout_def split: option.splits)
  show "pcs (snd (closePeerConnection peerId s)) = (pcs s)(r \<mapsto> pc_close p)"
    and "next_pc (snd (closePeerConnection peerId s)) = next_pc s"
    and "next_timer (snd (closePeerConnection peerId s)) = next_timer s"
    and "isConnected (snd (closePeerConnection peerId s)) = isConnected s"
    by (simp_all add: c put_pc_def same)
  have k2: "connectionTimeoutsRef ?s1 (peerId @ ''_ice'') = connectionTimeoutsRef s (peerId @ ''_ice'')"
    by (rule clear_timeout_entry_other[OF ne])
  show "\<forall>tid. connectionTimeoutsRef s peerId = Some tid \<or>
             connectionTimeoutsRef s (peerId @ ''_ice'') = Some tid \<longrightarrow>
             timers (snd (closePeerConnection peerId s)) tid = None"
  proof (intro allI impI)
    fix tid
    assume t: "connectionTimeoutsRef s peerId = Some tid \<or>
               connectionTimeoutsRef s (peerId @ ''_ice'') = Some tid"
    have "timers ?s2 tid = None"
    proof (cases "connectionTimeoutsRef s peerId = Some tid")
      case True
      with pos[rule_format, of peerId] have "tid \<noteq> 0" by auto
      from clear_timeout_entry_timer[OF True this] show ?thesis
        by (rule clear_timeout_entry_timers_mono)
    next
      case False
      with t have "connectionTimeoutsRef s (peerId @ ''_ice'') = Some tid" by simp
      with k2 pos[rule_format, of "peerId @ ''_ice''"]
      have "connectionTimeoutsRef ?s1 (peerId @ ''_ice'') = Some tid" "tid \<noteq> 0"
        by auto
      then show ?thesis by (rule clear_timeout_entry_timer)
    qed
    then show "timers (snd (closePeerConnection peerId s)) tid = None"
      by (simp add: c put_pc_def)
  qed
  show "\<forall>tid. timers s tid = None \<longrightarrow> timers (snd (closePeerConnection peerId s)) tid = None"
    by (simp add: c put_pc_def clear_timeout_entry_timers_mono)
qed

lemma createPeerConnection_fresh:
  assumes "supported b" and "construct_error b = None" and "get_pc s peerId = None"
  shows "createPeerConnection b peerId localStream s =
     (Some (next_pc s),
      s\<lparr>next_pc := Suc (next_pc s),
        peerConnectionsRef := (peerConnectionsRef s)(peerId \<mapsto> next_pc s),
        iceCandidatesQueueRef := (iceCandidatesQueueRef s)(peerId \<mapsto> queue_of s peerId),
        connectionStatus := (connectionStatus s)(peerId \<mapsto> ''connecting''),
        timers := (timers s)(next_timer s \<mapsto>
                    \<lparr>timer_delay = CONNECTION_TIMEOUT,
                     timer_action = ConnectionTimeout peerId (next_pc s)\<rparr>),
        next_timer := Suc (next_timer s),
        connectionTimeoutsRef := (connectionTimeoutsRef s)(peerId \<mapsto> next_timer s),
        pcs := (pcs s)(next_pc s \<mapsto>
                 add_local_tracks b (local_tracks localStream) (new_pc peerId))\<rparr>)"
  using assms by (simp add: createPeerConnection_def Let_def setTimeout_def put_pc_def)

lemma answer_offer_ok:
  assumes g: "get_pc s peerId = Some (r, p)"
    and sr: "\<forall>p. set_remote b p off = None"
    and ca: "\<forall>p. create_answer b p = Inr sdp"
    and sl: "\<forall>p d. set_local b p d = None"
  shows "\<exists>s' p'. answer_offer b peerId off r s = (Some \<lparr>desc_type = ''answer'', desc_sdp = sdp\<rparr>, s') \<and>
           get_pc s' peerId = Some (r, p') \<and>
           map fst (calls p') =
             map fst (calls p) @
             [SetRemoteDescription off, CreateAnswer,
              SetLocalDescription \<lparr>desc_type = ''answer'', desc_sdp = sdp\<rparr>] @
             map AddIceCandidate (queue_of s peerId) \<and>
           remoteDescription p' = Some off \<and>
           localDescription p' = Some \<lparr>desc_type = ''answer'', desc_sdp = sdp\<rparr> \<and>
           queue_of s' peerId = [] \<and>
           pcs s' = (pcs s)(r \<mapsto> p') \<and> timers s' = timers s \<and> isConnected s' = isConnected s"
proof -
  let ?ans = "\<lparr>desc_type = ''answer'', desc_sdp = sdp\<rparr>"
  define p1 where "p1 = snd (pc_setRemoteDescription b off p)"
  define p2 where "p2 = snd (pc_createAnswer b p1)"
  define p3 where "p3 = snd (pc_setLocalDescription b ?ans p2)"
  have e1: "pc_setRemoteDescription b off p = (None, p1)"
    using sr by (simp add: p1_def pc_setRemoteDescription_def)
  have e2: "pc_createAnswer b p1 = (Inr ?ans, p2)"
    using ca by (simp add: p2_def pc_createAnswer_def)
  have e3: "pc_setLocalDescription b ?ans p2 = (None, p3)"
    using sl by (simp add: p3_def pc_setLocalDescription_def)
  have c3: "map fst (calls p3) = map fst (calls p) @ [SetRemoteDescription off, CreateAnswer, SetLocalDescription ?ans]"
    and rd3: "remoteDescription p3 = Some off" and ld3: "localDescription p3 = Some ?ans"
    using sr ca sl
    by (simp_all add: p3_def p2_def p1_def pc_setRemoteDescription_def pc_createAnswer_def
        pc_setLocalDescription_def log_call_def)
  let ?s3 = "put_pc r p3 s"
  have g3: "get_pc ?s3 peerId = Some (r, p3)" by (rule get_pc_put_pc[OF g])
  have rdn: "remoteDescription p3 \<noteq> None" using rd3 by simp
  have q3: "queue_of ?s3 peerId = queue_of s peerId" by (rule queue_of_put_pc)
  note fl = processIceCandidateQueue_flushes[OF g3 rdn, of b, unfolded q3]
  let ?s4 = "processIceCandidateQueue b peerId ?s3"
  let ?p4 = "add_queued b (queue_of s peerId) p3"
  have g4: "get_pc ?s4 peerId = Some (r, ?p4)" and q4: "queue_of ?s4 peerId = []"
    and pcs4: "pcs ?s4 = (pcs s)(r \<mapsto> ?p4)"
    using fl by (simp_all add: put_pc_def)
  have misc4: "timers ?s4 = timers s" "isConnected ?s4 = isConnected s"
    using g3 by (simp_all add: processIceCandidateQueue_def Let_def put_pc_def)
  let ?s5 = "?s4\<lparr>remotePeers := (remotePeers ?s4)(peerId \<mapsto>
                                       \<lparr>rp_type = Some ''answer'', rp_connected = True\<rparr>)\<rparr>"
  have pr: "pcs s r = Some p" using g by (auto simp: get_pc_def split: option.splits)
  have p4r: "pcs ?s5 r = Some ?p4" by (simp add: pcs4)
  have ao: "answer_offer b peerId off r s = (localDescription ?p4, ?s5)"
    using pr e1 e2 e3 p4r by (simp add: answer_offer_def Let_def)
  show ?thesis
    apply (rule exI[of _ ?s5], rule exI[of _ ?p4])
    using g4 q4 pcs4 misc4
    by (simp add: ao add_queued_fields ld3 rd3 add_queued_calls c3 get_pc_remotePeers
        queue_of_remotePeers)
qed

lemma get_pc_participants: "get_pc (s\<lparr>participants := x\<rparr>) peerId = get_pc s peerId"
  by (simp add: get_pc_def split: option.splits)

lemma handleOffer_on_clean_state:
  assumes sup: "supported b" and con: "construct_error b = None"
    and sr: "\<forall>p. set_remote b p off = None"
    and ca: "\<forall>p. create_answer b p = Inr sdp"
    and sl: "\<forall>p d. set_local b p d = None"
    and g: "get_pc s peerId = None"
  shows "\<exists>s' p'. handleOffer b peerId off localStream s =
                    (Some \<lparr>desc_type = ''answer'', desc_sdp = sdp\<rparr>, s') \<and>
           get_pc s' peerId = Some (next_pc s, p') \<and>
           map fst (calls p') =
             map AddTrack (local_tracks localStream) @
             [SetRemoteDescription off, CreateAnswer,
              SetLocalDescription \<lparr>desc_type = ''answer'', desc_sdp = sdp\<rparr>] @
             map AddIceCandidate (queue_of s peerId) \<and>
           remoteDescription p' = Some off \<and>
           localDescription p' = Some \<lparr>desc_type = ''answer'', desc_sdp = sdp\<rparr> \<and>
           queue_of s' peerId = [] \<and>
           pcs s' = (pcs s)(next_pc s \<mapsto> p') \<and>
           timers s' = (timers s)(next_timer s \<mapsto>
                          \<lparr>timer_delay = CONNECTION_TIMEOUT,
                           timer_action = ConnectionTimeout peerId (next_pc s)\<rparr>) \<and>
           isConnected s' = isConnected s"
proof -
  let ?pN = "add_local_tracks b (local_tracks localStream) (new_pc peerId)"
  obtain sC where cr: "createPeerConnection b peerId localStream s = (Some (next_pc s), sC)"
    and gC: "get_pc sC peerId = Some (next_pc s, ?pN)"
    and qC: "queue_of sC peerId = queue_of s peerId"
    and pC: "pcs sC = (pcs s)(next_pc s \<mapsto> ?pN)"
    and tC: "timers sC = (timers s)(next_timer s \<mapsto>
                          \<lparr>timer_delay = CONNECTION_TIMEOUT,
                           timer_action = ConnectionTimeout peerId (next_pc s)\<rparr>)"
    and iC: "isConnected sC = isConnected s"
    using createPeerConnection_fresh[OF sup con g, of localStream]
    by (simp add: get_pc_def queue_of_def local_tracks_def)
  have cN: "map fst (calls ?pN) = map AddTrack (local_tracks localStream)"
    by (simp add: add_local_tracks_calls new_pc_def)
  from answer_offer_ok[OF gC sr ca sl] obtain s' p' where
    ao: "answer_offer b peerId off (next_pc s) sC = (Some \<lparr>desc_type = ''answer'', desc_sdp = sdp\<rparr>, s')"
    and rest: "get_pc s' peerId = Some (next_pc s, p')"
      "map fst (calls p') = map fst (calls ?pN) @
             [SetRemoteDescription off, CreateAnswer,
              SetLocalDescription \<lparr>desc_type = ''answer'', desc_sdp = sdp\<rparr>] @
             map AddIceCandidate (queue_of sC peerId)"
      "remoteDescription p' = Some off"
      "localDescription p' = Some \<lparr>desc_type = ''answer'', desc_sdp = sdp\<rparr>"
      "queue_of s' peerId = []"
      "pcs s' = (pcs sC)(next_pc s \<mapsto> p')" "timers s' = timers sC" "isConnected s' = isConnected sC"
    by blast
  have ho: "handleOffer b peerId off localStream s = (Some \<lparr>desc_type = ''answer'', desc_sdp = sdp\<rparr>, s')"
    using g cr ao by (simp add: handleOffer_def)
  show ?thesis
    apply (rule exI[of _ s'], rule exI[of _ p'])
    using rest by (simp add: ho cN qC pC tC iC)
qed

lemma ok_browser_offer:
  "supported ok_browser" "construct_error ok_browser = None"
  "\<forall>p. set_remote ok_browser p off = None"
  "\<forall>p. create_answer ok_browser p = Inr ''v=0 answer''"
  "\<forall>p d. set_local ok_browser p d = None"
  by (simp_all add: ok_browser_def)

text \<open>
  The candidates handed to a connection can be read off the calls made on it. When the
  three negotiation calls of \<open>handleOffer\<close> succeed, it replays the queue, on the
  connection that the peer had or on the one it has just built.
\<close>

lemma attempted_calls:
  "attempted p =
     concat (map (\<lambda>c. case c of AddIceCandidate x \<Rightarrow> [x] | _ \<Rightarrow> []) (map fst (calls p)))"
  by (simp add: attempted_def comp_def split_def)

lemma handleOffer_replays:
  assumes g: "get_pc s peerId = Some (r, p)"
    and sr: "\<forall>p. set_remote b p off = None"
    and ca: "\<forall>p. create_answer b p = Inr sdp"
    and sl: "\<forall>p d. set_local b p d = None"
  shows "\<exists>p'. get_pc (snd (handleOffer b peerId off localStream s)) peerId = Some (r, p') \<and>
           attempted p' = attempted p @ queue_of s peerId \<and>
           remoteDescription p' \<noteq> None \<and>
           queue_of (snd (handleOffer b peerId off localStream s)) peerId = []"
proof -
  from answer_offer_ok[OF g sr ca sl] obtain s' p' where
    ao: "answer_offer b peerId off r s = (Some \<lparr>desc_type = ''answer'', desc_sdp = sdp\<rparr>, s')"
    and gp: "get_pc s' peerId = Some (r, p')"
    and cl: "map fst (calls p') =
             map fst (calls p) @
             [SetRemoteDescription off, CreateAnswer,
              SetLocalDescription \<lparr>desc_type = ''answer'', desc_sdp = sdp\<rparr>] @
             map AddIceCandidate (queue_of s peerId)"
    and rd: "remoteDescription p' = Some off" and q: "queue_of s' peerId = []"
    by blast
  have ho: "snd (handleOffer b peerId off localStream s) = s'"
    using g ao by (simp add: handleOffer_def)
  have at: "attempted p' = attempted p @ queue_of s peerId"
    by (simp add: attempted_calls cl comp_def)
  show ?thesis using gp at rd q by (simp add: ho)
qed

lemma handleOffer_replays_fresh:
  assumes g: "get_pc s peerId = None"
    and sup: "supported b" and con: "construct_error b = None"
    and sr: "\<forall>p. set_remote b p off = None"
    and ca: "\<forall>p. create_answer b p = Inr sdp"
    and sl: "\<forall>p d. set_local b p d = None"
  shows "\<exists>p'. get_pc (snd (handleOffer b peerId off localStream s)) peerId = Some (next_pc s, p') \<and>
           attempted p' = queue_of s peerId \<and>
           remoteDescription p' \<noteq> None \<and>
           queue_of (snd (handleOffer b peerId off localStream s)) peerId = []"
proof -
  from handleOffer_on_clean_state[OF sup con sr ca sl g, of localStream] obtain s' p' where
    ho: "handleOffer b peerId off localStream s =
           (Some \<lparr>desc_type = ''answer'', desc_sdp = sdp\<rparr>, s')"
    and gp: "get_pc s' peerId = Some (next_pc s, p')"
    and cl: "map fst (calls p') =
             map AddTrack (local_tracks localStream) @
             [SetRemoteDescription off, CreateAnswer,
              SetLocalDescription \<lparr>desc_type = ''answer'', desc_sdp = sdp\<rparr>] @
             map AddIceCandidate (queue_of s peerId)"
    and rd: "remoteDescription p' = Some off" and q: "queue_of s' peerId = []"
    by blast
  have at: "attempted p' = queue_of s peerId"
    by (simp add: attempted_calls cl comp_def)
  show ?thesis using gp at rd q by (simp add: ho)
qed

lemma deliver_after_flush:
  assumes g: "get_pc s peerId = Some (r, p)" and rd: "remoteDescription p \<noteq> None"
    and q: "queue_of s peerId = []"
  shows "(\<exists>p'. pcs (deliver b peerId cs s) r = Some p' \<and> attempted p' = attempted p @ cs) \<and>
         queue_of (deliver b peerId cs s) peerId = []"
proof -
  from deliver_direct[OF g rd, of b cs] obtain p3 where
    d3: "deliver b peerId cs s = put_pc r p3 s" and at3: "attempted p3 = attempted p @ cs"
    by blast
  show ?thesis using q at3 by (simp add: d3 put_pc_def queue_of_def)
qed

text \<open>Closing a connection builds none, and gives no other peer a session.\<close>

lemma closePeerConnection_next_pc: "next_pc (snd (closePeerConnection k s)) = next_pc s"
  by (simp add: closePeerConnection_def Let_def put_pc_def clear_timeout_entry_def
      clearTimeout_def split: option.splits)

lemma closePeerConnection_keeps_absent:
  "get_pc s j = None \<Longrightarrow> get_pc (snd (closePeerConnection k s)) j = None"
  by (auto simp: closePeerConnection_def Let_def put_pc_def get_pc_def clear_timeout_entry_def
      clearTimeout_def split: option.splits if_splits)

lemma close_if_present:
  "get_pc (if hasPeerConnection k s then snd (closePeerConnection k s) else s) k = None"
proof (cases "get_pc s k")
  case None
  then show ?thesis by (simp add: hasPeerConnection_def)
next
  case (Some a)
  then obtain r p where "get_pc s k = Some (r, p)" by (cases a) auto
  from closePeerConnection_present[OF this] Some show ?thesis by (simp add: hasPeerConnection_def)
qed

subsection \<open>Every step keeps the allocation invariant\<close>

lemma get_pc_SomeD: "get_pc s peerId = Some (r, p) \<Longrightarrow> peerConnectionsRef s peerId = Some r \<and> pcs s r = Some p"
  by (auto simp: get_pc_def split: option.splits)

lemma wf_put_pc: "client_wf s \<Longrightarrow> pcs s r \<noteq> None \<Longrightarrow> client_wf (put_pc r p s)"
  by (auto simp: client_wf_def put_pc_def)

lemma wf_clear_timeout_entry: "client_wf s \<Longrightarrow> client_wf (clear_timeout_entry k s)"
  by (auto simp: client_wf_def clear_timeout_entry_def clearTimeout_def split: option.splits if_splits)

lemma wf_setTimeout: "client_wf s \<Longrightarrow> client_wf (snd (setTimeout a d s))"
  by (auto simp: client_wf_def setTimeout_def less_Suc_eq)

lemma pcs_clear_timeout_entry: "pcs (clear_timeout_entry k s) = pcs s"
  by (simp add: clear_timeout_entry_def clearTimeout_def split: option.splits)

lemma wf_closePeerConnection: "client_wf s \<Longrightarrow> client_wf (snd (closePeerConnection peerId s))"
proof (cases "get_pc s peerId")
  case None
  assume "client_wf s" then show ?thesis using None by (simp add: closePeerConnection_def)
next
  case (Some a)
  assume wf: "client_wf s"
  obtain r p where g: "get_pc s peerId = Some (r, p)" using Some by (cases a) auto
  let ?s2 = "clear_timeout_entry (peerId @ ''_ice'') (clear_timeout_entry peerId s)"
  have "client_wf ?s2" using wf by (intro wf_clear_timeout_entry)
  moreover have "pcs ?s2 r \<noteq> None" using get_pc_SomeD[OF g] by (simp add: pcs_clear_timeout_entry)
  ultimately have "client_wf (put_pc r (pc_close p) ?s2)" by (rule wf_put_pc)
  then show ?thesis using g by (simp add: closePeerConnection_def Let_def client_wf_def)
qed

lemma wf_createPeerConnection:
  assumes "client_wf s"
  shows "client_wf (snd (createPeerConnection b peerId ls s))"
proof (cases "supported b")
  case False
  then show ?thesis using assms by (simp add: createPeerConnection_def client_wf_def)
next
  case True
  define s1 where "s1 = (case get_pc s peerId of None \<Rightarrow> s | Some (old, p) \<Rightarrow> put_pc old (pc_close p) s)"
  have wf1: "client_wf s1"
  proof (cases "get_pc s peerId")
    case None
    then show ?thesis using assms by (simp add: s1_def)
  next
    case (Some a)
    obtain r p where g: "get_pc s peerId = Some (r, p)" using Some by (cases a) auto
    then show ?thesis using assms get_pc_SomeD[OF g] by (simp add: s1_def wf_put_pc)
  qed
  show ?thesis
  proof (cases "construct_error b")
    case (Some err)
    then show ?thesis using True wf1
      by (simp add: createPeerConnection_def Let_def s1_def[symmetric] client_wf_def)
  next
    case None
    then show ?thesis using True wf1
      by (auto simp: createPeerConnection_def Let_def s1_def[symmetric] client_wf_def
          setTimeout_def put_pc_def less_Suc_eq)
  qed
qed

lemma wf_createOffer:
  assumes "client_wf s"
  shows "client_wf (snd (createOffer b peerId s))"
proof (cases "get_pc s peerId")
  case None
  then show ?thesis using assms by (simp add: createOffer_def)
next
  case (Some a)
  obtain r p where g: "get_pc s peerId = Some (r, p)" using Some by (cases a) auto
  have ex: "pcs s r \<noteq> None" using get_pc_SomeD[OF g] by simp
  have w: "\<And>q. client_wf (put_pc r q s)" using assms ex by (rule wf_put_pc)
  show ?thesis
    using g w
    by (auto simp: createOffer_def Let_def setTimeout_def client_wf_def less_Suc_eq
        split: prod.splits sum.splits option.splits)
qed

lemma wf_processIceCandidateQueue:
  "client_wf s \<Longrightarrow> client_wf (processIceCandidateQueue b peerId s)"
  by (auto simp: processIceCandidateQueue_def Let_def client_wf_def put_pc_def get_pc_def
      split: option.splits)

lemma wf_answer_offer:
  assumes "client_wf s"
  shows "client_wf (snd (answer_offer b peerId off r s))"
proof (cases "pcs s r")
  case None
  then show ?thesis using assms by (simp add: answer_offer_def)
next
  case (Some p)
  have w: "\<And>q. client_wf (put_pc r q s)" using assms Some by (intro wf_put_pc) simp_all
  have w2: "\<And>q x. client_wf ((processIceCandidateQueue b peerId (put_pc r q s))\<lparr>remotePeers := x\<rparr>)"
    using wf_processIceCandidateQueue[OF w] by (simp add: client_wf_def)
  have w3: "\<And>q x. client_wf ((put_pc r q s)\<lparr>connectionError := x\<rparr>)"
    using w by (simp add: client_wf_def)
  show ?thesis
    using Some w2 w3
    by (simp add: answer_offer_def Let_def split: prod.splits sum.splits option.splits)
qed

lemma wf_handleOffer:
  assumes "client_wf s"
  shows "client_wf (snd (handleOffer b peerId off ls s))"
  using assms wf_answer_offer wf_createPeerConnection[OF assms, of b peerId ls]
  by (auto simp: handleOffer_def split: option.splits prod.splits)

lemma wf_handleAnswer:
  assumes "client_wf s"
  shows "client_wf (snd (handleAnswer b peerId ans s))"
proof (cases "get_pc s peerId")
  case None
  then show ?thesis using assms by (simp add: handleAnswer_def)
next
  case (Some a)
  obtain r p where g: "get_pc s peerId = Some (r, p)" using Some by (cases a) auto
  have ex: "pcs s r \<noteq> None" using get_pc_SomeD[OF g] by simp
  have w: "\<And>q. client_wf (put_pc r q s)" using assms ex by (rule wf_put_pc)
  have w2: "\<And>q x. client_wf ((processIceCandidateQueue b peerId (put_pc r q s))\<lparr>remotePeers := x\<rparr>)"
    using wf_processIceCandidateQueue[OF w] by (simp add: client_wf_def)
  show ?thesis
    using g w w2 by (simp add: handleAnswer_def Let_def split: prod.splits option.splits)
qed

lemma wf_addIceCandidate:
  assumes "client_wf s"
  shows "client_wf (snd (addIceCandidate b peerId c s))"
proof (cases "get_pc s peerId")
  case None
  then show ?thesis using assms by (simp add: addIceCandidate_def client_wf_def)
next
  case (Some a)
  obtain r p where g: "get_pc s peerId = Some (r, p)" using Some by (cases a) auto
  have ex: "pcs s r \<noteq> None" using get_pc_SomeD[OF g] by simp
  have w: "\<And>q. client_wf (put_pc r q s)" using assms ex by (rule wf_put_pc)
  show ?thesis
    using g w assms
    by (auto simp: addIceCandidate_def Let_def client_wf_def split: prod.splits option.splits)
qed

lemma wf_updateStream:
  assumes "client_wf s"
  shows "client_wf (snd (updateStream b peerId st s))"
proof (cases "get_pc s peerId")
  case None
  then show ?thesis using assms by (simp add: updateStream_def)
next
  case (Some a)
  obtain r p where g: "get_pc s peerId = Some (r, p)" using Some by (cases a) auto
  have ex: "pcs s r \<noteq> None" using get_pc_SomeD[OF g] by simp
  have w: "\<And>q. client_wf (put_pc r q s)" using assms ex by (rule wf_put_pc)
  show ?thesis using g w by (simp add: updateStream_def split: prod.splits)
qed

lemma wf_oniceconnectionstatechange:
  assumes "client_wf s"
  shows "client_wf (oniceconnectionstatechange r st s)"
proof (cases "pcs s r")
  case None
  then show ?thesis using assms by (simp add: oniceconnectionstatechange_def)
next
  case (Some p)
  have w: "\<And>q. client_wf (put_pc r q s)" using assms Some by (intro wf_put_pc) simp_all
  have w2: "\<And>q x. client_wf ((put_pc r q s)\<lparr>connectionStatus := x\<rparr>)"
    using w by (simp add: client_wf_def)
  show ?thesis
    using Some w2 wf_clear_timeout_entry wf_setTimeout
    by (simp add: oniceconnectionstatechange_def Let_def)
qed

lemma wf_onconnectionstatechange:
  assumes "client_wf s"
  shows "client_wf (onconnectionstatechange r st s)"
proof (cases "pcs s r")
  case None
  then show ?thesis using assms by (simp add: onconnectionstatechange_def)
next
  case (Some p)
  have w: "\<And>q. client_wf (put_pc r q s)" using assms Some by (intro wf_put_pc) simp_all
  then have w2: "\<And>q x. client_wf ((put_pc r q s)\<lparr>connectionError := x\<rparr>)"
    by (simp add: client_wf_def)
  show ?thesis using Some w w2 by (simp add: onconnectionstatechange_def Let_def)
qed

lemma wf_ontrack: "client_wf s \<Longrightarrow> client_wf (ontrack r st s)"
  by (simp add: ontrack_def client_wf_def split: option.splits)

lemma wf_fire_timer:
  assumes "client_wf s"
  shows "client_wf (fire_timer tid s)"
proof (cases "timers s tid")
  case None
  then show ?thesis using assms by (simp add: fire_timer_def)
next
  case (Some t)
  let ?s1 = "s\<lparr>timers := (timers s)(tid := None)\<rparr>"
  have w1: "client_wf ?s1" using assms by (simp add: client_wf_def)
  have w2: "\<And>x. client_wf (?s1\<lparr>connectionError := x\<rparr>)" using w1 by (simp add: client_wf_def)
  have w3: "\<And>r q. pcs ?s1 r \<noteq> None \<Longrightarrow> client_wf (put_pc r q ?s1)" using w1 by (rule wf_put_pc)
  show ?thesis
    using Some w1 wf_closePeerConnection[OF w2] w3
    by (simp add: fire_timer_def Let_def split: timer_action.splits option.splits)
qed

text \<open>
  What the two shadowed listeners come to: the listener for \<open>offer\<close> closes the connection
  to the sender, and one to a peer called \<open>undefined\<close>, and sends nothing; the listener for
  \<open>answer\<close> changes nothing.
\<close>

lemma on_offer_closes_only:
  "on_offer off fromUserId fromUserName s =
     (let s1 = (if hasPeerConnection fromUserId s
                then snd (closePeerConnection fromUserId s) else s)
      in (if hasPeerConnection ''undefined'' s1
          then snd (closePeerConnection ''undefined'' s1) else s1), [])"
  by (simp add: on_offer_def Let_def)

lemma on_answer_unchanged: "on_answer ans fromUserId s = s"
  by (simp add: on_answer_def)

lemma wf_client_step:
  assumes "client_wf s"
  shows "client_wf (client_step b ls ev s)"
proof (cases ev)
  case (GotUserJoined userId)
  have 1: "client_wf (snd (createPeerConnection b userId ls s))" using assms by (rule wf_createPeerConnection)
  have 2: "client_wf (snd (createOffer b userId (snd (createPeerConnection b userId ls s))))"
    using 1 by (rule wf_createOffer)
  show ?thesis using GotUserJoined assms 2
    by (auto simp: on_user_joined_def Let_def split: prod.splits option.splits)
next
  case (GotOffer off fromUserId fromUserName)
  define s1 where "s1 = (if hasPeerConnection fromUserId s
                          then snd (closePeerConnection fromUserId s) else s)"
  have 1: "client_wf s1" using assms by (simp add: s1_def wf_closePeerConnection)
  have 2: "client_wf (if hasPeerConnection ''undefined'' s1
                      then snd (closePeerConnection ''undefined'' s1) else s1)"
    using 1 by (simp add: wf_closePeerConnection)
  show ?thesis using GotOffer 2
    by (simp add: on_offer_closes_only Let_def s1_def[symmetric])
next
  case (GotAnswer ans fromUserId)
  then show ?thesis using assms by (simp add: on_answer_unchanged)
next
  case (GotIceCandidate c fromUserId)
  then show ?thesis using assms by (simp add: on_ice_candidate_def wf_addIceCandidate)
next
  case (GotUserLeft userId)
  have "client_wf (snd (closePeerConnection userId s))" using assms by (rule wf_closePeerConnection)
  then show ?thesis using GotUserLeft by (simp add: on_user_left_def Let_def client_wf_def)
next
  case (IceConnectionStateChange r st)
  then show ?thesis using assms by (simp add: wf_oniceconnectionstatechange)
next
  case (ConnectionStateChange r st)
  then show ?thesis using assms by (simp add: wf_onconnectionstatechange)
next
  case (TrackEvent r st)
  then show ?thesis using assms by (simp add: wf_ontrack)
next
  case (TimerFires tid)
  then show ?thesis using assms by (simp add: wf_fire_timer)
next
  case (UpdateStream peerId st)
  then show ?thesis using assms by (simp add: wf_updateStream)
qed

lemma wf_client_run: "client_wf s \<Longrightarrow> client_wf (client_run b ls evs s)"
  by (induction evs arbitrary: s) (simp_all add: wf_client_step)

lemma wf_init_client: "client_wf init_client"
  by (simp add: client_wf_def init_client_def)

lemma wf_deliver: "client_wf s \<Longrightarrow> client_wf (deliver b peerId cs s)"
  by (induction cs arbitrary: s) (simp_all add: wf_addIceCandidate)

lemma restart_on_closed_connection:
  assumes "timers s tid = Some \<lparr>timer_delay = d, timer_action = IceRestart r\<rparr>"
    and "pcs s r = Some (pc_close p)"
  shows "fire_timer tid s = s\<lparr>timers := (timers s)(tid := None)\<rparr>"
  using assms by (simp add: fire_timer_def Let_def pc_close_def log_call_def)

subsection \<open>Facts about the example runs\<close>

lemma calling_pc:
  "\<exists>p. get_pc calling ''q'' = Some (0, p) \<and> remoteDescription p = None \<and> attempted p = []"
  by (simp add: calling_def camera_def client_defs)

lemma calling_queue: "queue_of calling ''q'' = []"
  by (simp add: calling_def camera_def client_defs)

lemma answered_pc:
  "\<exists>p. get_pc answered ''q'' = Some (0, p) \<and> remoteDescription p = Some an_answer \<and>
       attempted p = [] \<and> signalingState p = ''stable'' \<and> restarts p = 0 \<and> peer p = ''q''"
  by (simp add: answered_def calling_def camera_def an_answer_def client_defs)

lemma answered_timers: "next_timer answered = 3"
  by (simp add: answered_def calling_def camera_def an_answer_def client_defs)

lemma connected_peer_pc:
  "\<exists>p. get_pc connected_peer ''q'' = Some (0, p) \<and>
       senders p = [Some \<lparr>track_id = ''mic'', track_kind = ''audio''\<rparr>,
                    Some \<lparr>track_id = ''cam'', track_kind = ''video''\<rparr>]"
  by (simp add: connected_peer_def camera_def an_answer_def client_defs)

lemma glare_state:
  "\<exists>p. get_pc glare ''q'' = Some (0, p) \<and> remoteDescription p = None"
  "connectionTimeoutsRef glare ''q'' = Some 1" "connectionTimeoutsRef glare ''q_ice'' = Some 2"
  "next_pc glare = 1" "queue_of glare ''q'' = [''c1'', ''c2'']"
  "timers glare 1 \<noteq> None" "timers glare 2 \<noteq> None" "isConnected glare"
  by (simp_all add: glare_def camera_def client_defs numeral_2_eq_2)

lemma early_state:
  "get_pc early_candidates ''q'' = None" "isConnected early_candidates"
  "queue_of early_candidates ''q'' = [''c1'', ''c2'']" "next_pc early_candidates = 0"
  by (simp_all add: early_candidates_def client_defs)

lemma glare_pc:
  "\<exists>p. get_pc glare ''q'' = Some (0, p) \<and> remoteDescription p = None \<and> attempted p = []"
  by (simp add: glare_def camera_def client_defs)

lemma example_wf:
  "client_wf calling" "client_wf answered" "client_wf connected_peer" "client_wf audio_peer"
  "client_wf glare" "client_wf early_candidates" "client_wf twice_failed"
  unfolding calling_def answered_def connected_peer_def audio_peer_def glare_def
    early_candidates_def twice_failed_def
  by (intro wf_client_run wf_handleAnswer wf_init_client)+

lemma ok_browser_tracks:
  "\<forall>p i t. replace_track ok_browser p i t = None" "\<forall>p t. add_track ok_browser p t = None"
  by (simp_all add: ok_browser_def)

subsection \<open>The claims about the engine\<close>

text \<open>
  \<^bold>\<open>C2\<close>, as the code has it. For every browser, whichever candidates it rejects:
  candidates delivered to \<open>addIceCandidate\<close> while the peer has no connection, or a
  connection without a remote description, are appended to the peer's queue in arrival
  order, touch no connection and set no error. On a connection with a remote description,
  \<open>processIceCandidateQueue\<close> hands each queued candidate to the connection once, in queue
  order, and empties the queue; candidates delivered after that go to the connection
  directly and the queue table is not touched. End to end: candidates \<open>early\<close> arrive, the
  remote description is set, candidates \<open>late\<close> arrive; then the connection has been handed
  the old queue, \<open>early\<close> and \<open>late\<close>, in this order and once each, and the queue is empty.
  This holds when the remote description is set by \<open>handleAnswer\<close>, and when it is set by
  \<open>handleOffer\<close>, on a connection that it builds or on one that the peer had, provided
  that \<open>createAnswer\<close> and \<open>setLocalDescription\<close> succeed after it.
\<close>

theorem ice_candidates_queued_then_replayed:
  "(\<not> has_remote s peerId \<longrightarrow>
      queue_of (deliver b peerId cs s) peerId = queue_of s peerId @ cs \<and>
      pcs (deliver b peerId cs s) = pcs s \<and>
      connectionError (deliver b peerId cs s) = connectionError s) \<and>
   (get_pc s peerId = Some (r, p) \<and> remoteDescription p \<noteq> None \<longrightarrow>
      (\<exists>p'. pcs (processIceCandidateQueue b peerId s) r = Some p' \<and>
            attempted p' = attempted p @ queue_of s peerId) \<and>
      queue_of (processIceCandidateQueue b peerId s) peerId = [] \<and>
      (\<exists>p'. pcs (deliver b peerId cs s) r = Some p' \<and> attempted p' = attempted p @ cs) \<and>
      iceCandidatesQueueRef (deliver b peerId cs s) = iceCandidatesQueueRef s) \<and>
   (get_pc s peerId = Some (r, p) \<and> remoteDescription p = None \<and> set_remote b p ans = None \<longrightarrow>
      (\<exists>p'. pcs (deliver b peerId late (snd (handleAnswer b peerId ans (deliver b peerId early s)))) r
               = Some p' \<and>
            attempted p' = attempted p @ queue_of s peerId @ early @ late) \<and>
      queue_of (deliver b peerId late (snd (handleAnswer b peerId ans (deliver b peerId early s))))
        peerId = []) \<and>
   ((\<forall>x. set_remote b x off = None) \<and> (\<forall>x. create_answer b x = Inr sdp) \<and>
    (\<forall>x d. set_local b x d = None) \<longrightarrow>
      (get_pc s peerId = Some (r, p) \<and> remoteDescription p = None \<longrightarrow>
         (\<exists>p'. pcs (deliver b peerId late
                       (snd (handleOffer b peerId off localStream (deliver b peerId early s)))) r
                  = Some p' \<and>
               attempted p' = attempted p @ queue_of s peerId @ early @ late) \<and>
         queue_of (deliver b peerId late
                     (snd (handleOffer b peerId off localStream (deliver b peerId early s))))
           peerId = []) \<and>
      (get_pc s peerId = None \<and> supported b \<and> construct_error b = None \<longrightarrow>
         (\<exists>p'. pcs (deliver b peerId late
                       (snd (handleOffer b peerId off localStream (deliver b peerId early s))))
                  (next_pc s) = Some p' \<and>
               attempted p' = queue_of s peerId @ early @ late) \<and>
         queue_of (deliver b peerId late
                     (snd (handleOffer b peerId off localStream (deliver b peerId early s))))
           peerId = []))"
proof (intro conjI impI)
  assume nr: "\<not> has_remote s peerId"
  show "queue_of (deliver b peerId cs s) peerId = queue_of s peerId @ cs"
    and "pcs (deliver b peerId cs s) = pcs s"
    and "connectionError (deliver b peerId cs s) = connectionError s"
    by (simp_all add: deliver_queues[OF nr] queue_of_def)
next
  assume a: "get_pc s peerId = Some (r, p) \<and> remoteDescription p \<noteq> None"
  then have g: "get_pc s peerId = Some (r, p)" and rd: "remoteDescription p \<noteq> None" by simp_all
  from processIceCandidateQueue_flushes[OF g rd, of b]
  show "\<exists>p'. pcs (processIceCandidateQueue b peerId s) r = Some p' \<and>
            attempted p' = attempted p @ queue_of s peerId"
    and "queue_of (processIceCandidateQueue b peerId s) peerId = []"
    by (simp_all add: add_queued_attempted)
  from deliver_direct[OF g rd, of b cs]
  show "\<exists>p'. pcs (deliver b peerId cs s) r = Some p' \<and> attempted p' = attempted p @ cs"
    and "iceCandidatesQueueRef (deliver b peerId cs s) = iceCandidatesQueueRef s"
    by (auto simp: put_pc_def)
next
  assume a: "get_pc s peerId = Some (r, p) \<and> remoteDescription p = None \<and> set_remote b p ans = None"
  then have g: "get_pc s peerId = Some (r, p)" and rd: "remoteDescription p = None"
    and ok: "set_remote b p ans = None" by simp_all
  have nr: "\<not> has_remote s peerId" using g rd by (simp add: has_remote_def)
  let ?s1 = "deliver b peerId early s"
  have g1: "get_pc ?s1 peerId = Some (r, p)"
    using g by (auto simp: deliver_queues[OF nr] get_pc_def split: option.splits)
  have q1: "queue_of ?s1 peerId = queue_of s peerId @ early"
    by (simp add: deliver_queues[OF nr] queue_of_def)
  let ?s2 = "snd (handleAnswer b peerId ans ?s1)"
  from handleAnswer_flushes[OF g1 ok] obtain p2 where
    g2: "get_pc ?s2 peerId = Some (r, p2)" and at2: "attempted p2 = attempted p @ queue_of ?s1 peerId"
    and rd2: "remoteDescription p2 \<noteq> None" and q2: "queue_of ?s2 peerId = []" by blast
  from deliver_after_flush[OF g2 rd2 q2, of b late]
  show "\<exists>p'. pcs (deliver b peerId late ?s2) r = Some p' \<and>
            attempted p' = attempted p @ queue_of s peerId @ early @ late"
    and "queue_of (deliver b peerId late ?s2) peerId = []"
    by (simp_all add: at2 q1)
next
  assume br: "(\<forall>x. set_remote b x off = None) \<and> (\<forall>x. create_answer b x = Inr sdp) \<and>
              (\<forall>x d. set_local b x d = None)"
  then have sr: "\<forall>x. set_remote b x off = None" and ca: "\<forall>x. create_answer b x = Inr sdp"
    and sl: "\<forall>x d. set_local b x d = None" by simp_all
  let ?s1 = "deliver b peerId early s"
  let ?s2 = "snd (handleOffer b peerId off localStream ?s1)"
  {
    assume a: "get_pc s peerId = Some (r, p) \<and> remoteDescription p = None"
    then have g: "get_pc s peerId = Some (r, p)" and rd: "remoteDescription p = None" by simp_all
    have nr: "\<not> has_remote s peerId" using g rd by (simp add: has_remote_def)
    have g1: "get_pc ?s1 peerId = Some (r, p)"
      using g by (auto simp: deliver_queues[OF nr] get_pc_def split: option.splits)
    have q1: "queue_of ?s1 peerId = queue_of s peerId @ early"
      by (simp add: deliver_queues[OF nr] queue_of_def)
    from handleOffer_replays[OF g1 sr ca sl, of localStream] obtain p2 where
      g2: "get_pc ?s2 peerId = Some (r, p2)" and at2: "attempted p2 = attempted p @ queue_of ?s1 peerId"
      and rd2: "remoteDescription p2 \<noteq> None" and q2: "queue_of ?s2 peerId = []" by blast
    from deliver_after_flush[OF g2 rd2 q2, of b late]
    show "\<exists>p'. pcs (deliver b peerId late ?s2) r = Some p' \<and>
              attempted p' = attempted p @ queue_of s peerId @ early @ late"
      and "queue_of (deliver b peerId late ?s2) peerId = []"
      by (simp_all add: at2 q1)
  }
  {
    assume a: "get_pc s peerId = None \<and> supported b \<and> construct_error b = None"
    then have g: "get_pc s peerId = None" and sup: "supported b"
      and con: "construct_error b = None" by simp_all
    have nr: "\<not> has_remote s peerId" using g by (simp add: has_remote_def)
    have g1: "get_pc ?s1 peerId = None"
      using g by (auto simp: deliver_queues[OF nr] get_pc_def split: option.splits)
    have q1: "queue_of ?s1 peerId = queue_of s peerId @ early"
      by (simp add: deliver_queues[OF nr] queue_of_def)
    have n1: "next_pc ?s1 = next_pc s" by (simp add: deliver_queues[OF nr])
    from handleOffer_replays_fresh[OF g1 sup con sr ca sl, of localStream] obtain p2 where
      g2: "get_pc ?s2 peerId = Some (next_pc s, p2)" and at2: "attempted p2 = queue_of ?s1 peerId"
      and rd2: "remoteDescription p2 \<noteq> None" and q2: "queue_of ?s2 peerId = []"
      unfolding n1 by blast
    from deliver_after_flush[OF g2 rd2 q2, of b late]
    show "\<exists>p'. pcs (deliver b peerId late ?s2) (next_pc s) = Some p' \<and>
              attempted p' = queue_of s peerId @ early @ late"
      and "queue_of (deliver b peerId late ?s2) peerId = []"
      by (simp_all add: at2 q1)
  }
qed

theorem ice_candidates_queued_then_replayed_witness:
  "\<not> has_remote calling ''q'' \<and>
   queue_of (deliver ok_browser ''q'' [''c1'', ''c2''] calling) ''q'' = [''c1'', ''c2''] \<and>
   map_option attempted
     (pcs (deliver ok_browser ''q'' [''c3'']
             (snd (handleAnswer ok_browser ''q'' an_answer
                     (deliver ok_browser ''q'' [''c1'', ''c2''] calling)))) 0) =
     Some [''c1'', ''c2'', ''c3''] \<and>
   queue_of (deliver ok_browser ''q'' [''c3'']
               (snd (handleAnswer ok_browser ''q'' an_answer
                       (deliver ok_browser ''q'' [''c1'', ''c2''] calling)))) ''q'' = [] \<and>
   has_remote (snd (handleAnswer ok_browser ''q'' an_answer calling)) ''q'' \<and>
   map_option attempted
     (pcs (deliver ok_browser ''q'' [''c4'']
             (snd (handleAnswer ok_browser ''q'' an_answer calling))) 0) = Some [''c4''] \<and>
   iceCandidatesQueueRef
     (deliver ok_browser ''q'' [''c4''] (snd (handleAnswer ok_browser ''q'' an_answer calling))) =
     iceCandidatesQueueRef (snd (handleAnswer ok_browser ''q'' an_answer calling)) \<and>
   queue_of glare ''q'' = [''c1'', ''c2''] \<and>
   map_option attempted
     (pcs (deliver ok_browser ''q'' [''c3'']
             (snd (handleOffer ok_browser ''q'' an_offer (Some camera) glare))) 0) =
     Some [''c1'', ''c2'', ''c3''] \<and>
   queue_of (deliver ok_browser ''q'' [''c3'']
               (snd (handleOffer ok_browser ''q'' an_offer (Some camera) glare))) ''q'' = [] \<and>
   get_pc early_candidates ''q'' = None \<and>
   queue_of early_candidates ''q'' = [''c1'', ''c2''] \<and>
   map_option attempted
     (pcs (deliver ok_browser ''q'' [''c3'']
             (snd (handleOffer ok_browser ''q'' an_offer (Some camera) early_candidates))) 0) =
     Some [''c1'', ''c2'', ''c3''] \<and>
   queue_of (deliver ok_browser ''q'' [''c3'']
               (snd (handleOffer ok_browser ''q'' an_offer (Some camera) early_candidates)))
     ''q'' = []"
proof -
  obtain p where p: "get_pc calling ''q'' = Some (0, p)" "remoteDescription p = None"
    "attempted p = []" using calling_pc by blast
  obtain p2 where p2: "get_pc (snd (handleAnswer ok_browser ''q'' an_answer calling)) ''q'' = Some (0, p2)"
    "remoteDescription p2 = Some an_answer" "attempted p2 = []"
    using answered_pc unfolding answered_def by blast
  obtain g where g: "get_pc glare ''q'' = Some (0, g)" "remoteDescription g = None"
    "attempted g = []" using glare_pc by blast
  have ok: "set_remote ok_browser p an_answer = None" by (simp add: ok_browser_def)
  have nr: "\<not> has_remote calling ''q''" using p by (simp add: has_remote_def)
  have hr: "has_remote (snd (handleAnswer ok_browser ''q'' an_answer calling)) ''q''"
    using p2 by (simp add: has_remote_def)
  have 1: "queue_of (deliver ok_browser ''q'' [''c1'', ''c2''] calling) ''q'' = [''c1'', ''c2'']"
    "map_option attempted
       (pcs (deliver ok_browser ''q'' [''c3'']
               (snd (handleAnswer ok_browser ''q'' an_answer
                       (deliver ok_browser ''q'' [''c1'', ''c2''] calling)))) 0) =
       Some [''c1'', ''c2'', ''c3'']"
    "queue_of (deliver ok_browser ''q'' [''c3'']
                 (snd (handleAnswer ok_browser ''q'' an_answer
                         (deliver ok_browser ''q'' [''c1'', ''c2''] calling)))) ''q'' = []"
    using ice_candidates_queued_then_replayed[where s = calling and peerId = "''q''"
        and b = ok_browser and cs = "[''c1'', ''c2'']" and r = 0 and p = p and ans = an_answer
        and early = "[''c1'', ''c2'']" and late = "[''c3'']"]
      p ok nr calling_queue
    by auto
  have 2: "map_option attempted
       (pcs (deliver ok_browser ''q'' [''c4'']
               (snd (handleAnswer ok_browser ''q'' an_answer calling))) 0) = Some [''c4'']"
    "iceCandidatesQueueRef
       (deliver ok_browser ''q'' [''c4''] (snd (handleAnswer ok_browser ''q'' an_answer calling))) =
     iceCandidatesQueueRef (snd (handleAnswer ok_browser ''q'' an_answer calling))"
    using ice_candidates_queued_then_replayed[where
        s = "snd (handleAnswer ok_browser ''q'' an_answer calling)" and peerId = "''q''"
        and b = ok_browser and cs = "[''c4'']" and r = 0 and p = p2]
      p2
    by auto
  have 3: "map_option attempted
       (pcs (deliver ok_browser ''q'' [''c3'']
               (snd (handleOffer ok_browser ''q'' an_offer (Some camera) glare))) 0) =
       Some [''c1'', ''c2'', ''c3'']"
    "queue_of (deliver ok_browser ''q'' [''c3'']
                 (snd (handleOffer ok_browser ''q'' an_offer (Some camera) glare))) ''q'' = []"
    using ice_candidates_queued_then_replayed[where s = glare and peerId = "''q''"
        and b = ok_browser and r = 0 and p = g and off = an_offer and sdp = "''v=0 answer''"
        and localStream = "Some camera" and early = "[]" and late = "[''c3'']"]
      g ok_browser_offer glare_state(5)
    by auto
  have 4: "map_option attempted
       (pcs (deliver ok_browser ''q'' [''c3'']
               (snd (handleOffer ok_browser ''q'' an_offer (Some camera) early_candidates))) 0) =
       Some [''c1'', ''c2'', ''c3'']"
    "queue_of (deliver ok_browser ''q'' [''c3'']
                 (snd (handleOffer ok_browser ''q'' an_offer (Some camera) early_candidates)))
       ''q'' = []"
    using ice_candidates_queued_then_replayed[where s = early_candidates and peerId = "''q''"
        and b = ok_browser and off = an_offer and sdp = "''v=0 answer''"
        and localStream = "Some camera" and early = "[]" and late = "[''c3'']"]
      ok_browser_offer early_state
    by auto
  show ?thesis using nr hr 1 2 3 4 glare_state(5) early_state(1,3) by simp
qed

text \<open>
  The claim as it is written fails when \<open>handleOffer\<close> has set the remote description and
  \<open>createAnswer\<close> then throws: the \<open>catch\<close> block is entered before
  \<open>processIceCandidateQueue\<close> is reached. The two candidates that were queued stay in the
  queue and are handed to no connection, and a candidate that arrives later is applied
  although they were not.
\<close>

theorem ice_queue_kept_counterexample:
  "queue_of early_candidates ''q'' = [''c1'', ''c2''] \<and>
   has_remote (snd (handleOffer no_answer_browser ''q'' an_offer (Some camera) early_candidates))
     ''q'' \<and>
   queue_of (snd (handleOffer no_answer_browser ''q'' an_offer (Some camera) early_candidates))
     ''q'' = [''c1'', ''c2''] \<and>
   map_option attempted
     (pcs (deliver no_answer_browser ''q'' [''c3'']
             (snd (handleOffer no_answer_browser ''q'' an_offer (Some camera) early_candidates)))
        0) = Some [''c3''] \<and>
   queue_of (deliver no_answer_browser ''q'' [''c3'']
               (snd (handleOffer no_answer_browser ''q'' an_offer (Some camera) early_candidates)))
     ''q'' = [''c1'', ''c2'']"
  by (simp add: early_candidates_def no_answer_browser_def camera_def an_offer_def client_defs)

text \<open>
  \<^bold>\<open>C5\<close>. What the listener for \<open>offer\<close> does, whatever the offer, the state and
  the browser: it sends nothing, it constructs no connection, and it leaves the offerer
  without a session. With two candidates of \<open>q\<close> queued and no connection
  (\<open>early_candidates\<close>), an offer of \<open>q\<close> changes nothing: the queue is not replayed and
  no answer goes out. With a connection to \<open>q\<close> (\<open>glare\<close>), the connection is closed and
  nothing replaces it.
\<close>

theorem offer_listener_builds_no_session:
  "snd (on_offer off fromUserId fromUserName s) = [] \<and>
   next_pc (fst (on_offer off fromUserId fromUserName s)) = next_pc s \<and>
   get_pc (fst (on_offer off fromUserId fromUserName s)) fromUserId = None \<and>
   on_offer an_offer ''q'' (Some ''Quinn'') early_candidates = (early_candidates, []) \<and>
   queue_of early_candidates ''q'' = [''c1'', ''c2''] \<and>
   hasPeerConnection ''q'' glare \<and>
   snd (on_offer an_offer ''q'' (Some ''Quinn'') glare) = [] \<and>
   map_option signalingState (pcs (fst (on_offer an_offer ''q'' (Some ''Quinn'') glare)) 0) =
     Some ''closed'' \<and>
   pcs (fst (on_offer an_offer ''q'' (Some ''Quinn'') glare)) 1 = None \<and>
   peerConnectionsRef (fst (on_offer an_offer ''q'' (Some ''Quinn'') glare)) ''q'' = None"
proof -
  define s1 where "s1 = (if hasPeerConnection fromUserId s
                          then snd (closePeerConnection fromUserId s) else s)"
  define s2 where "s2 = (if hasPeerConnection ''undefined'' s1
                          then snd (closePeerConnection ''undefined'' s1) else s1)"
  have oo: "on_offer off fromUserId fromUserName s = (s2, [])"
    by (simp add: on_offer_closes_only Let_def s1_def s2_def)
  have n: "next_pc s2 = next_pc s"
    by (simp add: s1_def s2_def closePeerConnection_next_pc)
  have "get_pc s1 fromUserId = None" unfolding s1_def by (rule close_if_present)
  then have g: "get_pc s2 fromUserId = None"
    by (simp add: s2_def closePeerConnection_keeps_absent)
  have e: "on_offer an_offer ''q'' (Some ''Quinn'') early_candidates = (early_candidates, [])"
    by (simp add: on_offer_closes_only early_candidates_def client_defs)
  have h: "hasPeerConnection ''q'' glare"
    using glare_state(1) by (auto simp: hasPeerConnection_def)
  have gl: "snd (on_offer an_offer ''q'' (Some ''Quinn'') glare) = []"
    "map_option signalingState (pcs (fst (on_offer an_offer ''q'' (Some ''Quinn'') glare)) 0) =
      Some ''closed''"
    "pcs (fst (on_offer an_offer ''q'' (Some ''Quinn'') glare)) 1 = None"
    "peerConnectionsRef (fst (on_offer an_offer ''q'' (Some ''Quinn'') glare)) ''q'' = None"
    by (simp_all add: on_offer_closes_only glare_def camera_def client_defs)
  show ?thesis using n g e h gl early_state(3) by (simp add: oo)
qed

text \<open>
  \<^bold>\<open>C6\<close>, as the code has it. Each time the ICE connection state of a connection
  reports \<open>failed\<close>, the handler records the status \<open>failed\<close> for the peer and sets
  one timer of 1000 ms, stored in no table; when that timer fires, \<open>restartIce\<close> is
  called if and only if the signaling state is \<open>stable\<close>. The handler keeps no count:
  after \<open>n\<close> rounds of failure on a stable connection, \<open>restartIce\<close> has been called
  \<open>n\<close> more times. The error naming the peer is set by the handler of the connection
  state, when that state reports \<open>failed\<close>.
\<close>

theorem ice_failure_schedules_restart:
  "pcs s r = Some p \<longrightarrow>
     oniceconnectionstatechange r ''failed'' s =
       s\<lparr>pcs := (pcs s)(r \<mapsto> p\<lparr>iceConnectionState := ''failed''\<rparr>),
         connectionStatus := (connectionStatus s)(peer p \<mapsto> ''failed''),
         timers := (timers s)(next_timer s \<mapsto> \<lparr>timer_delay = 1000, timer_action = IceRestart r\<rparr>),
         next_timer := Suc (next_timer s)\<rparr> \<and>
     (timers s tid = Some \<lparr>timer_delay = 1000, timer_action = IceRestart r\<rparr> \<longrightarrow>
        fire_timer tid s =
          s\<lparr>timers := (timers s)(tid := None),
            pcs := (if signalingState p = ''stable'' then (pcs s)(r \<mapsto> pc_restartIce p)
                    else pcs s)\<rparr>) \<and>
     (signalingState p = ''stable'' \<longrightarrow>
        (\<exists>p'. pcs (ice_fail_cycles n r s) r = Some p' \<and> restarts p' = restarts p + n)) \<and>
     connectionError (onconnectionstatechange r ''failed'' s) =
       Some (''Connection failed for '' @ peer p)"
proof (intro impI conjI)
  assume p: "pcs s r = Some p"
  show "oniceconnectionstatechange r ''failed'' s =
       s\<lparr>pcs := (pcs s)(r \<mapsto> p\<lparr>iceConnectionState := ''failed''\<rparr>),
         connectionStatus := (connectionStatus s)(peer p \<mapsto> ''failed''),
         timers := (timers s)(next_timer s \<mapsto> \<lparr>timer_delay = 1000, timer_action = IceRestart r\<rparr>),
         next_timer := Suc (next_timer s)\<rparr>"
    by (rule ice_failed_step[OF p])
  show "connectionError (onconnectionstatechange r ''failed'' s) =
       Some (''Connection failed for '' @ peer p)"
    using p by (simp add: onconnectionstatechange_def Let_def put_pc_def)
  {
    assume t: "timers s tid = Some \<lparr>timer_delay = 1000, timer_action = IceRestart r\<rparr>"
    show "fire_timer tid s =
          s\<lparr>timers := (timers s)(tid := None),
            pcs := (if signalingState p = ''stable'' then (pcs s)(r \<mapsto> pc_restartIce p)
                    else pcs s)\<rparr>"
      by (rule fire_restart[OF t p])
  }
  {
    assume st: "signalingState p = ''stable''"
    from many_cycles[OF p st, of n]
    show "\<exists>p'. pcs (ice_fail_cycles n r s) r = Some p' \<and> restarts p' = restarts p + n" by blast
  }
qed

theorem ice_failure_schedules_restart_witness:
  "timers (oniceconnectionstatechange 0 ''failed'' answered) 3 =
     Some \<lparr>timer_delay = 1000, timer_action = IceRestart 0\<rparr> \<and>
   connectionStatus (oniceconnectionstatechange 0 ''failed'' answered) ''q'' = Some ''failed'' \<and>
   map_option restarts
     (pcs (fire_timer 3 (oniceconnectionstatechange 0 ''failed'' answered)) 0) = Some 1 \<and>
   map_option restarts (pcs (ice_fail_cycles 3 0 answered) 0) = Some 3 \<and>
   connectionError (onconnectionstatechange 0 ''failed'' answered) =
     Some ''Connection failed for q''"
proof -
  obtain p where p: "get_pc answered ''q'' = Some (0, p)" "signalingState p = ''stable''"
    "restarts p = 0" and pe: "peer p = ''q''" using answered_pc by blast
  have pp: "pcs answered 0 = Some p" using p(1) by (auto simp: get_pc_def split: option.splits)
  let ?s1 = "oniceconnectionstatechange 0 ''failed'' answered"
  note t = ice_failure_schedules_restart[of answered 0 p 3 3]
  have s1: "?s1 = answered\<lparr>pcs := (pcs answered)(0 \<mapsto> p\<lparr>iceConnectionState := ''failed''\<rparr>),
         connectionStatus := (connectionStatus answered)(peer p \<mapsto> ''failed''),
         timers := (timers answered)(next_timer answered \<mapsto>
                      \<lparr>timer_delay = 1000, timer_action = IceRestart 0\<rparr>),
         next_timer := Suc (next_timer answered)\<rparr>"
    using t pp by simp
  have t3: "timers ?s1 3 = Some \<lparr>timer_delay = 1000, timer_action = IceRestart 0\<rparr>"
    and p1: "pcs ?s1 0 = Some (p\<lparr>iceConnectionState := ''failed''\<rparr>)"
    and cs: "connectionStatus ?s1 ''q'' = Some ''failed''"
    by (simp_all add: s1 answered_timers pe)
  note t' = ice_failure_schedules_restart[of ?s1 0 "p\<lparr>iceConnectionState := ''failed''\<rparr>" 3 0]
  have f: "map_option restarts (pcs (fire_timer 3 ?s1) 0) = Some 1"
    using t' p1 t3 p(2,3) by (simp add: restarts_restartIce restarts_ice_state)
  have c3: "map_option restarts (pcs (ice_fail_cycles 3 0 answered) 0) = Some 3"
    using t pp p(2,3) by auto
  have ce: "connectionError (onconnectionstatechange 0 ''failed'' answered) =
     Some ''Connection failed for q''"
    using t pp pe by simp
  show ?thesis using t3 cs f c3 ce by simp
qed

text \<open>
  The claim as it is written fails: after two failures of the same connection,
  \<open>restartIce\<close> has been called twice and the session is still in the tables. This is so
  on the connection that \<open>handleAnswer\<close> has negotiated (\<open>twice_failed\<close>, where no error
  is set either), and on the connection that the listener for \<open>user-joined\<close> leaves in
  the signaling state \<open>stable\<close> when \<open>createOffer\<close> fails (\<open>twice_failed_unoffered\<close>).
\<close>

theorem ice_restart_counterexample:
  "map_option restarts (pcs twice_failed 0) = Some 2 \<and>
   peerConnectionsRef twice_failed ''q'' = Some 0 \<and>
   connectionStatus twice_failed ''q'' = Some ''failed'' \<and>
   connectionError twice_failed = None \<and>
   map_option restarts (pcs twice_failed_unoffered 0) = Some 2 \<and>
   peerConnectionsRef twice_failed_unoffered ''q'' = Some 0 \<and>
   connectionStatus twice_failed_unoffered ''q'' = Some ''failed''"
  by (simp add: twice_failed_def twice_failed_unoffered_def no_offer_browser_def answered_def
      calling_def camera_def an_answer_def client_defs)

text \<open>
  \<^bold>\<open>C7\<close>, as the code has it. In a browser where \<open>replaceTrack\<close> and \<open>addTrack\<close>
  succeed, \<open>updateStream\<close> on a peer with a connection returns \<open>true\<close>; the senders
  that existed keep their place and the kind of their track; a kind that was sent before
  has as many senders afterwards as before, and a kind that was not sent has one sender for
  each track of that kind in the stream. When the tracks of the stream are of pairwise
  different kinds, every track of the stream is afterwards the track of the first sender of
  its kind, and a second \<open>updateStream\<close> with the same stream leaves the senders as they
  are.
\<close>

theorem updateStream_replaces_by_kind:
  assumes "\<forall>p i t. replace_track b p i t = None" and "\<forall>p t. add_track b p t = None"
    and "get_pc s peerId = Some (r, p)"
  shows "fst (updateStream b peerId st s) = True \<and>
         (\<exists>p'. get_pc (snd (updateStream b peerId st s)) peerId = Some (r, p') \<and>
            length (senders p) \<le> length (senders p') \<and>
            (\<forall>i < length (senders p).
               map_option track_kind (senders p' ! i) = map_option track_kind (senders p ! i)) \<and>
            (\<forall>k. kind_count k (senders p') =
                   (if kind_count k (senders p) = 0
                    then length (filter (\<lambda>t. track_kind t = k) (stream_tracks st))
                    else kind_count k (senders p))) \<and>
            (distinct (map track_kind (stream_tracks st)) \<longrightarrow>
               (\<forall>t \<in> set (stream_tracks st).
                  \<exists>i. find_sender (senders p') (track_kind t) 0 = Some i \<and>
                      senders p' ! i = Some t) \<and>
               (\<exists>p''. get_pc (snd (updateStream b peerId st (snd (updateStream b peerId st s))))
                         peerId = Some (r, p'') \<and>
                      senders p'' = senders p')))"
proof -
  let ?ts = "stream_tracks st"
  let ?ss = "senders p"
  from updateStream_ok[OF assms, of st] obtain p' where
    u: "updateStream b peerId st s = (True, put_pc r p' s)"
    and sp: "senders p' = update_senders (length ?ss) ?ts ?ss" by blast
  have g': "get_pc (put_pc r p' s) peerId = Some (r, p')" by (rule get_pc_put_pc[OF assms(3)])
  have inplace: "length ?ss \<le> length (senders p') \<and>
      (\<forall>i < length ?ss. map_option track_kind (senders p' ! i) = map_option track_kind (?ss ! i))"
    using kinds_in_place[of "length ?ss" ?ss ?ts] by (simp add: sp)
  have cnt: "\<forall>k. kind_count k (senders p') =
                   (if kind_count k ?ss = 0 then length (filter (\<lambda>t. track_kind t = k) ?ts)
                    else kind_count k ?ss)"
    using kind_count_steps[of "length ?ss" ?ss _ ?ts] by (simp add: sp)
  have dist: "distinct (map track_kind ?ts) \<longrightarrow>
               (\<forall>t \<in> set ?ts. \<exists>i. find_sender (senders p') (track_kind t) 0 = Some i \<and>
                      senders p' ! i = Some t) \<and>
               (\<exists>p''. get_pc (snd (updateStream b peerId st (put_pc r p' s))) peerId = Some (r, p'') \<and>
                      senders p'' = senders p')"
  proof
    assume d: "distinct (map track_kind ?ts)"
    have vac: "\<forall>j. length ?ss \<le> j \<and> j < length ?ss \<longrightarrow>
                 (\<forall>t \<in> set ?ts. \<not> has_kind (track_kind t) (?ss ! j))" by (intro allI impI) arith
    have sent: "\<forall>t \<in> set ?ts. \<exists>i. find_sender (senders p') (track_kind t) 0 = Some i \<and>
                      senders p' ! i = Some t"
      unfolding sp by (rule every_track_sent[OF d le_refl vac])
    from updateStream_ok[OF assms(1,2) g', of st] obtain p'' where
      u2: "updateStream b peerId st (put_pc r p' s) = (True, put_pc r p'' (put_pc r p' s))"
      and sp2: "senders p'' = update_senders (length (senders p')) ?ts (senders p')" by blast
    have "senders p'' = senders p'" unfolding sp2 by (rule update_again[OF sent])
    moreover have "get_pc (put_pc r p'' (put_pc r p' s)) peerId = Some (r, p'')"
      by (rule get_pc_put_pc[OF g'])
    ultimately show "(\<forall>t \<in> set ?ts. \<exists>i. find_sender (senders p') (track_kind t) 0 = Some i \<and>
                      senders p' ! i = Some t) \<and>
               (\<exists>p''. get_pc (snd (updateStream b peerId st (put_pc r p' s))) peerId = Some (r, p'') \<and>
                      senders p'' = senders p')"
      using sent by (simp add: u2)
  qed
  show ?thesis
    apply (simp only: u fst_conv snd_conv)
    apply (intro conjI refl exI[of _ p'])
    using g' inplace cnt dist by simp_all
qed

theorem updateStream_replaces_by_kind_witness:
  "get_pc connected_peer ''q'' \<noteq> None \<and>
   distinct (map track_kind (stream_tracks screen)) \<and>
   map_option senders (pcs (snd (updateStream ok_browser ''q'' screen connected_peer)) 0) =
     Some [Some \<lparr>track_id = ''mic'', track_kind = ''audio''\<rparr>,
           Some \<lparr>track_id = ''scr'', track_kind = ''video''\<rparr>] \<and>
   map_option senders
     (pcs (snd (updateStream ok_browser ''q'' screen
                  (snd (updateStream ok_browser ''q'' screen connected_peer)))) 0) =
     Some [Some \<lparr>track_id = ''mic'', track_kind = ''audio''\<rparr>,
           Some \<lparr>track_id = ''scr'', track_kind = ''video''\<rparr>]"
proof -
  obtain p where p: "get_pc connected_peer ''q'' = Some (0, p)"
    "senders p = [Some \<lparr>track_id = ''mic'', track_kind = ''audio''\<rparr>,
                  Some \<lparr>track_id = ''cam'', track_kind = ''video''\<rparr>]"
    using connected_peer_pc by blast
  have d: "distinct (map track_kind (stream_tracks screen))" by (simp add: screen_def)
  from updateStream_replaces_by_kind[OF ok_browser_tracks p(1), of screen] d
  obtain p' p'' where
    1: "get_pc (snd (updateStream ok_browser ''q'' screen connected_peer)) ''q'' = Some (0, p')"
    and 2: "\<forall>t \<in> set (stream_tracks screen).
              \<exists>i. find_sender (senders p') (track_kind t) 0 = Some i \<and> senders p' ! i = Some t"
    and 3: "length (senders p) \<le> length (senders p')"
    and 4: "\<forall>k. kind_count k (senders p') =
                   (if kind_count k (senders p) = 0
                    then length (filter (\<lambda>t. track_kind t = k) (stream_tracks screen))
                    else kind_count k (senders p))"
    and 5: "get_pc (snd (updateStream ok_browser ''q'' screen
                  (snd (updateStream ok_browser ''q'' screen connected_peer)))) ''q'' = Some (0, p'')"
    and 6: "senders p'' = senders p'"
    by blast
  have s1: "senders (snd (replace_tracks ok_browser (length (senders p)) (stream_tracks screen) p)) =
      [Some \<lparr>track_id = ''mic'', track_kind = ''audio''\<rparr>,
       Some \<lparr>track_id = ''scr'', track_kind = ''video''\<rparr>]"
    by (simp add: p(2) screen_def ok_browser_def pc_replaceTrack_def pc_addTrack_def log_call_def)
  have "senders p' = [Some \<lparr>track_id = ''mic'', track_kind = ''audio''\<rparr>,
                      Some \<lparr>track_id = ''scr'', track_kind = ''video''\<rparr>]"
    using 1 p(1) s1 by (auto simp: updateStream_def get_pc_def put_pc_def split: prod.splits option.splits)
  then show ?thesis
    using 1 5 6 d p(1) by (auto simp: get_pc_def split: option.splits)
qed

text \<open>
  The claim as it is written fails for a stream with two tracks of a kind that was not
  sent before: the first call adds a sender for each, and the second call puts the second
  track on the first sender.
\<close>

theorem updateStream_idempotent_counterexample:
  "map_option senders (pcs audio_peer 0) =
     Some [Some \<lparr>track_id = ''mic'', track_kind = ''audio''\<rparr>] \<and>
   map_option senders (pcs (snd (updateStream ok_browser ''q'' two_videos audio_peer)) 0) =
     Some [Some \<lparr>track_id = ''mic'', track_kind = ''audio''\<rparr>,
           Some \<lparr>track_id = ''v1'', track_kind = ''video''\<rparr>,
           Some \<lparr>track_id = ''v2'', track_kind = ''video''\<rparr>] \<and>
   map_option senders
     (pcs (snd (updateStream ok_browser ''q'' two_videos
                  (snd (updateStream ok_browser ''q'' two_videos audio_peer)))) 0) =
     Some [Some \<lparr>track_id = ''mic'', track_kind = ''audio''\<rparr>,
           Some \<lparr>track_id = ''v2'', track_kind = ''video''\<rparr>,
           Some \<lparr>track_id = ''v2'', track_kind = ''video''\<rparr>]"
  by (simp add: audio_peer_def mic_only_def an_answer_def two_videos_def client_defs)

text \<open>
  \<^bold>\<open>C8\<close>. Closing a peer twice is closing it once: the second call returns \<open>false\<close>
  and changes nothing. When the peer has a connection, in a state where timer ids are positive as
  \<open>setTimeout\<close> returns them (\<open>client_wf\<close>), one call returns \<open>true\<close>, closes the connection and
  leaves no entry for the peer in the connection table, the candidate queue, the stream
  cache, the timer table (neither under the peer id nor under the key of the ICE gathering
  timer), \<open>remotePeers\<close>, \<open>remoteStreams\<close> and \<open>connectionStatus\<close>, and the timers
  that were stored for the peer are no longer pending.
\<close>

theorem closePeerConnection_idempotent:
  "closePeerConnection peerId (snd (closePeerConnection peerId s)) =
     (False, snd (closePeerConnection peerId s)) \<and>
   (get_pc s peerId = Some (r, p) \<and> client_wf s \<longrightarrow>
      fst (closePeerConnection peerId s) = True \<and>
      peerConnectionsRef (snd (closePeerConnection peerId s)) peerId = None \<and>
      iceCandidatesQueueRef (snd (closePeerConnection peerId s)) peerId = None \<and>
      remoteStreamsRef (snd (closePeerConnection peerId s)) peerId = None \<and>
      connectionTimeoutsRef (snd (closePeerConnection peerId s)) peerId = None \<and>
      connectionTimeoutsRef (snd (closePeerConnection peerId s)) (peerId @ ''_ice'') = None \<and>
      remotePeers (snd (closePeerConnection peerId s)) peerId = None \<and>
      remoteStreams (snd (closePeerConnection peerId s)) peerId = None \<and>
      connectionStatus (snd (closePeerConnection peerId s)) peerId = None \<and>
      pcs (snd (closePeerConnection peerId s)) r = Some (pc_close p) \<and>
      (\<forall>tid. connectionTimeoutsRef s peerId = Some tid \<or>
             connectionTimeoutsRef s (peerId @ ''_ice'') = Some tid \<longrightarrow>
             timers (snd (closePeerConnection peerId s)) tid = None))"
proof (intro conjI impI allI)
  show "closePeerConnection peerId (snd (closePeerConnection peerId s)) =
     (False, snd (closePeerConnection peerId s))"
  proof (cases "get_pc s peerId")
    case None
    then show ?thesis by (simp add: closePeerConnection_absent)
  next
    case (Some a)
    then obtain r p where "get_pc s peerId = Some (r, p)" by (cases a) auto
    from closePeerConnection_present[OF this] show ?thesis by (rule closePeerConnection_absent)
  qed
next
  assume a: "get_pc s peerId = Some (r, p) \<and> client_wf s"
  then have g: "get_pc s peerId = Some (r, p)" and pos: "\<And>k. connectionTimeoutsRef s k \<noteq> Some 0"
    by (auto simp: client_wf_def)
  let ?s1 = "clear_timeout_entry peerId s"
  let ?s2 = "clear_timeout_entry (peerId @ ''_ice'') ?s1"
  have ne: "peerId @ ''_ice'' \<noteq> peerId" by simp
  have c: "snd (closePeerConnection peerId s) =
      (put_pc r (pc_close p) ?s2)\<lparr>peerConnectionsRef := (peerConnectionsRef ?s2)(peerId := None),
         iceCandidatesQueueRef := (iceCandidatesQueueRef ?s2)(peerId := None),
         remoteStreamsRef := (remoteStreamsRef ?s2)(peerId := None),
         remotePeers := (remotePeers ?s2)(peerId := None),
         remoteStreams := (remoteStreams ?s2)(peerId := None),
         connectionStatus := (connectionStatus ?s2)(peerId := None)\<rparr>"
    and f: "fst (closePeerConnection peerId s) = True"
    using g by (simp_all add: closePeerConnection_def Let_def put_pc_def)
  show "fst (closePeerConnection peerId s) = True" by (rule f)
  show "peerConnectionsRef (snd (closePeerConnection peerId s)) peerId = None"
    and "iceCandidatesQueueRef (snd (closePeerConnection peerId s)) peerId = None"
    and "remoteStreamsRef (snd (closePeerConnection peerId s)) peerId = None"
    and "remotePeers (snd (closePeerConnection peerId s)) peerId = None"
    and "remoteStreams (snd (closePeerConnection peerId s)) peerId = None"
    and "connectionStatus (snd (closePeerConnection peerId s)) peerId = None"
    and "pcs (snd (closePeerConnection peerId s)) r = Some (pc_close p)"
    by (simp_all add: c put_pc_def)
  have k1: "connectionTimeoutsRef ?s1 peerId = None" by (rule clear_timeout_entry_key[OF pos])
  have k2: "connectionTimeoutsRef ?s1 (peerId @ ''_ice'') = connectionTimeoutsRef s (peerId @ ''_ice'')"
    by (rule clear_timeout_entry_other[OF ne])
  show "connectionTimeoutsRef (snd (closePeerConnection peerId s)) peerId = None"
    using k1 by (simp add: c put_pc_def clear_timeout_entry_other[OF ne[symmetric]])
  show "connectionTimeoutsRef (snd (closePeerConnection peerId s)) (peerId @ ''_ice'') = None"
    using clear_timeout_entry_key[of ?s1 "peerId @ ''_ice''"] pos k2
    by (simp add: c put_pc_def)
  fix tid
  assume t: "connectionTimeoutsRef s peerId = Some tid \<or>
             connectionTimeoutsRef s (peerId @ ''_ice'') = Some tid"
  have "timers ?s2 tid = None"
  proof (cases "connectionTimeoutsRef s peerId = Some tid")
    case True
    with pos[of peerId] have "tid \<noteq> 0" by auto
    from clear_timeout_entry_timer[OF True this] show ?thesis
      by (rule clear_timeout_entry_timers_mono)
  next
    case False
    with t have "connectionTimeoutsRef s (peerId @ ''_ice'') = Some tid" by simp
    with k2 pos[of "peerId @ ''_ice''"] have "connectionTimeoutsRef ?s1 (peerId @ ''_ice'') = Some tid" "tid \<noteq> 0"
      by auto
    then show ?thesis by (rule clear_timeout_entry_timer)
  qed
  then show "timers (snd (closePeerConnection peerId s)) tid = None"
    by (simp add: c put_pc_def)
qed

theorem closePeerConnection_idempotent_witness:
  "hasPeerConnection ''q'' glare \<and>
   queue_of glare ''q'' = [''c1'', ''c2''] \<and>
   timers glare 1 \<noteq> None \<and> timers glare 2 \<noteq> None \<and>
   fst (closePeerConnection ''q'' glare) = True \<and>
   peerConnectionsRef (snd (closePeerConnection ''q'' glare)) ''q'' = None \<and>
   iceCandidatesQueueRef (snd (closePeerConnection ''q'' glare)) ''q'' = None \<and>
   connectionTimeoutsRef (snd (closePeerConnection ''q'' glare)) ''q'' = None \<and>
   connectionTimeoutsRef (snd (closePeerConnection ''q'' glare)) ''q_ice'' = None \<and>
   connectionStatus (snd (closePeerConnection ''q'' glare)) ''q'' = None \<and>
   timers (snd (closePeerConnection ''q'' glare)) 1 = None \<and>
   timers (snd (closePeerConnection ''q'' glare)) 2 = None \<and>
   closePeerConnection ''q'' (snd (closePeerConnection ''q'' glare)) =
     (False, snd (closePeerConnection ''q'' glare))"
proof -
  obtain g where g: "get_pc glare ''q'' = Some (0, g)" using glare_state(1) by blast
  have h: "hasPeerConnection ''q'' glare" by (simp add: hasPeerConnection_def g)
  show ?thesis
    using closePeerConnection_idempotent[of "''q''" glare 0 g]
      example_wf(5) glare_state(2-8) g h
    by simp
qed

end
